(* ===== verification/Prelude.thy ===== *)
theory Prelude
  imports Main "HOL-Library.Word"
begin

text \<open>
  Shared vocabulary of the development: the machine integers and byte strings of the C
  sources, the outcome type that makes an out-of-bounds write or a process exit a value,
  big-endian 16-bit fields, the list operations that mirror \<^verbatim>\<open>memcpy\<close> and
  \<^verbatim>\<open>LIST_FOREACH ... break\<close>, and the interfaces every component is measured
  against: \<open>codec\<close> (an encoder with a decoder that undoes it), \<open>invariant_system\<close>
  (a step relation with an inductive invariant) and \<open>refinement\<close> (a step relation whose
  steps are runs of a more abstract one).
\<close>

unbundle bit_operations_syntax

named_theorems node_keeps \<open>what an operation of the signer leaves alone\<close>

section \<open>Machine integers and byte strings\<close>

type_synonym u8 = "8 word"
type_synonym u16 = "16 word"
type_synonym u32 = "32 word"
type_synonym u64 = "64 word"
type_synonym bytes = "u8 list"

text \<open>
  The result of running a handler. \<open>Cont s\<close> is a normal return in state \<open>s\<close>,
  \<open>Exit rc s\<close> a call of \<^verbatim>\<open>exit(rc)\<close>, and \<open>Undef\<close> stands for a write or
  read outside a C object: the C program has no defined behaviour from there on.
\<close>

datatype 's outcome = Cont 's | Exit nat 's | Undef

fun obind :: "'s outcome \<Rightarrow> ('s \<Rightarrow> 't outcome) \<Rightarrow> ('s \<Rightarrow> 't) \<Rightarrow> 't outcome" where
  "obind (Cont s) k h = k s"
| "obind (Exit rc s) k h = Exit rc (h s)"
| "obind Undef k h = Undef"

section \<open>Big-endian 16-bit fields\<close>

definition hi8 :: "u16 \<Rightarrow> u8" where
  "hi8 x = ucast (drop_bit 8 x)"

definition lo8 :: "u16 \<Rightarrow> u8" where
  "lo8 x = ucast (x AND 0xFF)"

definition be16 :: "u8 \<Rightarrow> u8 \<Rightarrow> u16" where
  "be16 a b = push_bit 8 (ucast a) OR ucast b"

abbreviation be16_bytes :: "u16 \<Rightarrow> bytes" where
  "be16_bytes x \<equiv> [hi8 x, lo8 x]"

lemma bit_255_iff: "bit (255 :: int) n \<longleftrightarrow> n < 8" "bit (255 :: nat) n \<longleftrightarrow> n < 8"
proof -
  have "(255 :: int) = mask 8" "(255 :: nat) = mask 8"
    by (simp_all add: mask_eq_exp_minus_1)
  then show "bit (255 :: int) n \<longleftrightarrow> n < 8" "bit (255 :: nat) n \<longleftrightarrow> n < 8"
    by (simp_all only: bit_mask_iff) auto
qed

lemma be16_hi_lo [simp]: "be16 (hi8 x) (lo8 x) = x"
  unfolding be16_def hi8_def lo8_def
  by (rule bit_word_eqI) (auto simp: bit_simps bit_255_iff)

lemma hi8_be16 [simp]: "hi8 (be16 a b) = a"
  unfolding be16_def hi8_def
  by (rule bit_word_eqI) (auto simp: bit_simps dest: bit_imp_le_length)

lemma lo8_be16 [simp]: "lo8 (be16 a b) = b"
  unfolding be16_def lo8_def
  by (rule bit_word_eqI) (auto simp: bit_simps bit_255_iff)

lemma be16_inject: "be16 a b = be16 c d \<longleftrightarrow> a = c \<and> b = d"
  by (metis hi8_be16 lo8_be16)

lemma unat_of_nat_u16 [simp]: "n < 65536 \<Longrightarrow> unat (of_nat n :: u16) = n"
  by (simp add: unat_of_nat)

lemma unat_u16_less: "unat (x :: u16) < 65536"
  using unsigned_less [of x] by simp

lemma of_nat_u16_inject:
  "m < 65536 \<Longrightarrow> n < 65536 \<Longrightarrow> (of_nat m :: u16) = of_nat n \<longleftrightarrow> m = n"
  by (metis unat_of_nat_u16)

section \<open>Buffers and lists\<close>

text \<open>
  \<open>overwrite buf xs\<close> is the array \<open>buf\<close> after \<^verbatim>\<open>memcpy(buf, xs, |xs|)\<close>: the first
  \<open>|xs|\<close> cells are replaced, the rest keep their old contents.
\<close>

definition overwrite :: "'a list \<Rightarrow> 'a list \<Rightarrow> 'a list" where
  "overwrite buf xs = xs @ drop (length xs) buf"

lemma length_overwrite: "length xs \<le> length buf \<Longrightarrow> length (overwrite buf xs) = length buf"
  by (simp add: overwrite_def)

lemma overwrite_full [simp]: "length xs = length buf \<Longrightarrow> overwrite buf xs = xs"
  by (simp add: overwrite_def)

text \<open>
  A \<^verbatim>\<open>LIST_FOREACH\<close> that acts on the first matching element and breaks.
\<close>

fun update_first :: "('a \<Rightarrow> bool) \<Rightarrow> ('a \<Rightarrow> 'a) \<Rightarrow> 'a list \<Rightarrow> 'a list" where
  "update_first P f [] = []"
| "update_first P f (x # xs) = (if P x then f x # xs else x # update_first P f xs)"

lemma length_update_first [simp]: "length (update_first P f xs) = length xs"
  by (induction xs) auto

lemma map_update_first_same:
  "(\<And>x. g (f x) = g x) \<Longrightarrow> map g (update_first P f xs) = map g xs"
  by (induction xs) auto

lemma set_update_first: "y \<in> set (update_first P f xs) \<Longrightarrow> y \<in> set xs \<or> (\<exists>x \<in> set xs. P x \<and> y = f x)"
  by (induction xs) (auto split: if_splits)

lemma update_first_id: "\<forall>x \<in> set xs. \<not> P x \<Longrightarrow> update_first P f xs = xs"
  by (induction xs) auto

text \<open>With keys that are unique in the list, the first match is the only one.\<close>

lemma update_first_distinct:
  "distinct (map g xs) \<Longrightarrow>
   update_first (\<lambda>x. g x = k) f xs = map (\<lambda>x. if g x = k then f x else x) xs"
proof (induction xs)
  case (Cons a xs)
  then show ?case
    by (cases "g a = k") (auto intro!: map_idI [symmetric] simp: image_iff)
qed simp

lemma find_Some_conv: "find P xs = Some x \<Longrightarrow> x \<in> set xs \<and> P x"
  by (induction xs) (auto split: if_splits)

lemma find_None_conv: "find P xs = None \<longleftrightarrow> (\<forall>x \<in> set xs. \<not> P x)"
  by (induction xs) auto

text \<open>The position of the first element that satisfies a predicate (a linear scan).\<close>

fun index_of :: "('a \<Rightarrow> bool) \<Rightarrow> 'a list \<Rightarrow> nat option" where
  "index_of P [] = None"
| "index_of P (x # xs) = (if P x then Some 0 else map_option Suc (index_of P xs))"

lemma index_of_Some:
  "index_of P xs = Some i \<Longrightarrow> i < length xs \<and> P (xs ! i) \<and> (\<forall>j < i. \<not> P (xs ! j))"
proof (induction xs arbitrary: i)
  case (Cons x xs)
  then show ?case
    by (auto simp: nth_Cons less_Suc_eq_0_disj split: if_splits nat.splits)
qed simp

lemma index_of_None: "index_of P xs = None \<longleftrightarrow> (\<forall>x \<in> set xs. \<not> P x)"
  by (induction xs) auto

lemma take_append_exact [simp]: "length xs = n \<Longrightarrow> take n (xs @ ys) = xs"
  by simp

lemma drop_append_exact [simp]: "length xs = n \<Longrightarrow> drop n (xs @ ys) = ys"
  by simp

section \<open>Interfaces\<close>

text \<open>
  An encoder and a decoder that undoes it on well-formed values. Every wire format of the
  program (frames, commit bundles, signed commitment buffers, hex lines, HELLO texts) is an
  instance, and gets unambiguity of its encoding from here.
\<close>

locale codec =
  fixes enc :: "'a \<Rightarrow> 'b"
    and dec :: "'b \<Rightarrow> 'a option"
    and wf :: "'a \<Rightarrow> bool"
  assumes dec_enc: "wf x \<Longrightarrow> dec (enc x) = Some x"
begin

lemma enc_inject: "wf x \<Longrightarrow> wf y \<Longrightarrow> enc x = enc y \<longleftrightarrow> x = y"
  by (metis dec_enc option.inject)

lemma enc_inj_on: "inj_on enc {x. wf x}"
  by (simp add: inj_on_def enc_inject)

lemma dec_defined: "wf x \<Longrightarrow> dec (enc x) \<noteq> None"
  by (simp add: dec_enc)

end

text \<open>States reachable from an initial one, and the proof rule for invariants of them.\<close>

inductive reach :: "('s \<Rightarrow> bool) \<Rightarrow> ('s \<Rightarrow> 's \<Rightarrow> bool) \<Rightarrow> 's \<Rightarrow> bool"
  for init :: "'s \<Rightarrow> bool" and step :: "'s \<Rightarrow> 's \<Rightarrow> bool" where
  reach_init: "init s \<Longrightarrow> reach init step s"
| reach_step: "reach init step s \<Longrightarrow> step s t \<Longrightarrow> reach init step t"

locale invariant_system =
  fixes init :: "'s \<Rightarrow> bool"
    and step :: "'s \<Rightarrow> 's \<Rightarrow> bool"
    and inv :: "'s \<Rightarrow> bool"
  assumes inv_init: "init s \<Longrightarrow> inv s"
    and inv_step: "inv s \<Longrightarrow> step s t \<Longrightarrow> inv t"
begin

lemma reach_inv: "reach init step s \<Longrightarrow> inv s"
  by (induction rule: reach.induct) (auto intro: inv_init inv_step)

end

text \<open>
  Steps that are runs of a more abstract system, under an invariant of the detailed one. What
  holds along every abstract run then holds along every detailed run.
\<close>

locale refinement =
  fixes abs :: "'s \<Rightarrow> 'a"
    and astep :: "'a \<Rightarrow> 'a \<Rightarrow> bool"
    and cstep :: "'s \<Rightarrow> 's \<Rightarrow> bool"
    and inv :: "'s \<Rightarrow> bool"
  assumes inv_cstep: "inv s \<Longrightarrow> cstep s t \<Longrightarrow> inv t"
    and simulates: "inv s \<Longrightarrow> cstep s t \<Longrightarrow> astep\<^sup>*\<^sup>* (abs s) (abs t)"
begin

lemma inv_run: "cstep\<^sup>*\<^sup>* s t \<Longrightarrow> inv s \<Longrightarrow> inv t"
  by (induction rule: rtranclp_induct) (auto intro: inv_cstep)

lemma simulates_run: "cstep\<^sup>*\<^sup>* s t \<Longrightarrow> inv s \<Longrightarrow> astep\<^sup>*\<^sup>* (abs s) (abs t)"
proof (induction rule: rtranclp_induct)
  case (step t u)
  then show ?case using simulates [OF inv_run [OF step(1)]] by (blast intro: rtranclp_trans)
qed simp

end

end
