(* ===== verification/Libc.thy ===== *)
theory Libc
  imports Prelude
begin

text \<open>
  The functions of the C library that the sources call on text: decimal formatting
  (\<^verbatim>\<open>%u\<close> of \<^verbatim>\<open>snprintf\<close>), number scanning (\<^verbatim>\<open>%hu\<close>, \<^verbatim>\<open>atoi\<close>,
  \<^verbatim>\<open>atol\<close>) with the saturation and truncation of \<^verbatim>\<open>strtoul\<close> and
  \<^verbatim>\<open>strtol\<close>, literal matching of \<^verbatim>\<open>sscanf\<close>, \<^verbatim>\<open>fgets\<close>, \<^verbatim>\<open>strchr\<close> and
  \<^verbatim>\<open>strcspn\<close>. A C string is a list of characters without its terminating zero.
\<close>

section \<open>Characters, bytes and C strings\<close>

abbreviation NL :: char where "NL \<equiv> CHR 0x0A"
abbreviation CR :: char where "CR \<equiv> CHR 0x0D"
abbreviation NUL :: char where "NUL \<equiv> CHR 0x00"

definition byte_of :: "char \<Rightarrow> u8" where
  "byte_of c = of_nat (of_char c)"

definition char_of_byte :: "u8 \<Rightarrow> char" where
  "char_of_byte b = char_of (unat b)"

definition str_bytes :: "string \<Rightarrow> bytes" where
  "str_bytes s = map byte_of s"

definition bytes_str :: "bytes \<Rightarrow> string" where
  "bytes_str bs = map char_of_byte bs"

lemma char_of_byte_of [simp]: "char_of_byte (byte_of c) = c"
proof -
  have "(of_char c :: nat) < 256" by simp
  then show ?thesis by (simp add: char_of_byte_def byte_of_def unat_of_nat)
qed

lemma bytes_str_str_bytes [simp]: "bytes_str (str_bytes s) = s"
  by (simp add: bytes_str_def str_bytes_def comp_def)

lemma length_str_bytes [simp]: "length (str_bytes s) = length s"
  by (simp add: str_bytes_def)

text \<open>The part of a character buffer that \<^verbatim>\<open>strlen\<close> and friends see.\<close>

definition c_string :: "string \<Rightarrow> string" where
  "c_string s = takeWhile (\<lambda>c. c \<noteq> NUL) s"

lemma c_string_id: "NUL \<notin> set s \<Longrightarrow> c_string s = s"
  by (induction s) (auto simp: c_string_def)

definition isspace :: "char \<Rightarrow> bool" where
  "isspace c \<longleftrightarrow> c \<in> set [CHR '' '', CHR 0x09, CHR 0x0A, CHR 0x0B, CHR 0x0C, CHR 0x0D]"

section \<open>Decimal numbers\<close>

abbreviation dec_digits :: string where
  "dec_digits \<equiv> ''0123456789''"

definition digit_val :: "char \<Rightarrow> nat option" where
  "digit_val c = index_of (\<lambda>d. d = c) dec_digits"

text \<open>\<^verbatim>\<open>%u\<close>: decimal digits, no leading zeros.\<close>

fun fmt_u :: "nat \<Rightarrow> string" where
  "fmt_u n = (if n < 10 then [dec_digits ! n] else fmt_u (n div 10) @ [dec_digits ! (n mod 10)])"

declare fmt_u.simps [simp del]

fun scan_digits :: "nat \<Rightarrow> string \<Rightarrow> nat \<times> string" where
  "scan_digits acc [] = (acc, [])"
| "scan_digits acc (c # cs) =
     (case digit_val c of None \<Rightarrow> (acc, c # cs) | Some d \<Rightarrow> scan_digits (10 * acc + d) cs)"

definition starts_digit :: "string \<Rightarrow> bool" where
  "starts_digit s \<longleftrightarrow> (case s of [] \<Rightarrow> False | c # _ \<Rightarrow> digit_val c \<noteq> None)"

text \<open>Optional white space, an optional sign, at least one digit.\<close>

definition scan_int :: "string \<Rightarrow> (bool \<times> nat \<times> string) option" where
  "scan_int s =
     (let s1 = dropWhile isspace s;
          neg = (s1 \<noteq> [] \<and> hd s1 = CHR ''-'');
          s2 = (if s1 \<noteq> [] \<and> hd s1 \<in> set ''+-'' then tl s1 else s1)
      in if starts_digit s2 then (case scan_digits 0 s2 of (v, r) \<Rightarrow> Some (neg, v, r)) else None)"

text \<open>
  \<^verbatim>\<open>strtoul\<close> saturates at \<open>2 ^ 64 - 1\<close> and negates modulo \<open>2 ^ 64\<close>;
  \<^verbatim>\<open>%hu\<close> keeps the low 16 bits. \<^verbatim>\<open>strtol\<close> (under \<^verbatim>\<open>atoi\<close> and
  \<^verbatim>\<open>atol\<close>) saturates at both ends of \<^verbatim>\<open>long\<close>.
\<close>

definition scan_hu :: "string \<Rightarrow> (u16 \<times> string) option" where
  "scan_hu s =
     (case scan_int s of None \<Rightarrow> None
      | Some (neg, v, r) \<Rightarrow>
          Some (if v \<ge> 2 ^ 64 then 65535 else if neg then - of_nat v else of_nat v, r))"

definition atol :: "string \<Rightarrow> int" where
  "atol s =
     (case scan_int s of None \<Rightarrow> 0
      | Some (neg, v, r) \<Rightarrow> if neg then max (- int v) (- (2 ^ 63)) else min (int v) (2 ^ 63 - 1))"

definition scan_u :: "string \<Rightarrow> nat" where
  "scan_u s = (case scan_int s of None \<Rightarrow> 0
      | Some (neg, v, r) \<Rightarrow> unat (if v \<ge> 2 ^ 64 then (- 1 :: u32) else if neg then - of_nat v else of_nat v))"

lemma digit_val_nth: "d < 10 \<Longrightarrow> digit_val (dec_digits ! d) = Some d"
proof -
  assume "d < 10"
  then have "d \<in> {0, 1, 2, 3, 4, 5, 6, 7, 8, 9}" by auto
  then show ?thesis by (auto simp: digit_val_def)
qed

lemma digit_not_special:
  "d < 10 \<Longrightarrow> \<not> isspace (dec_digits ! d) \<and> dec_digits ! d \<notin> set ''+-'' \<and> dec_digits ! d \<noteq> NUL"
proof -
  assume "d < 10"
  then have "d \<in> {0, 1, 2, 3, 4, 5, 6, 7, 8, 9}" by auto
  then show ?thesis by (auto simp: isspace_def)
qed

lemma fmt_u_digits: "\<forall>c \<in> set (fmt_u n). \<exists>d < 10. c = dec_digits ! d"
proof (induction n rule: fmt_u.induct)
  case (1 n)
  then show ?case
    by (cases "n < 10") (auto simp: fmt_u.simps [of n] intro: exI [of _ "n mod 10"])
qed

lemma fmt_u_Cons: "\<exists>d cs. fmt_u n = dec_digits ! d # cs \<and> d < 10"
proof (cases "fmt_u n")
  case Nil
  then show ?thesis by (subst (asm) fmt_u.simps) (auto split: if_splits)
next
  case (Cons c cs)
  then show ?thesis using fmt_u_digits [of n] by auto
qed

lemma fmt_u_not_space: "c \<in> set (fmt_u n) \<Longrightarrow> \<not> isspace c"
  using fmt_u_digits [of n] digit_not_special by metis

lemma NL_notin_fmt_u: "NL \<notin> set (fmt_u n)"
  using fmt_u_not_space [of NL n] by (auto simp: isspace_def)

lemma space_notin_fmt_u: "CHR '' '' \<notin> set (fmt_u n)"
  using fmt_u_not_space [of "CHR '' ''" n] by (auto simp: isspace_def)

lemma NUL_notin_fmt_u: "NUL \<notin> set (fmt_u n)"
  using fmt_u_digits [of n] digit_not_special by metis

lemma length_fmt_u: "n < 10 ^ k \<Longrightarrow> 0 < k \<Longrightarrow> length (fmt_u n) \<le> k"
proof (induction n arbitrary: k rule: fmt_u.induct)
  case (1 n)
  show ?case
  proof (cases "n < 10")
    case True
    then show ?thesis using 1 by (simp add: fmt_u.simps [of n])
  next
    case False
    with 1 obtain j where k: "k = Suc j" and j: "0 < j"
      by (cases k; cases "k - 1") auto
    have "n div 10 < 10 ^ j" using 1 k by (simp add: less_mult_imp_div_less)
    then have "length (fmt_u (n div 10)) \<le> j" using 1 False j by blast
    then show ?thesis using False k by (simp add: fmt_u.simps [of n])
  qed
qed

lemma scan_digits_fmt_u:
  "scan_digits acc (fmt_u n @ rest) = scan_digits (acc * 10 ^ length (fmt_u n) + n) rest"
proof (induction n arbitrary: acc rest rule: fmt_u.induct)
  case (1 n)
  show ?case
  proof (cases "n < 10")
    case True
    then show ?thesis by (simp add: fmt_u.simps [of n] digit_val_nth algebra_simps)
  next
    case False
    have "10 * (acc * 10 ^ length (fmt_u (n div 10)) + n div 10) + n mod 10 =
          acc * 10 ^ Suc (length (fmt_u (n div 10))) + n"
      by (simp add: algebra_simps)
    then show ?thesis
      using False 1 by (simp add: fmt_u.simps [of n] digit_val_nth algebra_simps)
  qed
qed

lemma scan_digits_stop: "\<not> starts_digit r \<Longrightarrow> scan_digits v r = (v, r)"
  by (cases r) (auto simp: starts_digit_def)

lemma scan_int_fmt_u [simp]:
  assumes "\<not> starts_digit rest"
  shows "scan_int (fmt_u n @ rest) = Some (False, n, rest)"
proof -
  obtain d cs where f: "fmt_u n = dec_digits ! d # cs" and d: "d < 10"
    using fmt_u_Cons by blast
  have "scan_digits 0 (fmt_u n @ rest) = (n, rest)"
    using assms by (simp add: scan_digits_fmt_u scan_digits_stop)
  then show ?thesis
    using digit_not_special [OF d] digit_val_nth [OF d]
    by (simp add: scan_int_def f starts_digit_def Let_def del: scan_digits.simps)
qed

lemma scan_int_space [simp]: "scan_int (CHR '' '' # s) = scan_int s"
  by (simp add: scan_int_def isspace_def)

lemma scan_hu_fmt_u [simp]:
  "\<not> starts_digit rest \<Longrightarrow> scan_hu (fmt_u (unat (w :: u16)) @ rest) = Some (w, rest)"
  using unat_u16_less [of w] by (simp add: scan_hu_def)

lemma scan_u_fmt_u [simp]: "n < 65536 \<Longrightarrow> scan_u (fmt_u n) = n"
proof -
  assume "n < 65536"
  then show ?thesis
    using scan_int_fmt_u [of "[]" n] by (simp add: scan_u_def starts_digit_def unat_of_nat)
qed

section \<open>Matching and splitting\<close>

text \<open>
  A literal part of an \<^verbatim>\<open>sscanf\<close> format: white space in the format matches any amount of
  white space, any other character matches itself.
\<close>

fun scan_lit :: "string \<Rightarrow> string \<Rightarrow> string option" where
  "scan_lit [] s = Some s"
| "scan_lit (f # fs) s =
     (if isspace f then scan_lit fs (dropWhile isspace s)
      else (case s of [] \<Rightarrow> None | c # cs \<Rightarrow> if c = f then scan_lit fs cs else None))"

text \<open>\<^verbatim>\<open>strchr\<close> followed by writing a zero over the hit: the parts before and after it.\<close>

fun split_at :: "char \<Rightarrow> string \<Rightarrow> (string \<times> string) option" where
  "split_at d [] = None"
| "split_at d (c # cs) =
     (if c = d then Some ([], cs) else map_option (\<lambda>(a, b). (c # a, b)) (split_at d cs))"

lemma split_at_append: "d \<notin> set xs \<Longrightarrow> split_at d (xs @ d # ys) = Some (xs, ys)"
  by (induction xs) auto

text \<open>\<^verbatim>\<open>buf[strcspn(buf, "\r\n")] = 0\<close>.\<close>

definition cut_crlf :: "string \<Rightarrow> string" where
  "cut_crlf s = takeWhile (\<lambda>c. c \<notin> {CR, NL}) s"

definition starts_with :: "string \<Rightarrow> string \<Rightarrow> bool" where
  "starts_with p s \<longleftrightarrow> take (length p) s = p"

text \<open>Remove one trailing newline, as \<^verbatim>\<open>popen_multi\<close> does.\<close>

definition chop_nl :: "string \<Rightarrow> string" where
  "chop_nl s = (if s \<noteq> [] \<and> last s = NL then butlast s else s)"

section \<open>Reading lines\<close>

fun take_line :: "nat \<Rightarrow> string \<Rightarrow> string \<times> string" where
  "take_line 0 s = ([], s)"
| "take_line (Suc k) [] = ([], [])"
| "take_line (Suc k) (c # cs) =
     (if c = NL then ([c], cs) else (case take_line k cs of (l, r) \<Rightarrow> (c # l, r)))"

text \<open>
  \<^verbatim>\<open>fgets(buf, sz, fp)\<close> on the remaining output \<open>s\<close> of a stream: at most \<open>sz - 1\<close>
  characters, up to and including a newline; \<open>None\<close> at the end of the stream.
\<close>

definition fgets :: "nat \<Rightarrow> string \<Rightarrow> (string \<times> string) option" where
  "fgets sz s =
     (if s = [] then None
      else (case take_line (sz - 1) s of (l, r) \<Rightarrow> Some (c_string l, r)))"

lemma take_line_append:
  "NL \<notin> set l \<Longrightarrow> length l < k \<Longrightarrow> take_line k (l @ NL # r) = (l @ [NL], r)"
proof (induction l arbitrary: k)
  case Nil
  then show ?case by (cases k) auto
next
  case (Cons c l)
  then show ?case by (cases k) auto
qed

lemma fgets_line:
  assumes "NL \<notin> set l" "NUL \<notin> set l" "Suc (length l) < sz"
  shows "fgets sz (l @ NL # r) = Some (l @ [NL], r)"
  using assms take_line_append [of l "sz - 1" r]
  by (simp add: fgets_def c_string_id)

lemma chop_nl_line [simp]: "chop_nl (l @ [NL]) = l"
  by (simp add: chop_nl_def)

lemma length_take_line: "length (fst (take_line k s)) \<le> k"
  by (induction k s rule: take_line.induct) (auto split: prod.splits)

lemma fgets_length: "fgets sz s = Some (l, r) \<Longrightarrow> length l \<le> sz - 1"
  using length_take_line [of "sz - 1" s] length_takeWhile_le
  by (auto simp: fgets_def c_string_def split: if_splits prod.splits intro: order_trans)

end
