(* ===== verification/Base64.thy ===== *)
theory Base64
  imports Libc
begin

text \<open>
  Base64 across the language border: the coordinator's decoder (\<^verbatim>\<open>b64_char_val\<close>,
  \<^verbatim>\<open>b64_decode\<close> of \<^verbatim>\<open>frost_coordinator.c\<close>), which it runs on the public key line
  printed by the Rust core, and the encoder that printed it (\<^verbatim>\<open>base64_encode\<close> of
  \<^verbatim>\<open>frost_signer_core/main.rs\<close>).
\<close>

section \<open>The coordinator's decoder\<close>

definition char_between :: "char \<Rightarrow> char \<Rightarrow> char \<Rightarrow> bool" where
  "char_between lo hi c \<longleftrightarrow> (of_char lo :: nat) \<le> of_char c \<and> (of_char c :: nat) \<le> of_char hi"

definition b64_char_val :: "char \<Rightarrow> u8" where
  "b64_char_val c =
     (if char_between CHR ''A'' CHR ''Z'' c then byte_of c - byte_of CHR ''A''
      else if char_between CHR ''a'' CHR ''z'' c then byte_of c - byte_of CHR ''a'' + 26
      else if char_between CHR ''0'' CHR ''9'' c then byte_of c - byte_of CHR ''0'' + 52
      else if c = CHR ''+'' then 62
      else if c = CHR ''/'' then 63
      else 0)"

definition b64_at :: "string \<Rightarrow> nat \<Rightarrow> u8" where
  "b64_at s i = (if i < length s then b64_char_val (s ! i) else 0)"

text \<open>The loop, on the input that is still ahead; \<open>acc\<close> is \<open>out[0 .. j)\<close>.\<close>

function b64_loop :: "nat \<Rightarrow> bytes \<Rightarrow> string \<Rightarrow> bytes option" where
  "b64_loop mx acc s =
     (if s = [] then Some acc
      else
        (let a = b64_at s 0; b = b64_at s 1; c = b64_at s 2; d = b64_at s 3 in
         if length acc \<ge> mx then None
         else
           (let o1 = acc @ [push_bit 2 a OR drop_bit 4 b];
                o2 = (if 2 < length s \<and> length o1 < mx
                      then o1 @ [push_bit 4 (b AND 15) OR drop_bit 2 c] else o1);
                o3 = (if 3 < length s \<and> length o2 < mx
                      then o2 @ [push_bit 6 (c AND 3) OR d] else o2)
            in b64_loop mx o3 (drop 4 s))))"
  by pat_completeness auto
termination
  by (relation "measure (\<lambda>(mx, acc, s). length s)") auto

declare b64_loop.simps [simp del]

definition b64_strip :: "string \<Rightarrow> string" where
  "b64_strip s = rev (dropWhile (\<lambda>c. c = CHR ''='' \<or> c = NL) (rev s))"

definition b64_decode :: "string \<Rightarrow> nat \<Rightarrow> bytes option" where
  "b64_decode s mx = b64_loop mx [] (b64_strip s)"

section \<open>The Rust encoder\<close>

abbreviation b64_chars :: string where
  "b64_chars \<equiv> ''ABCDEFGHIJKLMNOPQRSTUVWXYZabcdefghijklmnopqrstuvwxyz0123456789+/''"

fun base64_encode :: "bytes \<Rightarrow> string" where
  "base64_encode [] = []"
| "base64_encode [b0] =
     [b64_chars ! unat (drop_bit 2 b0), b64_chars ! unat (push_bit 4 (b0 AND 3)), CHR ''='', CHR ''='']"
| "base64_encode [b0, b1] =
     [b64_chars ! unat (drop_bit 2 b0), b64_chars ! unat (push_bit 4 (b0 AND 3) OR drop_bit 4 b1),
      b64_chars ! unat (push_bit 2 (b1 AND 0xf)), CHR ''='']"
| "base64_encode (b0 # b1 # b2 # bs) =
     [b64_chars ! unat (drop_bit 2 b0), b64_chars ! unat (push_bit 4 (b0 AND 3) OR drop_bit 4 b1),
      b64_chars ! unat (push_bit 2 (b1 AND 0xf) OR drop_bit 6 b2), b64_chars ! unat (b2 AND 0x3f)]
     @ base64_encode bs"

section \<open>The decoder undoes the encoder\<close>

lemma b64_table: "map b64_char_val b64_chars = map of_nat [0..<64]"
  by (simp add: b64_char_val_def char_between_def byte_of_def upt_rec)

lemma b64_table_plain: "list_all (\<lambda>c. c \<noteq> CHR ''='' \<and> c \<noteq> NL \<and> c \<noteq> CHR '' '') b64_chars"
  by simp

lemma b64_char_val_nth: "unat v < 64 \<Longrightarrow> b64_char_val (b64_chars ! unat v) = v"
proof -
  assume v: "unat v < 64"
  then have "b64_char_val (b64_chars ! unat v) = map b64_char_val b64_chars ! unat v"
    by (subst nth_map) simp_all
  also have "\<dots> = of_nat (unat v)"
    unfolding b64_table using v by simp
  finally show ?thesis by simp
qed

lemma b64_char_plain: "n < 64 \<Longrightarrow> b64_chars ! n \<noteq> CHR ''='' \<and> b64_chars ! n \<noteq> NL \<and> b64_chars ! n \<noteq> CHR '' ''"
proof -
  assume "n < 64"
  then have "b64_chars ! n \<in> set b64_chars" by (intro nth_mem) simp
  then show ?thesis using b64_table_plain unfolding list_all_iff by blast
qed

text \<open>The four sextets of three bytes, and how the decoder reassembles them.\<close>

lemma b64_masks: "(3 :: u8) = mask 2" "(15 :: u8) = mask 4" "(63 :: u8) = mask 6"
  by (simp_all add: mask_eq_exp_minus_1)

lemma unat_lt_64: "(\<And>n. bit v n \<Longrightarrow> n < 6) \<Longrightarrow> unat (v :: u8) < 64"
proof -
  assume v: "\<And>n. bit v n \<Longrightarrow> n < 6"
  have "take_bit 6 v = v" by (rule bit_word_eqI) (auto simp: bit_simps dest: v)
  moreover have "unat (take_bit 6 v) = take_bit 6 (unat v)" by (simp only: unsigned_take_bit_eq)
  ultimately show ?thesis using take_bit_nat_less_exp [of 6 "unat v"] by simp
qed

lemma sextet_bounds:
  fixes x y :: u8
  shows "unat (drop_bit 2 x) < 64" "unat (push_bit 4 (x AND 3)) < 64"
  "unat (push_bit 4 (x AND 3) OR drop_bit 4 y) < 64" "unat (push_bit 2 (x AND 0xf)) < 64"
  "unat (push_bit 2 (x AND 0xf) OR drop_bit 6 y) < 64" "unat (x AND 0x3f) < 64"
  by (rule unat_lt_64; auto simp: b64_masks bit_simps dest: bit_imp_le_length)+

lemma u8_eqI:
  fixes a b :: u8
  assumes "\<forall>n \<in> set [0, 1, 2, 3, 4, 5, 6, 7]. bit a n \<longleftrightarrow> bit b n"
  shows "a = b"
proof (rule bit_word_eqI)
  fix n :: nat
  assume "n < LENGTH(8)"
  then have "n \<in> set [0, 1, 2, 3, 4, 5, 6, 7]" by auto
  with assms show "bit a n \<longleftrightarrow> bit b n" by blast
qed

lemma sextets_join:
  fixes b0 b1 b2 :: u8
  shows "push_bit 2 (drop_bit 2 b0) OR drop_bit 4 (push_bit 4 (b0 AND 3) OR drop_bit 4 b1) = b0"
    and "push_bit 2 (drop_bit 2 b0) OR drop_bit 4 (push_bit 4 (b0 AND 3)) = b0"
    and "push_bit 4 ((push_bit 4 (b0 AND 3) OR drop_bit 4 b1) AND 15)
           OR drop_bit 2 (push_bit 2 (b1 AND 0xf) OR drop_bit 6 b2) = b1"
    and "push_bit 4 ((push_bit 4 (b0 AND 3) OR drop_bit 4 b1) AND 15)
           OR drop_bit 2 (push_bit 2 (b1 AND 0xf)) = b1"
    and "push_bit 6 ((push_bit 2 (b1 AND 0xf) OR drop_bit 6 b2) AND 3) OR (b2 AND 0x3f) = b2"
  by (rule u8_eqI; simp add: b64_masks bit_simps; simp add: eval_nat_numeral)+

lemma b64_loop_Cons4:
  "length acc + 3 \<le> mx \<Longrightarrow>
   b64_loop mx acc (w # x # y # z # s) =
     b64_loop mx (acc @ [push_bit 2 (b64_char_val w) OR drop_bit 4 (b64_char_val x),
                         push_bit 4 (b64_char_val x AND 15) OR drop_bit 2 (b64_char_val y),
                         push_bit 6 (b64_char_val y AND 3) OR b64_char_val z]) s"
  by (subst b64_loop.simps) (simp add: Let_def b64_at_def eval_nat_numeral)

lemma b64_loop_2:
  "length acc < mx \<Longrightarrow>
   b64_loop mx acc [w, x] = Some (acc @ [push_bit 2 (b64_char_val w) OR drop_bit 4 (b64_char_val x)])"
  by (simp add: b64_loop.simps Let_def b64_at_def)

lemma b64_loop_3:
  "length acc + 2 \<le> mx \<Longrightarrow>
   b64_loop mx acc [w, x, y] =
     Some (acc @ [push_bit 2 (b64_char_val w) OR drop_bit 4 (b64_char_val x),
                  push_bit 4 (b64_char_val x AND 15) OR drop_bit 2 (b64_char_val y)])"
  by (simp add: b64_loop.simps Let_def b64_at_def eval_nat_numeral)

text \<open>The digits of an encoding, without the padding that the decoder strips first.\<close>

definition b64_digits :: "bytes \<Rightarrow> string" where
  "b64_digits bs = takeWhile (\<lambda>c. c \<noteq> CHR ''='') (base64_encode bs)"

lemma b64_digits_simps:
  "b64_digits [] = []"
  "b64_digits [b0] = [b64_chars ! unat (drop_bit 2 b0), b64_chars ! unat (push_bit 4 (b0 AND 3))]"
  "b64_digits [b0, b1] =
     [b64_chars ! unat (drop_bit 2 b0), b64_chars ! unat (push_bit 4 (b0 AND 3) OR drop_bit 4 b1),
      b64_chars ! unat (push_bit 2 (b1 AND 0xf))]"
  "b64_digits (b0 # b1 # b2 # bs) =
     b64_chars ! unat (drop_bit 2 b0) # b64_chars ! unat (push_bit 4 (b0 AND 3) OR drop_bit 4 b1)
     # b64_chars ! unat (push_bit 2 (b1 AND 0xf) OR drop_bit 6 b2) # b64_chars ! unat (b2 AND 0x3f)
     # b64_digits bs"
  by (simp_all only: b64_digits_def base64_encode.simps takeWhile.simps append.simps sextet_bounds
      b64_char_plain if_True if_False simp_thms)

lemma b64_loop_digits:
  "length acc + length bs \<le> mx \<Longrightarrow> b64_loop mx acc (b64_digits bs) = Some (acc @ bs)"
proof (induction bs arbitrary: acc rule: base64_encode.induct)
  case 1
  then show ?case by (simp only: b64_digits_simps b64_loop.simps [of mx acc "[]"]) simp
next
  case (2 b0)
  then show ?case
    by (simp only: b64_digits_simps) (simp only: b64_loop_2 b64_char_val_nth sextet_bounds sextets_join length_Cons list.size)
next
  case (3 b0 b1)
  then show ?case
    by (simp only: b64_digits_simps) (simp only: b64_loop_3 b64_char_val_nth sextet_bounds sextets_join length_Cons list.size)
next
  case (4 b0 b1 b2 bs)
  then show ?case
    by (simp only: b64_digits_simps)
       (simp only: b64_loop_Cons4 b64_char_val_nth sextet_bounds sextets_join length_Cons list.size,
         simp)
qed

lemma b64_digits_plain: "c \<in> set (b64_digits bs) \<Longrightarrow> c \<noteq> CHR ''='' \<and> c \<noteq> NL"
proof (induction bs rule: base64_encode.induct)
  case 1
  then show ?case by (simp only: b64_digits_simps) simp
qed (simp only: b64_digits_simps set_simps insert_iff empty_iff simp_thms; metis b64_char_plain sextet_bounds)+

lemma base64_encode_digits:
  "\<exists>pad. base64_encode bs = b64_digits bs @ pad \<and> (\<forall>c \<in> set pad. c = CHR ''='')"
proof (induction bs rule: base64_encode.induct)
  case 1
  then show ?case by (simp add: b64_digits_def)
next
  case (4 b0 b1 b2 bs)
  then show ?case by (simp only: b64_digits_simps base64_encode.simps append.simps) simp
qed (simp only: b64_digits_simps base64_encode.simps; fastforce)+

lemma b64_strip_append:
  "\<forall>c \<in> set h. c \<noteq> CHR ''='' \<and> c \<noteq> NL \<Longrightarrow> \<forall>c \<in> set w. c = CHR ''='' \<or> c = NL \<Longrightarrow>
   b64_strip (h @ w) = h"
proof -
  assume h: "\<forall>c \<in> set h. c \<noteq> CHR ''='' \<and> c \<noteq> NL" and w: "\<forall>c \<in> set w. c = CHR ''='' \<or> c = NL"
  let ?P = "\<lambda>c. c = CHR ''='' \<or> c = NL"
  have "dropWhile ?P (rev w @ rev h) = dropWhile ?P (rev h)"
    using w by (intro dropWhile_append2) simp
  moreover have "dropWhile ?P (rev h) = rev h"
    using h by (cases h rule: rev_cases) auto
  ultimately show ?thesis by (simp add: b64_strip_def)
qed

lemma b64_decode_encode:
  assumes "length bs \<le> mx" "\<forall>c \<in> set w. c = CHR ''='' \<or> c = NL"
  shows "b64_decode (base64_encode bs @ w) mx = Some bs"
proof -
  obtain pad where "base64_encode bs = b64_digits bs @ pad" "\<forall>c \<in> set pad. c = CHR ''=''"
    using base64_encode_digits by blast
  then have "b64_strip (base64_encode bs @ w) = b64_digits bs"
    using b64_strip_append [of "b64_digits bs" "pad @ w"] b64_digits_plain assms(2) by auto
  then show ?thesis using assms(1) b64_loop_digits [of "[]"] by (simp add: b64_decode_def)
qed

text \<open>The decoder writes no more than the capacity it was given.\<close>

lemma b64_loop_bound: "b64_loop mx acc s = Some bs \<Longrightarrow> length acc \<le> mx \<Longrightarrow> length bs \<le> mx"
proof (induction mx acc s rule: b64_loop.induct)
  case (1 mx acc s)
  show ?case
  proof (cases "s = []")
    case True
    then show ?thesis using 1 by (simp add: b64_loop.simps)
  next
    case False
    then have "length acc < mx"
      using 1 by (subst (asm) (2) b64_loop.simps) (auto simp: Let_def split: if_splits)
    then show ?thesis
      using 1 False by (subst (asm) (2) b64_loop.simps) (auto simp: Let_def split: if_splits)
  qed
qed

lemma b64_decode_bound: "b64_decode s mx = Some bs \<Longrightarrow> length bs \<le> mx"
  unfolding b64_decode_def by (erule b64_loop_bound) simp

interpretation b64line: codec base64_encode "\<lambda>s. b64_decode s 256" "\<lambda>bs. length bs \<le> 256"
  by unfold_locales (use b64_decode_encode [where w = "[]"] in simp)

section \<open>Properties\<close>

text \<open>C38: The coordinator's decoder recovers the bytes the Rust core encoded, padding and line end
  included, and never writes past the capacity it was given, on any input.\<close>

theorem base64_roundtrip:
  "(length bs \<le> mx \<longrightarrow> b64_decode (base64_encode bs @ [NL]) mx = Some bs)
   \<and> (\<forall>out. b64_decode s mx = Some out \<longrightarrow> length out \<le> mx)"
  using b64_decode_encode [of bs mx "[NL]"] b64_decode_bound by auto

theorem base64_roundtrip_witness: "b64_decode (base64_encode [102, 114, 111, 115] @ [NL]) 256 = Some [102, 114, 111, 115]"
  using base64_roundtrip [of "[102, 114, 111, 115]" 256] by simp

end
