(* ===== verification/Checkpoint.thy ===== *)
theory Checkpoint
  imports Libc
begin

text \<open>
  The timing instrumentation (\<^verbatim>\<open>checkpoint.c\<close>): per-id start slots, the lazily opened log
  and the label of its lines. Time is the clock in nanoseconds; what is written is kept as
  a list of entries with their destination. Every public operation runs under one mutex,
  so a run of a process is a sequence of the operations below.
\<close>

datatype log_dest = LogNull | LogStderr | LogFile string

datatype cp_entry =
    CpRestarted string       \<comment> \<open>check-in of an id that is already running\<close>
  | CpUnmatched string       \<comment> \<open>check-out of an id that is not running\<close>
  | CpElapsed string int     \<comment> \<open>the measured time\<close>
  | CpOutOfRange int

record cpstate =
  g_log :: log_dest
  g_start :: "int list"
  g_in_use :: "bool list"
  g_initialized :: bool
  g_label :: string
  atexit_handlers :: nat
  written :: "(log_dest \<times> string \<times> cp_entry) list"

text \<open>The process environment: which paths can be opened, \<^verbatim>\<open>CHECKPOINT_LABEL\<close>, the pid.\<close>

record cpenv =
  can_open :: "string \<Rightarrow> bool"
  env_label :: "string option"
  pid :: nat

definition CHECKPOINT_MAX_IDS :: nat where "CHECKPOINT_MAX_IDS = 256"

definition cp_boot :: cpstate where
  "cp_boot = \<lparr>g_log = LogNull, g_start = replicate CHECKPOINT_MAX_IDS 0,
     g_in_use = replicate CHECKPOINT_MAX_IDS False, g_initialized = False, g_label = [],
     atexit_handlers = 0, written = []\<rparr>"

section \<open>Operations\<close>

definition trunc64 :: "string \<Rightarrow> string" where
  "trunc64 s = take 63 s"

definition checkpoint_ensure_label_locked :: "cpenv \<Rightarrow> cpstate \<Rightarrow> cpstate" where
  "checkpoint_ensure_label_locked e s =
     (if g_label s \<noteq> [] then s
      else (case env_label e of
              Some l \<Rightarrow> if l \<noteq> [] then s\<lparr>g_label := trunc64 l\<rparr>
                        else s\<lparr>g_label := trunc64 (''pid'' @ fmt_u (pid e))\<rparr>
            | None \<Rightarrow> s\<lparr>g_label := trunc64 (''pid'' @ fmt_u (pid e))\<rparr>))"

definition checkpoint_close_locked :: "cpstate \<Rightarrow> cpstate" where
  "checkpoint_close_locked s = s\<lparr>g_log := LogNull\<rparr>"

definition checkpoint_atexit :: "cpstate \<Rightarrow> cpstate" where
  "checkpoint_atexit s = checkpoint_close_locked s"

definition open_log :: "cpenv \<Rightarrow> string \<Rightarrow> log_dest" where
  "open_log e path = (if can_open e path then LogFile path else LogStderr)"

definition clear_in_use :: "cpstate \<Rightarrow> cpstate" where
  "clear_in_use s = s\<lparr>g_in_use := replicate CHECKPOINT_MAX_IDS False\<rparr>"

definition checkpoint_ensure_init_locked :: "cpenv \<Rightarrow> cpstate \<Rightarrow> cpstate" where
  "checkpoint_ensure_init_locked e s =
     (if g_initialized s then s
      else (let s1 = clear_in_use (s\<lparr>g_log := open_log e ''checkpoint.log''\<rparr>);
                s2 = checkpoint_ensure_label_locked e s1
            in s2\<lparr>g_initialized := True, atexit_handlers := Suc (atexit_handlers s2)\<rparr>))"

definition checkpoint_set_label :: "string option \<Rightarrow> cpstate \<Rightarrow> cpstate" where
  "checkpoint_set_label label s =
     (case label of None \<Rightarrow> s | Some l \<Rightarrow> if l \<noteq> [] then s\<lparr>g_label := trunc64 l\<rparr> else s)"

definition checkpoint_init :: "cpenv \<Rightarrow> string option \<Rightarrow> cpstate \<Rightarrow> cpstate" where
  "checkpoint_init e log_path s =
     (let s1 = checkpoint_close_locked s;
          s2 = s1\<lparr>g_log := (case log_path of None \<Rightarrow> LogStderr | Some p \<Rightarrow> open_log e p)\<rparr>;
          s3 = checkpoint_ensure_label_locked e (clear_in_use s2);
          s4 = (if g_initialized s3 then s3 else s3\<lparr>atexit_handlers := Suc (atexit_handlers s3)\<rparr>)
      in s4\<lparr>g_initialized := True\<rparr>)"

definition checkpoint_shutdown :: "cpstate \<Rightarrow> cpstate" where
  "checkpoint_shutdown s = (checkpoint_close_locked s)\<lparr>g_initialized := False\<rparr>"

definition log_entry :: "cp_entry \<Rightarrow> cpstate \<Rightarrow> cpstate" where
  "log_entry x s = s\<lparr>written := written s @ [(g_log s, g_label s, x)]\<rparr>"

definition log_stderr :: "cp_entry \<Rightarrow> cpstate \<Rightarrow> cpstate" where
  "log_stderr x s = s\<lparr>written := written s @ [(LogStderr, [], x)]\<rparr>"

definition cp_range :: "int \<Rightarrow> bool" where
  "cp_range i \<longleftrightarrow> 0 \<le> i \<and> i < int CHECKPOINT_MAX_IDS"

definition checkpoint_in_impl :: "cpenv \<Rightarrow> int \<Rightarrow> int \<Rightarrow> string \<Rightarrow> cpstate \<Rightarrow> cpstate" where
  "checkpoint_in_impl e t i name s =
     (let s1 = checkpoint_ensure_init_locked e s in
      if \<not> cp_range i then log_stderr (CpOutOfRange i) s1
      else (let s2 = (if g_in_use s1 ! nat i then log_entry (CpRestarted name) s1 else s1)
            in s2\<lparr>g_start := (g_start s2)[nat i := t], g_in_use := (g_in_use s2)[nat i := True]\<rparr>))"

definition checkpoint_out_impl :: "cpenv \<Rightarrow> int \<Rightarrow> int \<Rightarrow> string \<Rightarrow> cpstate \<Rightarrow> cpstate" where
  "checkpoint_out_impl e t i name s =
     (let s1 = checkpoint_ensure_init_locked e s in
      if \<not> cp_range i then log_stderr (CpOutOfRange i) s1
      else if \<not> g_in_use s1 ! nat i then log_entry (CpUnmatched name) s1
      else (let dt = t - g_start s1 ! nat i
            in log_entry (CpElapsed name dt) (s1\<lparr>g_in_use := (g_in_use s1)[nat i := False]\<rparr>)))"

section \<open>Runs\<close>

datatype cp_op =
    CpIn int int string | CpOut int int string
  | CpInit "string option" | CpShutdown | CpSetLabel "string option"

fun cp_exec :: "cpenv \<Rightarrow> cp_op \<Rightarrow> cpstate \<Rightarrow> cpstate" where
  "cp_exec e (CpIn t i name) s = checkpoint_in_impl e t i name s"
| "cp_exec e (CpOut t i name) s = checkpoint_out_impl e t i name s"
| "cp_exec e (CpInit p) s = checkpoint_init e p s"
| "cp_exec e CpShutdown s = checkpoint_shutdown s"
| "cp_exec e (CpSetLabel l) s = checkpoint_set_label l s"

definition cp_run :: "cpenv \<Rightarrow> cp_op list \<Rightarrow> cpstate \<Rightarrow> cpstate" where
  "cp_run e ops s = fold (cp_exec e) ops s"

inductive cp_step :: "cpenv \<Rightarrow> cpstate \<Rightarrow> cpstate \<Rightarrow> bool" for e where
  cp_stepI: "cp_step e s (cp_exec e op s)"

inductive_cases cp_stepE: "cp_step e s t"

section \<open>Invariant\<close>

text \<open>
  The slot arrays keep their size; an initialised module has an open log and a label; an
  entry never goes to a NULL stream.
\<close>

definition cp_inv :: "cpstate \<Rightarrow> bool" where
  "cp_inv s \<longleftrightarrow> length (g_start s) = CHECKPOINT_MAX_IDS \<and> length (g_in_use s) = CHECKPOINT_MAX_IDS \<and>
     (g_initialized s \<longrightarrow> g_log s \<noteq> LogNull \<and> g_label s \<noteq> []) \<and>
     (\<forall>x \<in> set (written s). fst x \<noteq> LogNull)"

lemmas cp_defs = checkpoint_ensure_label_locked_def checkpoint_close_locked_def open_log_def clear_in_use_def
  checkpoint_ensure_init_locked_def checkpoint_set_label_def checkpoint_init_def checkpoint_shutdown_def
  log_entry_def log_stderr_def trunc64_def

lemma take_63_Nil: "take 63 l = [] \<longleftrightarrow> l = []"
  by simp

lemma ensure_init_inv: "cp_inv s \<Longrightarrow> cp_inv (checkpoint_ensure_init_locked e s)"
  by (auto simp: cp_inv_def cp_defs Let_def split: option.splits)

lemma ensure_init_initialized: "g_initialized (checkpoint_ensure_init_locked e s)"
  by (auto simp: cp_defs Let_def split: option.splits)

lemma log_entry_inv: "cp_inv s \<Longrightarrow> g_initialized s \<Longrightarrow> cp_inv (log_entry x s)"
  by (auto simp: cp_inv_def log_entry_def)

lemma log_stderr_inv: "cp_inv s \<Longrightarrow> cp_inv (log_stderr x s)"
  by (auto simp: cp_inv_def log_stderr_def)

lemma log_entry_fields [simp]:
  "g_initialized (log_entry x s) = g_initialized s" "g_in_use (log_entry x s) = g_in_use s"
  "g_start (log_entry x s) = g_start s" "g_log (log_entry x s) = g_log s" "g_label (log_entry x s) = g_label s"
  by (simp_all add: log_entry_def)

lemma slots_inv:
  "cp_inv s \<Longrightarrow> length a = length (g_start s) \<Longrightarrow> cp_inv (s\<lparr>g_start := a\<rparr>)"
  "cp_inv s \<Longrightarrow> length b = length (g_in_use s) \<Longrightarrow> cp_inv (s\<lparr>g_in_use := b\<rparr>)"
  by (simp_all add: cp_inv_def)

lemma in_impl_inv: "cp_inv s \<Longrightarrow> cp_inv (checkpoint_in_impl e t i name s)"
  unfolding checkpoint_in_impl_def Let_def
  by (auto intro!: slots_inv log_stderr_inv log_entry_inv ensure_init_inv simp: ensure_init_initialized)

lemma out_impl_inv: "cp_inv s \<Longrightarrow> cp_inv (checkpoint_out_impl e t i name s)"
  unfolding checkpoint_out_impl_def Let_def
  by (auto intro!: slots_inv log_stderr_inv log_entry_inv ensure_init_inv simp: ensure_init_initialized)

lemma cp_exec_inv: "cp_inv s \<Longrightarrow> cp_inv (cp_exec e op s)"
proof (cases op)
  case (CpInit p)
  then show "cp_inv s \<Longrightarrow> ?thesis"
    by (auto simp: cp_inv_def cp_defs Let_def split: option.splits)
next
  case (CpSetLabel l)
  then show "cp_inv s \<Longrightarrow> ?thesis"
    by (auto simp: cp_inv_def cp_defs split: option.splits)
next
  case CpShutdown
  then show "cp_inv s \<Longrightarrow> ?thesis" by (auto simp: cp_inv_def cp_defs)
qed (simp_all add: in_impl_inv out_impl_inv)

lemma cp_boot_inv: "cp_inv cp_boot"
  by (simp add: cp_inv_def cp_boot_def)

interpretation cpsys: invariant_system "\<lambda>s. s = cp_boot" "cp_step e" cp_inv for e
  by unfold_locales (auto simp: cp_boot_inv elim!: cp_stepE intro: cp_exec_inv)

section \<open>A matched pair measures its own interval\<close>

text \<open>Operations that leave a running slot alone: check-ins and check-outs of other ids, and labels.\<close>

fun other_op :: "int \<Rightarrow> cp_op \<Rightarrow> bool" where
  "other_op i (CpIn t j name) \<longleftrightarrow> j \<noteq> i"
| "other_op i (CpOut t j name) \<longleftrightarrow> j \<noteq> i"
| "other_op i (CpSetLabel l) \<longleftrightarrow> True"
| "other_op i _ \<longleftrightarrow> False"

definition running :: "int \<Rightarrow> int \<Rightarrow> log_dest \<Rightarrow> cpstate \<Rightarrow> bool" where
  "running i t d s \<longleftrightarrow> g_initialized s \<and> g_log s = d \<and> g_in_use s ! nat i \<and> g_start s ! nat i = t"

lemma cp_range_neq: "cp_range i \<Longrightarrow> cp_range j \<Longrightarrow> j \<noteq> i \<Longrightarrow> nat j \<noteq> nat i"
  by (auto simp: cp_range_def)

lemma other_op_running:
  assumes "running i t d s" "cp_range i" "other_op i op"
  shows "running i t d (cp_exec e op s)"
proof -
  have init: "checkpoint_ensure_init_locked e s = s"
    using assms(1) by (simp add: running_def checkpoint_ensure_init_locked_def)
  show ?thesis
    using assms init
    by (cases op)
       (auto simp: running_def checkpoint_in_impl_def checkpoint_out_impl_def Let_def log_stderr_def
         checkpoint_set_label_def dest: cp_range_neq split: option.splits)
qed

lemma other_ops_running:
  "running i t d s \<Longrightarrow> cp_range i \<Longrightarrow> list_all (other_op i) ops \<Longrightarrow> running i t d (cp_run e ops s)"
  by (induction ops arbitrary: s) (auto simp: cp_run_def intro: other_op_running)

lemma in_impl_running:
  assumes "cp_inv s" "cp_range i" "s' = checkpoint_in_impl e t i name s"
  shows "running i t (g_log s') s'"
proof -
  let ?s1 = "checkpoint_ensure_init_locked e s"
  have "length (g_in_use ?s1) = CHECKPOINT_MAX_IDS" "length (g_start ?s1) = CHECKPOINT_MAX_IDS"
    using ensure_init_inv [OF assms(1), of e] by (auto simp: cp_inv_def)
  then show ?thesis
    using assms(2,3) ensure_init_initialized [of e s]
    by (auto simp: running_def checkpoint_in_impl_def Let_def cp_range_def)
qed

lemma out_impl_elapsed:
  "running i t0 d s \<Longrightarrow> cp_range i \<Longrightarrow>
   written (checkpoint_out_impl e t i name s) = written s @ [(d, g_label s, CpElapsed name (t - t0))]"
  by (auto simp: running_def checkpoint_out_impl_def checkpoint_ensure_init_locked_def Let_def log_entry_def)

section \<open>Properties\<close>



end
