(* ===== verification/Wire.thy ===== *)
theory Wire
  imports Libc
begin

text \<open>
  Framing (\<^verbatim>\<open>frost_common.h\<close>): the sizing constants, the message tags, the frame
  encoder and header decoder, the outbound queue nodes, and the receive buffer that both
  programs refill with \<^verbatim>\<open>gnutls_record_recv\<close> until one whole frame is present.
  A frame is \<open>[type][payload_len hi, lo][sig_len hi, lo][signature][payload]\<close>.
\<close>

section \<open>Constants and tags\<close>

definition TLS_RSA_KEY_BIT_LEN :: nat where "TLS_RSA_KEY_BIT_LEN = 2048"
definition FROST_MAX_PAYLOAD :: nat where "FROST_MAX_PAYLOAD = 24000"
definition FROST_FRAME_HDR :: nat where "FROST_FRAME_HDR = 5"
definition FROST_FRAME_SIG_SIZE :: nat where "FROST_FRAME_SIG_SIZE = TLS_RSA_KEY_BIT_LEN div 8"
definition FROST_FRAME_MAX :: nat where
  "FROST_FRAME_MAX = FROST_FRAME_HDR + FROST_FRAME_SIG_SIZE + FROST_MAX_PAYLOAD"
definition FROST_MAX_SIGNERS :: nat where "FROST_MAX_SIGNERS = 64"
definition ROAST_MAX_SESSIONS :: nat where "ROAST_MAX_SESSIONS = 64"
definition ROAST_SESSION_TIMEOUT_SEC :: int where "ROAST_SESSION_TIMEOUT_SEC = 10"

lemmas frost_consts =
  TLS_RSA_KEY_BIT_LEN_def FROST_MAX_PAYLOAD_def FROST_FRAME_HDR_def FROST_FRAME_SIG_SIZE_def
  FROST_FRAME_MAX_def FROST_MAX_SIGNERS_def ROAST_MAX_SESSIONS_def ROAST_SESSION_TIMEOUT_SEC_def

lemma frame_sig_size_256: "FROST_FRAME_SIG_SIZE = 256"
  by (simp add: frost_consts)

lemma frame_hdr_5: "FROST_FRAME_HDR = 5"
  by (simp add: frost_consts)

text \<open>
  The tags; \<open>FROST_MSG_OTHER\<close> is a byte that names no tag, which the C enumeration can
  hold because it is filled by a cast.
\<close>

datatype frost_msg_t =
    FROST_MSG_HELLO | FROST_MSG_ROUND1_PKG | FROST_MSG_ROUND2_PKG | FROST_MSG_COMMIT
  | FROST_MSG_SIG_SHARE | FROST_MSG_R2_COMPLETE | FROST_MSG_PUB_KEY_PKG
  | FROST_MSG_SHARE_LOAD_FAIL
  | FROST_MSG_HELLO_ACK | FROST_MSG_START_DKG | FROST_MSG_RELAY_R1 | FROST_MSG_RELAY_R2
  | FROST_MSG_SIGN_REQ | FROST_MSG_RELAY_COMMIT | FROST_MSG_FINAL_SIG | FROST_MSG_DKG_DONE
  | FROST_MSG_CERT_OUTPUT
  | FROST_MSG_START_REFRESH | FROST_MSG_RELAY_REFRESH_R1 | FROST_MSG_RELAY_REFRESH_R2
  | FROST_MSG_REFRESH_FINALIZE | FROST_MSG_REFRESH_CONFIRMED
  | FROST_MSG_REFRESH_R1 | FROST_MSG_REFRESH_R2 | FROST_MSG_REFRESH_R2_COMPLETE
  | FROST_MSG_REFRESH_COMPLETE
  | FROST_MSG_ERROR
  | FROST_MSG_OTHER u8

definition msg_table :: "(u8 \<times> frost_msg_t) list" where
  "msg_table =
    [(0x01, FROST_MSG_HELLO), (0x02, FROST_MSG_ROUND1_PKG), (0x03, FROST_MSG_ROUND2_PKG),
     (0x04, FROST_MSG_COMMIT), (0x05, FROST_MSG_SIG_SHARE), (0x06, FROST_MSG_R2_COMPLETE),
     (0x07, FROST_MSG_PUB_KEY_PKG), (0x08, FROST_MSG_SHARE_LOAD_FAIL),
     (0x10, FROST_MSG_HELLO_ACK), (0x11, FROST_MSG_START_DKG), (0x12, FROST_MSG_RELAY_R1),
     (0x13, FROST_MSG_RELAY_R2), (0x14, FROST_MSG_SIGN_REQ), (0x15, FROST_MSG_RELAY_COMMIT),
     (0x16, FROST_MSG_FINAL_SIG), (0x17, FROST_MSG_DKG_DONE), (0x18, FROST_MSG_CERT_OUTPUT),
     (0x30, FROST_MSG_START_REFRESH), (0x31, FROST_MSG_RELAY_REFRESH_R1),
     (0x32, FROST_MSG_RELAY_REFRESH_R2), (0x33, FROST_MSG_REFRESH_FINALIZE),
     (0x34, FROST_MSG_REFRESH_CONFIRMED),
     (0x38, FROST_MSG_REFRESH_R1), (0x39, FROST_MSG_REFRESH_R2),
     (0x3A, FROST_MSG_REFRESH_R2_COMPLETE), (0x3B, FROST_MSG_REFRESH_COMPLETE),
     (0xFF, FROST_MSG_ERROR)]"

fun msg_code :: "frost_msg_t \<Rightarrow> u8" where
  "msg_code (FROST_MSG_OTHER b) = b"
| "msg_code m = (case find (\<lambda>(c, m'). m' = m) msg_table of Some (c, _) \<Rightarrow> c | None \<Rightarrow> 0)"

definition msg_of_code :: "u8 \<Rightarrow> frost_msg_t" where
  "msg_of_code b = (case map_of msg_table b of Some m \<Rightarrow> m | None \<Rightarrow> FROST_MSG_OTHER b)"

text \<open>A message value the enumeration can hold: a tag, or a byte outside the table.\<close>

fun msg_ok :: "frost_msg_t \<Rightarrow> bool" where
  "msg_ok (FROST_MSG_OTHER b) = (map_of msg_table b = None)"
| "msg_ok _ = True"

lemma msg_of_code_msg_code: "msg_ok m \<Longrightarrow> msg_of_code (msg_code m) = m"
  by (cases m) (simp_all add: msg_of_code_def msg_table_def)

lemma msg_ok_msg_of_code: "msg_ok (msg_of_code b)"
  by (simp add: msg_of_code_def msg_table_def)

interpretation tag: codec msg_code "\<lambda>b. Some (msg_of_code b)" msg_ok
  by unfold_locales (simp add: msg_of_code_msg_code)

abbreviation FROST_PUB_PKG_HEX :: string where
  "FROST_PUB_PKG_HEX \<equiv> ''pub_key_pkg.hex''"

text \<open>The coordinator's mode and the phase of a key generation, used by both programs.\<close>

datatype coord_mode_t = COORD_MODE_DKG | COORD_MODE_SIGN | COORD_MODE_REFRESH

datatype dkg_state_t =
  DKG_IDLE | DKG_COLLECTING_R1 | DKG_COLLECTING_R2 | DKG_COMPLETE | DKG_SIGNING | DKG_SIGN_SENT

section \<open>Encoding and decoding a frame\<close>

text \<open>
  \<^verbatim>\<open>frost_encode_frame\<close> with a signature buffer of at least \<open>slen\<close> and a payload buffer of
  at least \<open>plen\<close> bytes (a NULL pointer is the empty buffer with length 0, as every caller
  passes it): \<open>None\<close> is the return value \<open>-1\<close>, after which nothing has been written.
\<close>

definition frost_encode_frame ::
  "frost_msg_t \<Rightarrow> bytes \<Rightarrow> u16 \<Rightarrow> bytes \<Rightarrow> u16 \<Rightarrow> bytes option" where
  "frost_encode_frame ty sig slen payload plen =
     (if unat plen > FROST_MAX_PAYLOAD then None
      else Some ([msg_code ty, hi8 plen, lo8 plen, hi8 slen, lo8 slen]
                 @ take (unat slen) sig @ take (unat plen) payload))"

text \<open>
  \<^verbatim>\<open>frost_decode_header\<close>: the tag, the signature length and the payload length. The
  signature bytes start at offset 5.
\<close>

definition frost_decode_header :: "bytes \<Rightarrow> frost_msg_t \<times> u16 \<times> u16" where
  "frost_decode_header buf =
     (msg_of_code (buf ! 0), be16 (buf ! 3) (buf ! 4), be16 (buf ! 1) (buf ! 2))"

lemma frost_encode_frame_length:
  "frost_encode_frame ty sig slen payload plen = Some fr \<Longrightarrow>
   unat slen \<le> length sig \<Longrightarrow> unat plen \<le> length payload \<Longrightarrow>
   length fr = FROST_FRAME_HDR + unat slen + unat plen"
  by (auto simp: frost_encode_frame_def frame_hdr_5 split: if_splits)

lemma frost_decode_header_encode:
  assumes "msg_ok ty" "frost_encode_frame ty sig slen payload plen = Some fr"
  shows "frost_decode_header (fr @ rest) = (ty, slen, plen)"
  using assms
  by (auto simp: frost_encode_frame_def frost_decode_header_def msg_of_code_msg_code split: if_splits)

section \<open>The outbound queue\<close>

text \<open>
  A queue node: \<open>om_data\<close> is \<open>None\<close> for a node whose heap buffer was not written to its end,
  because the encoder refused the payload and the caller queued the node all the same.
\<close>

record outmsg =
  om_len :: nat
  om_sent :: nat
  om_data :: "bytes option"

definition mk_outmsg :: "frost_msg_t \<Rightarrow> bytes \<Rightarrow> u16 \<Rightarrow> bytes \<Rightarrow> u16 \<Rightarrow> outmsg" where
  "mk_outmsg ty sig slen payload plen =
     \<lparr>om_len = FROST_FRAME_HDR + unat slen + unat plen, om_sent = 0,
      om_data = frost_encode_frame ty sig slen payload plen\<rparr>"

text \<open>
  One \<^verbatim>\<open>gnutls_record_send\<close> on the head of the queue: \<open>SendAgain\<close> for
  \<^verbatim>\<open>GNUTLS_E_AGAIN\<close> or \<^verbatim>\<open>GNUTLS_E_INTERRUPTED\<close> with the direction the session then
  reports, \<open>SendErr\<close> for any other error, \<open>Sent r\<close> for \<open>r\<close> bytes taken.
\<close>

datatype send_result = SendAgain bool | SendErr | Sent nat

text \<open>Advance the head node; a node that is fully sent leaves the queue.\<close>

fun advance_queue :: "nat \<Rightarrow> outmsg list \<Rightarrow> outmsg list" where
  "advance_queue r [] = []"
| "advance_queue r (m # ms) =
     (if om_sent m + r \<ge> om_len m then ms else m\<lparr>om_sent := om_sent m + r\<rparr> # ms)"

text \<open>The bytes a queue still has to put on the connection, in order.\<close>

definition node_pending :: "outmsg \<Rightarrow> bytes" where
  "node_pending m = (case om_data m of None \<Rightarrow> [] | Some d \<Rightarrow> drop (om_sent m) d)"

definition queue_pending :: "outmsg list \<Rightarrow> bytes" where
  "queue_pending q = concat (map node_pending q)"

definition node_ok :: "outmsg \<Rightarrow> bool" where
  "node_ok m \<longleftrightarrow> (\<exists>d. om_data m = Some d \<and> length d = om_len m) \<and> om_sent m \<le> om_len m"

lemma mk_outmsg_ok:
  "unat plen \<le> FROST_MAX_PAYLOAD \<Longrightarrow> unat slen \<le> length sig \<Longrightarrow> unat plen \<le> length payload \<Longrightarrow>
   node_ok (mk_outmsg ty sig slen payload plen)"
  by (auto simp: node_ok_def mk_outmsg_def frost_encode_frame_def frame_hdr_5)

lemma advance_queue_sends_prefix:
  assumes "node_ok m" "r \<le> om_len m - om_sent m"
  shows "queue_pending (m # ms) = take r (node_pending m) @ queue_pending (advance_queue r (m # ms))"
proof -
  obtain d where d: "om_data m = Some d" "length d = om_len m" "om_sent m \<le> om_len m"
    using assms(1) by (auto simp: node_ok_def)
  have split: "drop (om_sent m) d = take r (drop (om_sent m) d) @ drop (om_sent m + r) d"
    by (metis append_take_drop_id drop_drop add.commute)
  show ?thesis
    using d assms(2) split by (auto simp: queue_pending_def node_pending_def)
qed

text \<open>A run of sends; each takes at most what its node still holds.\<close>

fun drain_sends :: "nat list \<Rightarrow> outmsg list \<Rightarrow> bytes \<times> outmsg list" where
  "drain_sends [] q = ([], q)"
| "drain_sends (r # rs) [] = ([], [])"
| "drain_sends (r # rs) (m # ms) =
     (let k = min r (om_len m - om_sent m) in
      case drain_sends rs (advance_queue k (m # ms)) of (out, q) \<Rightarrow> (take k (node_pending m) @ out, q))"

lemma advance_queue_ok:
  "list_all node_ok q \<Longrightarrow> q \<noteq> [] \<Longrightarrow> r \<le> om_len (hd q) - om_sent (hd q) \<Longrightarrow>
   list_all node_ok (advance_queue r q)"
  by (cases q) (auto simp: node_ok_def [of "_\<lparr>om_sent := _\<rparr>"], auto simp: node_ok_def)

lemma drain_sends_pending:
  "list_all node_ok q \<Longrightarrow>
   queue_pending q = fst (drain_sends rs q) @ queue_pending (snd (drain_sends rs q))"
proof (induction rs q rule: drain_sends.induct)
  case (3 r rs m ms)
  let ?k = "min r (om_len m - om_sent m)"
  have "list_all node_ok (advance_queue ?k (m # ms))"
    using 3(2) by (intro advance_queue_ok) auto
  with 3 advance_queue_sends_prefix [of m ?k ms] show ?case
    by (simp add: Let_def split: prod.splits del: advance_queue.simps)
qed simp_all

lemma drain_sends_empties:
  "list_all node_ok q \<Longrightarrow> list_all (\<lambda>m. om_sent m < om_len m) q \<Longrightarrow> list_all (\<lambda>r. 1 \<le> r) rs \<Longrightarrow>
   length (queue_pending q) \<le> length rs \<Longrightarrow> snd (drain_sends rs q) = []"
proof (induction rs q rule: drain_sends.induct)
  case (1 q)
  then show ?case by (cases q) (auto simp: queue_pending_def node_pending_def node_ok_def)
next
  case (3 r rs m ms)
  let ?k = "min r (om_len m - om_sent m)" and ?q = "advance_queue (min r (om_len m - om_sent m)) (m # ms)"
  have k: "1 \<le> ?k" using 3(3,4) by auto
  have ok: "list_all node_ok ?q" using 3(2) by (intro advance_queue_ok) auto
  have live: "list_all (\<lambda>m. om_sent m < om_len m) ?q" using 3(3) by (auto simp: min_def)
  have "length (take ?k (node_pending m)) \<ge> 1"
    using 3(2,3) k by (auto simp: node_pending_def node_ok_def)
  moreover have "queue_pending (m # ms) = take ?k (node_pending m) @ queue_pending ?q"
    using 3(2) by (intro advance_queue_sends_prefix) auto
  then have "length (queue_pending (m # ms)) = length (take ?k (node_pending m)) + length (queue_pending ?q)"
    by (simp only: length_append)
  ultimately have "length (queue_pending ?q) \<le> length rs"
    using 3(5) unfolding list.size(4) by linarith
  then show ?case
    using 3(1) [OF refl ok live] 3(4)
    by (cases "drain_sends rs ?q") (simp add: Let_def del: advance_queue.simps)
qed simp

section \<open>The receive buffer\<close>

text \<open>
  The static \<^verbatim>\<open>inbuf[FROST_FRAME_MAX]\<close> with the write offset \<^verbatim>\<open>inptr - inbuf\<close>. A
  receive appends at most the room that is left.
\<close>

record rxbuf =
  rx_buf :: bytes
  rx_off :: nat

definition rx_init :: "bytes \<Rightarrow> rxbuf" where
  "rx_init garbage = \<lparr>rx_buf = garbage, rx_off = 0\<rparr>"

definition rx_ok :: "rxbuf \<Rightarrow> bool" where
  "rx_ok rx \<longleftrightarrow> length (rx_buf rx) = FROST_FRAME_MAX \<and> rx_off rx \<le> FROST_FRAME_MAX"

definition rx_room :: "rxbuf \<Rightarrow> nat" where
  "rx_room rx = FROST_FRAME_MAX - rx_off rx"

definition rx_recv :: "rxbuf \<Rightarrow> bytes \<Rightarrow> rxbuf" where
  "rx_recv rx chunk =
     \<lparr>rx_buf = take (rx_off rx) (rx_buf rx) @ chunk @ drop (rx_off rx + length chunk) (rx_buf rx),
      rx_off = rx_off rx + length chunk\<rparr>"

text \<open>
  Is a whole frame present? The coordinator counts \<^verbatim>\<open>FROST_FRAME_SIG_SIZE\<close> signature bytes
  whatever the header says; a signer counts the header's \<^verbatim>\<open>sig.size\<close>.
\<close>

definition coord_frame_ready :: "rxbuf \<Rightarrow> (frost_msg_t \<times> u16 \<times> u16) option" where
  "coord_frame_ready rx =
     (if rx_off rx < FROST_FRAME_HDR then None
      else (case frost_decode_header (rx_buf rx) of (ty, slen, plen) \<Rightarrow>
              if rx_off rx < FROST_FRAME_HDR + FROST_FRAME_SIG_SIZE + unat plen then None
              else Some (ty, slen, plen)))"

definition signer_frame_ready :: "rxbuf \<Rightarrow> (frost_msg_t \<times> u16 \<times> u16) option" where
  "signer_frame_ready rx =
     (if rx_off rx < FROST_FRAME_HDR then None
      else (case frost_decode_header (rx_buf rx) of (ty, slen, plen) \<Rightarrow>
              if rx_off rx < FROST_FRAME_HDR + unat slen + unat plen then None
              else Some (ty, slen, plen)))"

text \<open>
  What the dispatcher then sees: the bytes from the signature pointer to the end of the
  buffer, and the payload at the program's own offset.
\<close>

definition frame_sig_area :: "rxbuf \<Rightarrow> bytes" where
  "frame_sig_area rx = drop FROST_FRAME_HDR (rx_buf rx)"

definition frame_payload :: "nat \<Rightarrow> u16 \<Rightarrow> rxbuf \<Rightarrow> bytes" where
  "frame_payload siglen plen rx = take (unat plen) (drop (FROST_FRAME_HDR + siglen) (rx_buf rx))"

lemma rx_recv_ok: "rx_ok rx \<Longrightarrow> length chunk \<le> rx_room rx \<Longrightarrow> rx_ok (rx_recv rx chunk)"
  by (auto simp: rx_ok_def rx_room_def rx_recv_def)

lemma rx_recv_take:
  "rx_ok rx \<Longrightarrow> length chunk \<le> rx_room rx \<Longrightarrow>
   take (rx_off (rx_recv rx chunk)) (rx_buf (rx_recv rx chunk)) = take (rx_off rx) (rx_buf rx) @ chunk"
  by (auto simp: rx_ok_def rx_room_def rx_recv_def)

text \<open>Feeding a list of chunks; the frame test runs after every chunk.\<close>

fun rx_feed :: "rxbuf \<Rightarrow> bytes list \<Rightarrow> rxbuf" where
  "rx_feed rx [] = rx"
| "rx_feed rx (c # cs) = rx_feed (rx_recv rx c) cs"

lemma rx_feed_ok:
  "rx_ok rx \<Longrightarrow> length (concat cs) \<le> rx_room rx \<Longrightarrow>
   rx_ok (rx_feed rx cs) \<and>
   take (rx_off (rx_feed rx cs)) (rx_buf (rx_feed rx cs)) = take (rx_off rx) (rx_buf rx) @ concat cs \<and>
   rx_off (rx_feed rx cs) = rx_off rx + length (concat cs)"
proof (induction cs arbitrary: rx)
  case (Cons c cs)
  have c: "length c \<le> rx_room rx" using Cons.prems by simp
  have r: "rx_room (rx_recv rx c) = rx_room rx - length c" "rx_off (rx_recv rx c) = rx_off rx + length c"
    by (simp_all add: rx_room_def rx_recv_def)
  have len: "length (concat cs) \<le> rx_room (rx_recv rx c)" using Cons.prems r by simp
  note ih = Cons.IH [OF rx_recv_ok [OF Cons.prems(1) c] len]
  show ?case
    using ih rx_recv_take [OF Cons.prems(1) c] by (auto simp: r(2))
qed simp

lemma decode_header_cong:
  "take n a = take n b \<Longrightarrow> 5 \<le> n \<Longrightarrow> 5 \<le> length a \<Longrightarrow> 5 \<le> length b \<Longrightarrow>
   frost_decode_header a = frost_decode_header b"
proof -
  assume t: "take n a = take n b" and n: "5 \<le> n"
  have "a ! i = b ! i" if "i < 5" for i
    using that n arg_cong [OF t, of "\<lambda>l. l ! i"] by simp
  then show ?thesis by (simp add: frost_decode_header_def)
qed

section \<open>Bounds and reassembly\<close>

text \<open>
  The buffer itself bounds what can be dispatched: a frame that is complete in
  \<^verbatim>\<open>inbuf\<close> has at most \<open>FROST_MAX_PAYLOAD\<close> payload bytes.
\<close>

lemma coord_frame_ready_bound:
  "rx_ok rx \<Longrightarrow> coord_frame_ready rx = Some (ty, slen, plen) \<Longrightarrow> unat plen \<le> FROST_MAX_PAYLOAD"
  by (auto simp: coord_frame_ready_def rx_ok_def FROST_FRAME_MAX_def split: if_splits prod.splits)

lemma signer_frame_ready_bound:
  "rx_ok rx \<Longrightarrow> signer_frame_ready rx = Some (ty, slen, plen) \<Longrightarrow>
   FROST_FRAME_HDR + unat slen + unat plen \<le> FROST_FRAME_MAX"
  by (auto simp: signer_frame_ready_def rx_ok_def split: if_splits prod.splits)

lemma frame_prefix_layout:
  assumes ok: "rx_ok rx" and off: "rx_off rx = 0"
    and enc: "frost_encode_frame ty sig slen payload plen = Some fr"
    and l: "unat slen \<le> length sig" "unat plen \<le> length payload"
    and room: "length fr \<le> FROST_FRAME_MAX"
    and cs: "concat cs = fr" "rx' = rx_feed rx cs"
  shows "rx_ok rx'" "rx_off rx' = length fr" "take (length fr) (rx_buf rx') = fr"
    "frame_payload (unat slen) plen rx' = take (unat plen) payload"
    "take (unat slen) (frame_sig_area rx') = take (unat slen) sig"
proof -
  have fed: "rx_ok rx'" "rx_off rx' = length fr" "take (length fr) (rx_buf rx') = fr"
    using rx_feed_ok [OF ok, of cs] room off cs by (auto simp: rx_room_def)
  show "rx_ok rx'" "rx_off rx' = length fr" "take (length fr) (rx_buf rx') = fr"
    by (fact fed)+
  let ?h = "[msg_code ty, hi8 plen, lo8 plen, hi8 slen, lo8 slen]"
  have fr: "fr = ?h @ take (unat slen) sig @ take (unat plen) payload"
    using enc by (simp add: frost_encode_frame_def split: if_splits)
  obtain tl where b: "rx_buf rx' = fr @ tl"
    using fed(3) append_take_drop_id [of "length fr" "rx_buf rx'"] by metis
  show "frame_payload (unat slen) plen rx' = take (unat plen) payload"
    using l by (simp add: frame_payload_def b fr frame_hdr_5 add.commute [of 5] flip: drop_drop)
  show "take (unat slen) (frame_sig_area rx') = take (unat slen) sig"
    using l by (simp add: frame_sig_area_def b fr frame_hdr_5)
qed

lemma decode_header_fed:
  assumes "frost_encode_frame ty sig slen payload plen = Some fr" "msg_ok ty"
    and "take n (rx_buf rx) = take n fr" "5 \<le> n" "rx_ok rx"
  shows "frost_decode_header (rx_buf rx) = (ty, slen, plen)"
proof -
  have "5 \<le> length fr"
    using assms(1) by (auto simp: frost_encode_frame_def split: if_splits)
  then have "frost_decode_header (rx_buf rx) = frost_decode_header fr"
    using assms by (intro decode_header_cong [of n]) (auto simp: rx_ok_def frost_consts)
  then show ?thesis
    using frost_decode_header_encode [OF assms(2,1), of "[]"] by simp
qed

lemma signer_frame_fed:
  assumes "msg_ok ty" "frost_encode_frame ty sig slen payload plen = Some fr"
    and "unat slen = length sig" "unat plen = length payload" "length fr \<le> FROST_FRAME_MAX"
    and "rx_ok rx" "rx_off rx = 0" "concat cs = fr" "cs = got @ todo"
  shows "signer_frame_ready (rx_feed rx got) = (if concat got = fr then Some (ty, slen, plen) else None)
    \<and> frame_payload (unat slen) plen (rx_feed rx cs) = payload
    \<and> take (unat slen) (frame_sig_area (rx_feed rx cs)) = sig"
proof -
  have split: "fr = concat got @ concat todo"
    using assms(8,9) by auto
  let ?rx = "rx_feed rx got"
  have len: "length (concat got) \<le> rx_room rx"
    using assms(5,7) unfolding split by (simp add: rx_room_def)
  have fed: "rx_ok ?rx" "rx_off ?rx = length (concat got)" "take (rx_off ?rx) (rx_buf ?rx) = take (rx_off ?rx) fr"
    using rx_feed_ok [OF assms(6) len] assms(7) split by auto
  have frlen: "length fr = FROST_FRAME_HDR + unat slen + unat plen"
    using frost_encode_frame_length [OF assms(2)] assms(3,4) by simp
  have whole: "concat got = fr \<longleftrightarrow> length fr \<le> length (concat got)"
    unfolding split by (simp del: length_concat)
  have hdr: "frost_decode_header (rx_buf ?rx) = (ty, slen, plen)" if "5 \<le> rx_off ?rx"
    using decode_header_fed [OF assms(2,1) fed(3) that fed(1)] .
  have ready: "signer_frame_ready ?rx = (if concat got = fr then Some (ty, slen, plen) else None)"
    using hdr frlen fed(2) whole by (auto simp: signer_frame_ready_def frame_hdr_5)
  note lay = frame_prefix_layout [OF assms(6,7,2) _ _ assms(5,8) refl]
  show ?thesis
    using ready lay(4,5) assms(3,4) by simp
qed

section \<open>Properties\<close>

text \<open>C21: A frame that a signer receives in any number of pieces is dispatched exactly when its last
  byte is there, with the tag, lengths, signature and payload that the sender encoded.\<close>

theorem signer_reassembles:
  assumes "msg_ok ty" "frost_encode_frame ty sig slen payload plen = Some fr"
    and "unat slen = length sig" "unat plen = length payload" "length fr \<le> FROST_FRAME_MAX"
    and "rx_ok rx" "rx_off rx = 0" "concat cs = fr" "cs = got @ todo"
  shows "signer_frame_ready (rx_feed rx got) = (if concat got = fr then Some (ty, slen, plen) else None)
    \<and> frame_payload (unat slen) plen (rx_feed rx cs) = payload
    \<and> take (unat slen) (frame_sig_area (rx_feed rx cs)) = sig"
  using assms by (rule signer_frame_fed)

theorem signer_reassembles_witness:
  "signer_frame_ready (rx_feed (rx_init (replicate 24261 0)) [[0x14, 0], [2, 0, 0, 7]]) = None
   \<and> signer_frame_ready (rx_feed (rx_init (replicate 24261 0)) [[0x14, 0], [2, 0, 0, 7], [9]])
       = Some (FROST_MSG_SIGN_REQ, 0, 2)
   \<and> frame_payload 0 2 (rx_feed (rx_init (replicate 24261 0)) [[0x14, 0], [2, 0, 0, 7], [9]]) = [7, 9]"
proof -
  let ?rx = "rx_init (replicate 24261 0)" and ?cs = "[[0x14, 0], [2, 0, 0, 7], [9]] :: bytes list"
  have enc: "frost_encode_frame FROST_MSG_SIGN_REQ [] 0 [7, 9] 2 = Some (concat ?cs)"
    by (simp add: frost_encode_frame_def frost_consts msg_table_def hi8_def lo8_def)
  have rx: "rx_ok ?rx" "rx_off ?rx = 0" by (simp_all add: rx_ok_def rx_init_def frost_consts)
  have fit: "length (concat ?cs) \<le> FROST_FRAME_MAX" by (simp add: frost_consts)
  note th = signer_reassembles [OF _ enc _ _ fit rx refl]
  from th [of "[[0x14, 0], [2, 0, 0, 7]]" "[[9]]"] th [of ?cs "[]"] show ?thesis by simp
qed



text \<open>C23: Draining an outbound queue puts its frames on the connection in order and without loss: after
  any accepted partial sends, the bytes sent so far followed by what the queue still holds are the
  bytes that were queued.\<close>

theorem drain_sends_in_order:
  assumes "list_all node_ok q"
  shows "fst (drain_sends rs q) @ queue_pending (snd (drain_sends rs q)) = queue_pending q"
  using drain_sends_pending [OF assms] by simp

theorem drain_sends_in_order_witness:
  "fst (drain_sends [3, 2] [mk_outmsg FROST_MSG_START_DKG [] 0 [] 0])
     @ queue_pending (snd (drain_sends [3, 2] [mk_outmsg FROST_MSG_START_DKG [] 0 [] 0])) = [0x11, 0, 0, 0, 0]"
proof -
  have "list_all node_ok [mk_outmsg FROST_MSG_START_DKG [] 0 [] 0]"
    by (simp add: mk_outmsg_ok frost_consts)
  then show ?thesis
    using drain_sends_in_order [of "[mk_outmsg FROST_MSG_START_DKG [] 0 [] 0]" "[3, 2]"]
    by (simp add: queue_pending_def node_pending_def mk_outmsg_def frost_encode_frame_def msg_table_def
        hi8_def lo8_def frost_consts)
qed

text \<open>C22: An outbound queue always empties: as long as every send takes at least one byte, after at
  most as many sends as there are bytes queued nothing is left, and the peer has been given
  exactly the queued frames. The programs wait for this before they exit.\<close>

theorem queue_drains:
  assumes "list_all node_ok q" "list_all (\<lambda>m. om_sent m < om_len m) q"
    and "list_all (\<lambda>r. 1 \<le> r) rs" "length (queue_pending q) \<le> length rs"
  shows "drain_sends rs q = (queue_pending q, [])"
proof -
  have "snd (drain_sends rs q) = []"
    using assms by (rule drain_sends_empties)
  then show ?thesis
    using drain_sends_pending [OF assms(1), of rs] by (cases "drain_sends rs q") (simp add: queue_pending_def)
qed

theorem queue_drains_witness:
  "drain_sends [3, 1, 9, 2, 1] [mk_outmsg FROST_MSG_START_DKG [] 0 [] 0] = ([0x11, 0, 0, 0, 0], [])"
proof -
  let ?q = "[mk_outmsg FROST_MSG_START_DKG [] 0 [] 0]"
  have q: "list_all node_ok ?q" "list_all (\<lambda>m. om_sent m < om_len m) ?q" "queue_pending ?q = [0x11, 0, 0, 0, 0]"
    by (simp add: mk_outmsg_ok frost_consts)
      (simp_all add: queue_pending_def node_pending_def mk_outmsg_def frost_encode_frame_def msg_table_def
        hi8_def lo8_def frost_consts)
  show ?thesis
    using queue_drains [OF q(1,2), of "[3, 1, 9, 2, 1]"] by (simp add: q(3) del: drain_sends.simps)
qed

end
