(* ===== verification/Hex.thy ===== *)
theory Hex
  imports Wire
begin

text \<open>
  The hex lines that carry every blob between the C programs and the Rust core
  (\<^verbatim>\<open>bytes_to_hex\<close>, \<^verbatim>\<open>print_bytes_as_hex\<close> and \<^verbatim>\<open>hex_to_bytes\<close> of
  \<^verbatim>\<open>frost_stubs.c\<close>).
\<close>

section \<open>Encoding\<close>

abbreviation hex_lower :: string where "hex_lower \<equiv> ''0123456789abcdef''"
abbreviation hex_upper :: string where "hex_upper \<equiv> ''0123456789ABCDEF''"

definition hi_nib :: "u8 \<Rightarrow> nat" where "hi_nib b = unat (drop_bit 4 b AND 0xF)"
definition lo_nib :: "u8 \<Rightarrow> nat" where "lo_nib b = unat (b AND 0xF)"

fun bytes_to_hex :: "bytes \<Rightarrow> string" where
  "bytes_to_hex [] = []"
| "bytes_to_hex (b # bs) = hex_lower ! hi_nib b # hex_lower ! lo_nib b # bytes_to_hex bs"

text \<open>
  \<^verbatim>\<open>print_bytes_as_hex\<close> formats into a stack array of \<^verbatim>\<open>FROST_MAX_PAYLOAD\<close>
  characters: two per byte and the final zero must fit.
\<close>

definition print_bytes_as_hex :: "bytes \<Rightarrow> string outcome" where
  "print_bytes_as_hex bs =
     (if 2 * length bs + 1 > FROST_MAX_PAYLOAD then Undef else Cont (bytes_to_hex bs @ [NL]))"

section \<open>Decoding\<close>

definition hex_val :: "char \<Rightarrow> nat option" where
  "hex_val c = (case index_of (\<lambda>d. d = c) hex_lower of
                  Some v \<Rightarrow> Some v | None \<Rightarrow> index_of (\<lambda>d. d = c) hex_upper)"

text \<open>
  \<^verbatim>\<open>sscanf(h, "%1x%1x", &hi, &lo) == 2\<close> on a two-character string: both must be hex
  digits. (A leading blank would be skipped, but then the second conversion has no input.)
\<close>

definition scan_1x1x :: "char \<Rightarrow> char \<Rightarrow> (nat \<times> nat) option" where
  "scan_1x1x c d = (case hex_val c of None \<Rightarrow> None
                    | Some hi \<Rightarrow> (case hex_val d of None \<Rightarrow> None | Some lo \<Rightarrow> Some (hi, lo)))"

fun hex_pairs :: "string \<Rightarrow> bytes option" where
  "hex_pairs [] = Some []"
| "hex_pairs [c] = None"
| "hex_pairs (c # d # s) =
     (case scan_1x1x c d of None \<Rightarrow> None
      | Some (hi, lo) \<Rightarrow>
          (case hex_pairs s of None \<Rightarrow> None
           | Some bs \<Rightarrow> Some ((push_bit 4 (of_nat hi) OR of_nat lo) # bs)))"

definition hex_blank :: "char \<Rightarrow> bool" where
  "hex_blank c \<longleftrightarrow> c = NL \<or> c = CR \<or> c = CHR '' ''"

definition strip_blank :: "string \<Rightarrow> string" where
  "strip_blank s = rev (dropWhile hex_blank (rev s))"

definition hex_to_bytes :: "string \<Rightarrow> nat \<Rightarrow> bytes option" where
  "hex_to_bytes hex max_out =
     (let h = strip_blank hex in
      if length h mod 2 \<noteq> 0 then None
      else if length h div 2 > max_out then None
      else hex_pairs h)"

text \<open>
  \<^verbatim>\<open>hex_to_bytes\<close> writes the pairs it could decode before it fails, and they stay in the
  caller's array: within the old length \<open>|old|\<close>, that array then holds \<open>clobber old w\<close>.
\<close>

fun hex_prefix :: "string \<Rightarrow> bytes" where
  "hex_prefix (c # d # s) =
     (case scan_1x1x c d of None \<Rightarrow> []
      | Some (hi, lo) \<Rightarrow> (push_bit 4 (of_nat hi) OR of_nat lo) # hex_prefix s)"
| "hex_prefix _ = []"

definition hex_written :: "string \<Rightarrow> nat \<Rightarrow> bytes" where
  "hex_written hex max_out =
     (let h = strip_blank hex in
      if length h mod 2 \<noteq> 0 \<or> length h div 2 > max_out then [] else hex_prefix h)"

definition clobber :: "bytes \<Rightarrow> bytes \<Rightarrow> bytes" where
  "clobber old w = take (length old) (overwrite old w)"

section \<open>Nibbles\<close>

lemma and_nib: "x AND (0xF :: u8) = take_bit 4 x"
proof -
  have "(0xF :: u8) = mask 4" by (simp add: mask_eq_exp_minus_1)
  then show ?thesis by (simp only: take_bit_eq_mask)
qed

lemma unat_u8_less: "unat (b :: u8) < 256"
  using unsigned_less [of b, where 'a = nat] by simp

lemma unat_take_bit_u8: "unat (take_bit 4 (x :: u8)) = unat x mod 16"
  by (simp add: unsigned_take_bit_eq) (simp add: take_bit_eq_mod)

lemma lo_nib_mod: "lo_nib b = unat b mod 16"
  by (simp add: lo_nib_def and_nib unat_take_bit_u8)

lemma hi_nib_div: "hi_nib b = unat b div 16"
proof -
  have "unat b div 16 < 16" using unat_u8_less [of b] by simp
  moreover have "unat (drop_bit 4 b) = unat b div 16"
    by (simp add: drop_bit_eq_div unat_div_distrib)
  ultimately show ?thesis
    by (simp add: hi_nib_def and_nib unat_take_bit_u8)
qed

lemma nib_less [simp]: "hi_nib b < 16" "lo_nib b < 16"
  using unat_u8_less [of b] by (simp_all add: hi_nib_div lo_nib_mod)

lemma or_disjoint_nib:
  assumes "hi < 16" "lo < 16"
  shows "(push_bit 4 (of_nat hi) OR of_nat lo :: u8) = of_nat (16 * hi + lo)"
proof -
  have "take_bit 4 lo = lo" using assms(2) by (simp add: take_bit_nat_eq_self)
  then have lo: "bit lo n \<Longrightarrow> n < 4" for n by (metis bit_take_bit_iff)
  have "push_bit 4 (of_nat hi) AND (of_nat lo :: u8) = 0"
    by (rule bit_word_eqI) (auto simp: bit_simps dest: lo)
  then have "push_bit 4 (of_nat hi) + of_nat lo = (push_bit 4 (of_nat hi) OR of_nat lo :: u8)"
    by (rule disjunctive_add_eq_or)
  then show ?thesis by (simp add: push_bit_eq_mult mult.commute)
qed

lemma nibbles_byte: "(push_bit 4 (of_nat (hi_nib b)) OR of_nat (lo_nib b) :: u8) = b"
proof -
  have "16 * hi_nib b + lo_nib b = unat b" by (simp add: hi_nib_div lo_nib_mod)
  then show ?thesis using or_disjoint_nib [of "hi_nib b" "lo_nib b"] by simp
qed

section \<open>Round trip\<close>

lemma hex_table: "map hex_val hex_lower = map Some [0..<16]"
  by (simp add: hex_val_def upt_rec)

lemma hex_table_plain: "list_all (\<lambda>c. \<not> hex_blank c \<and> c \<noteq> NUL) hex_lower"
  by (simp add: hex_blank_def)

lemma hex_val_lower [simp]: "n < 16 \<Longrightarrow> hex_val (hex_lower ! n) = Some n"
proof -
  assume n: "n < 16"
  then have "hex_val (hex_lower ! n) = map hex_val hex_lower ! n"
    by (subst nth_map) simp_all
  also have "\<dots> = Some n" unfolding hex_table using n by simp
  finally show ?thesis .
qed

lemma hex_lower_plain: "n < 16 \<Longrightarrow> \<not> hex_blank (hex_lower ! n) \<and> hex_lower ! n \<noteq> NUL"
proof -
  assume "n < 16"
  then have "hex_lower ! n \<in> set hex_lower" by (intro nth_mem) simp
  then show ?thesis using hex_table_plain unfolding list_all_iff by blast
qed

lemma bytes_to_hex_chars: "c \<in> set (bytes_to_hex bs) \<Longrightarrow> \<not> hex_blank c \<and> c \<noteq> NUL"
  by (induction bs) (auto simp: hex_lower_plain)

lemma NL_notin_hex: "NL \<notin> set (bytes_to_hex bs)" and space_notin_hex: "CHR '' '' \<notin> set (bytes_to_hex bs)"
  and NUL_notin_hex: "NUL \<notin> set (bytes_to_hex bs)"
  using bytes_to_hex_chars [of NL bs] bytes_to_hex_chars [of "CHR '' ''" bs] bytes_to_hex_chars [of NUL bs]
  by (auto simp: hex_blank_def)

lemma length_bytes_to_hex [simp]: "length (bytes_to_hex bs) = 2 * length bs"
  by (induction bs) auto

lemma bytes_to_hex_eq_Nil [simp]: "bytes_to_hex bs = [] \<longleftrightarrow> bs = []"
  by (cases bs) auto

lemma hex_pairs_bytes_to_hex [simp]: "hex_pairs (bytes_to_hex bs) = Some bs"
  by (induction bs) (auto simp: scan_1x1x_def nibbles_byte)

lemma dropWhile_no: "\<forall>x \<in> set xs. \<not> P x \<Longrightarrow> dropWhile P xs = xs"
  by (cases xs) auto

lemma strip_blank_append:
  "list_all hex_blank w \<Longrightarrow> \<forall>c \<in> set h. \<not> hex_blank c \<Longrightarrow> strip_blank (h @ w) = h"
proof -
  assume w: "list_all hex_blank w" and h: "\<forall>c \<in> set h. \<not> hex_blank c"
  have "dropWhile hex_blank (rev w @ rev h) = dropWhile hex_blank (rev h)"
    using w by (intro dropWhile_append2) (simp add: list_all_iff)
  then show ?thesis
    using dropWhile_no [of "rev h" hex_blank] h by (simp add: strip_blank_def)
qed

lemma hex_to_bytes_to_hex:
  assumes "list_all hex_blank w" "length bs \<le> max_out"
  shows "hex_to_bytes (bytes_to_hex bs @ w) max_out = Some bs"
proof -
  have "strip_blank (bytes_to_hex bs @ w) = bytes_to_hex bs"
    using assms(1) bytes_to_hex_chars by (intro strip_blank_append) auto
  then show ?thesis using assms(2) by (simp add: hex_to_bytes_def Let_def)
qed

lemma hex_to_bytes_to_hex_plain [simp]:
  "length bs \<le> max_out \<Longrightarrow> hex_to_bytes (bytes_to_hex bs) max_out = Some bs"
  using hex_to_bytes_to_hex [of "[]" bs max_out] by simp

lemma hex_to_bytes_NL: "length bs \<le> max_out \<Longrightarrow> hex_to_bytes (bytes_to_hex bs @ [NL]) max_out = Some bs"
  by (rule hex_to_bytes_to_hex) (simp_all add: hex_blank_def)

text \<open>What a decoded line was: an even number of hex digits in either case, within the bound.\<close>

lemma hex_pairs_length: "hex_pairs s = Some bs \<Longrightarrow> length s = 2 * length bs"
  by (induction s arbitrary: bs rule: hex_pairs.induct) (auto split: option.splits prod.splits)

lemma hex_to_bytes_bound: "hex_to_bytes s max_out = Some bs \<Longrightarrow> length bs \<le> max_out"
  using hex_pairs_length by (auto simp: hex_to_bytes_def Let_def split: if_splits)

lemma scan_1x1x_Some: "scan_1x1x c d = Some (hi, lo) \<Longrightarrow> hex_val c = Some hi \<and> hex_val d = Some lo"
  by (simp add: scan_1x1x_def split: option.split_asm)

lemma hex_pairs_digits: "hex_pairs s = Some bs \<Longrightarrow> c \<in> set s \<Longrightarrow> hex_val c \<noteq> None"
proof (induction s arbitrary: bs rule: hex_pairs.induct)
  case (3 x y s)
  then obtain hi lo bs' where "scan_1x1x x y = Some (hi, lo)" "hex_pairs s = Some bs'"
    by (auto split: option.split_asm)
  then show ?case using 3 scan_1x1x_Some by fastforce
qed auto

interpretation hexline: codec bytes_to_hex "\<lambda>s. hex_to_bytes s FROST_MAX_PAYLOAD"
  "\<lambda>bs. length bs \<le> FROST_MAX_PAYLOAD"
  by unfold_locales simp

section \<open>Properties\<close>

text \<open>C37: Every blob survives the hex line to or from the Rust core, whatever blanks and line ends
  follow the digits, if it fits the reader's array.\<close>

theorem hex_roundtrip:
  assumes "length bs \<le> max_out" "list_all hex_blank w"
  shows "hex_to_bytes (bytes_to_hex bs @ w) max_out = Some bs"
  using hex_to_bytes_to_hex assms by blast

theorem hex_roundtrip_witness: "hex_to_bytes (bytes_to_hex [0, 171, 255] @ [CR, NL]) 3 = Some [0, 171, 255]"
  using hex_roundtrip [of "[0, 171, 255]" 3 "[CR, NL]"] by (simp add: hex_blank_def)


end
