(* ===== verification/Bundle.thy ===== *)
theory Bundle
  imports Wire
begin

text \<open>
  The authenticated commit bundle of \<^verbatim>\<open>frost_common.h\<close>: the structure a coordinator
  relays to every member of a signing session, its packing into a bounded buffer and its
  unpacking from an untrusted payload. The C length fields (\<^verbatim>\<open>n_entries\<close>,
  \<^verbatim>\<open>commit_len\<close>, \<^verbatim>\<open>tbs_len\<close>) are the lengths of the lists.
\<close>

declare add_2_eq_Suc [simp del] add_2_eq_Suc' [simp del]

section \<open>Data\<close>

definition FROST_COMMIT_ENTRY_MAX :: nat where "FROST_COMMIT_ENTRY_MAX = 256"

definition FROST_COMMIT_BUNDLE_WIRE_MAX :: nat where
  "FROST_COMMIT_BUNDLE_WIRE_MAX =
     2 + FROST_MAX_SIGNERS * (2 + 2 + FROST_COMMIT_ENTRY_MAX + FROST_FRAME_SIG_SIZE)
     + 2 + FROST_MAX_PAYLOAD"

record frost_commit_entry =
  ce_id :: u16
  ce_commit :: bytes
  ce_commit_sig :: bytes

record frost_commit_bundle =
  cb_entries :: "frost_commit_entry list"
  cb_tbs :: bytes

abbreviation cb_n_entries :: "frost_commit_bundle \<Rightarrow> u16" where
  "cb_n_entries b \<equiv> of_nat (length (cb_entries b))"

abbreviation ce_commit_len :: "frost_commit_entry \<Rightarrow> u16" where
  "ce_commit_len e \<equiv> of_nat (length (ce_commit e))"

abbreviation cb_tbs_len :: "frost_commit_bundle \<Rightarrow> u16" where
  "cb_tbs_len b \<equiv> of_nat (length (cb_tbs b))"

section \<open>Packing\<close>

text \<open>The loop of \<^verbatim>\<open>frost_pack_commit_bundle\<close>; \<open>acc\<close> is \<open>dst[0 .. off)\<close>.\<close>

fun pack_entries :: "nat \<Rightarrow> bytes \<Rightarrow> frost_commit_entry list \<Rightarrow> bytes option" where
  "pack_entries cap acc [] = Some acc"
| "pack_entries cap acc (e # es) =
     (let off = length acc; clen = length (ce_commit e) in
      if off + 2 + 2 > cap then None
      else if clen > FROST_COMMIT_ENTRY_MAX then None
      else if off + 4 + clen > cap then None
      else if off + 4 + clen + FROST_FRAME_SIG_SIZE > cap then None
      else pack_entries cap
             (acc @ be16_bytes (ce_id e) @ be16_bytes (ce_commit_len e) @ ce_commit e
              @ take FROST_FRAME_SIG_SIZE (ce_commit_sig e)) es)"

definition frost_pack_commit_bundle :: "nat \<Rightarrow> frost_commit_bundle \<Rightarrow> bytes option" where
  "frost_pack_commit_bundle cap b =
     (if 2 > cap then None
      else (case pack_entries cap (be16_bytes (cb_n_entries b)) (cb_entries b) of
              None \<Rightarrow> None
            | Some acc \<Rightarrow>
                (let off = length acc; tlen = length (cb_tbs b) in
                 if off + 2 > cap then None
                 else if tlen > FROST_MAX_PAYLOAD \<or> off + 2 + tlen > cap then None
                 else Some (acc @ be16_bytes (cb_tbs_len b) @ cb_tbs b))))"

section \<open>Unpacking\<close>

definition sub_bytes :: "nat \<Rightarrow> nat \<Rightarrow> bytes \<Rightarrow> bytes" where
  "sub_bytes off n src = take n (drop off src)"

fun unpack_entries :: "bytes \<Rightarrow> nat \<Rightarrow> nat \<Rightarrow> (frost_commit_entry list \<times> nat) option" where
  "unpack_entries src off 0 = Some ([], off)"
| "unpack_entries src off (Suc k) =
     (if off + 4 > length src then None
      else
        (let id = be16 (src ! off) (src ! (off + 1));
             clen = unat (be16 (src ! (off + 2)) (src ! (off + 3))) in
         if clen > FROST_COMMIT_ENTRY_MAX then None
         else if off + 4 + clen > length src then None
         else if off + 4 + clen + FROST_FRAME_SIG_SIZE > length src then None
         else
           (case unpack_entries src (off + 4 + clen + FROST_FRAME_SIG_SIZE) k of
              None \<Rightarrow> None
            | Some (es, off') \<Rightarrow>
                Some (\<lparr>ce_id = id, ce_commit = sub_bytes (off + 4) clen src,
                       ce_commit_sig = sub_bytes (off + 4 + clen) FROST_FRAME_SIG_SIZE src\<rparr> # es,
                      off'))))"

definition frost_unpack_commit_bundle :: "bytes \<Rightarrow> (frost_commit_bundle \<times> nat) option" where
  "frost_unpack_commit_bundle src =
     (if 2 > length src then None
      else
        (let n = unat (be16 (src ! 0) (src ! 1)) in
         if n > FROST_MAX_SIGNERS then None
         else
           (case unpack_entries src 2 n of
              None \<Rightarrow> None
            | Some (es, off) \<Rightarrow>
                if off + 2 > length src then None
                else
                  (let tlen = unat (be16 (src ! off) (src ! (off + 1))) in
                   if tlen > FROST_MAX_PAYLOAD \<or> off + 2 + tlen > length src then None
                   else Some (\<lparr>cb_entries = es, cb_tbs = sub_bytes (off + 2) tlen src\<rparr>,
                              off + 2 + tlen)))))"

section \<open>The wire format as a specification\<close>

definition entry_wire :: "frost_commit_entry \<Rightarrow> bytes" where
  "entry_wire e = be16_bytes (ce_id e) @ be16_bytes (ce_commit_len e) @ ce_commit e @ ce_commit_sig e"

definition bundle_wire :: "frost_commit_bundle \<Rightarrow> bytes" where
  "bundle_wire b =
     be16_bytes (cb_n_entries b) @ concat (map entry_wire (cb_entries b))
     @ be16_bytes (cb_tbs_len b) @ cb_tbs b"

definition entry_ok :: "frost_commit_entry \<Rightarrow> bool" where
  "entry_ok e \<longleftrightarrow> length (ce_commit e) \<le> FROST_COMMIT_ENTRY_MAX \<and>
     length (ce_commit_sig e) = FROST_FRAME_SIG_SIZE"

definition bundle_ok :: "frost_commit_bundle \<Rightarrow> bool" where
  "bundle_ok b \<longleftrightarrow> length (cb_entries b) \<le> FROST_MAX_SIGNERS \<and> list_all entry_ok (cb_entries b) \<and>
     length (cb_tbs b) \<le> FROST_MAX_PAYLOAD"

lemma length_entry_wire:
  "entry_ok e \<Longrightarrow> length (entry_wire e) = 4 + length (ce_commit e) + FROST_FRAME_SIG_SIZE"
  by (simp add: entry_wire_def entry_ok_def)

lemma entry_wire_le: "entry_ok e \<Longrightarrow> length (entry_wire e) \<le> 516"
  by (simp add: length_entry_wire) (simp add: entry_ok_def FROST_COMMIT_ENTRY_MAX_def frost_consts)

lemma entries_wire_le:
  "list_all entry_ok es \<Longrightarrow> length (concat (map entry_wire es)) \<le> 516 * length es"
  by (induction es) (auto dest: entry_wire_le)

lemma bundle_wire_fits: "bundle_ok b \<Longrightarrow> length (bundle_wire b) \<le> FROST_COMMIT_BUNDLE_WIRE_MAX"
proof -
  assume b: "bundle_ok b"
  then have "length (concat (map entry_wire (cb_entries b))) \<le> 516 * length (cb_entries b)"
    by (intro entries_wire_le) (simp add: bundle_ok_def)
  then show ?thesis
    using b by (simp add: bundle_wire_def bundle_ok_def FROST_COMMIT_BUNDLE_WIRE_MAX_def
        FROST_COMMIT_ENTRY_MAX_def frost_consts)
qed

section \<open>Packing implements the wire format\<close>

lemma pack_entries_spec:
  "list_all entry_ok es \<Longrightarrow> length acc + length (concat (map entry_wire es)) \<le> cap \<Longrightarrow>
   pack_entries cap acc es = Some (acc @ concat (map entry_wire es))"
proof (induction es arbitrary: acc)
  case (Cons e es)
  then have e: "entry_ok e" by simp
  have "pack_entries cap (acc @ entry_wire e) es = Some (acc @ concat (map entry_wire (e # es)))"
    using Cons.IH [of "acc @ entry_wire e"] Cons.prems by simp
  then show ?case
    using Cons.prems e length_entry_wire [OF e]
    by (simp add: Let_def entry_ok_def [of e] entry_wire_def [of e])
qed simp

lemma pack_bundle_spec:
  assumes "bundle_ok b" "length (bundle_wire b) \<le> cap"
  shows "frost_pack_commit_bundle cap b = Some (bundle_wire b)"
  using assms
  by (simp add: frost_pack_commit_bundle_def pack_entries_spec bundle_ok_def bundle_wire_def Let_def)

section \<open>Unpacking inverts it, on any trailing bytes\<close>

lemma nth_pre: "length pre = n \<Longrightarrow> (pre @ xs) ! (n + i) = xs ! i"
  by (simp add: nth_append)

lemma sub_bytes_pre: "length pre = n \<Longrightarrow> sub_bytes n (length xs) (pre @ xs @ ys) = xs"
  by (simp add: sub_bytes_def)

lemma unpack_entries_wire:
  "list_all entry_ok es \<Longrightarrow> length pre = off \<Longrightarrow>
   unpack_entries (pre @ concat (map entry_wire es) @ rest) off (length es)
     = Some (es, off + length (concat (map entry_wire es)))"
proof (induction es arbitrary: pre off)
  case (Cons e es)
  then have e: "entry_ok e" by simp
  let ?tail = "concat (map entry_wire es) @ rest"
  let ?src = "pre @ entry_wire e @ ?tail"
  let ?c = "length (ce_commit e)"
  have c: "?c \<le> FROST_COMMIT_ENTRY_MAX" "?c < 65536" "length (ce_commit_sig e) = FROST_FRAME_SIG_SIZE"
    using e by (auto simp: entry_ok_def FROST_COMMIT_ENTRY_MAX_def)
  have src: "?src = (pre @ be16_bytes (ce_id e) @ be16_bytes (ce_commit_len e)) @ ce_commit e
               @ ce_commit_sig e @ ?tail"
    by (simp add: entry_wire_def)
  have hd: "?src ! off = hi8 (ce_id e)" "?src ! (off + 1) = lo8 (ce_id e)"
    "?src ! (off + 2) = hi8 (ce_commit_len e)" "?src ! (off + 3) = lo8 (ce_commit_len e)"
    using Cons.prems(2) by (simp_all add: entry_wire_def [of e] nth_append)
  have sl: "sub_bytes (off + 4) ?c ?src = ce_commit e"
    "sub_bytes (off + 4 + ?c) FROST_FRAME_SIG_SIZE ?src = ce_commit_sig e"
    using Cons.prems(2) c(3)
    by (simp_all add: entry_wire_def [of e] sub_bytes_def add.commute [of 4] flip: drop_drop)
  have nxt: "unpack_entries ((pre @ entry_wire e) @ ?tail) (off + 4 + ?c + FROST_FRAME_SIG_SIZE) (length es)
      = Some (es, off + 4 + ?c + FROST_FRAME_SIG_SIZE + length (concat (map entry_wire es)))"
    by (rule Cons.IH) (use Cons.prems length_entry_wire [OF e] in simp_all)
  show ?case
    using nxt c Cons.prems(2) length_entry_wire [OF e] hd sl
    by (simp add: Let_def)
qed simp

lemma unpack_bundle_wire:
  assumes b: "bundle_ok b"
  shows "frost_unpack_commit_bundle (bundle_wire b @ rest) = Some (b, length (bundle_wire b))"
proof -
  let ?es = "cb_entries b" and ?t = "cb_tbs b"
  let ?ew = "concat (map entry_wire ?es)"
  let ?src = "be16_bytes (cb_n_entries b) @ ?ew @ be16_bytes (cb_tbs_len b) @ ?t @ rest"
  have n: "length ?es \<le> FROST_MAX_SIGNERS" "length ?es < 65536"
    and t: "length ?t \<le> FROST_MAX_PAYLOAD" "length ?t < 65536" and ok: "list_all entry_ok ?es"
    using b by (auto simp: bundle_ok_def frost_consts)
  have ent: "unpack_entries ?src 2 (length ?es) = Some (?es, 2 + length ?ew)"
    using unpack_entries_wire [OF ok, of "be16_bytes (cb_n_entries b)" 2] by simp
  have "?src ! (2 + length ?ew) = hi8 (cb_tbs_len b)"
    "?src ! (2 + length ?ew + 1) = lo8 (cb_tbs_len b)"
    by (simp_all add: nth_append)
  moreover have "sub_bytes (2 + length ?ew + 2) (length ?t) ?src = ?t"
    using sub_bytes_pre [of "be16_bytes (cb_n_entries b) @ ?ew @ be16_bytes (cb_tbs_len b)"
        "2 + length ?ew + 2" ?t rest] by simp
  ultimately show ?thesis
    using n t ent by (simp add: frost_unpack_commit_bundle_def bundle_wire_def Let_def)
qed

section \<open>What an accepted payload is\<close>

lemma sub_bytes_Suc: "n + k \<le> length src \<Longrightarrow> length (sub_bytes n k src) = k"
  by (simp add: sub_bytes_def)

lemma sub_bytes_append: "sub_bytes off m src @ sub_bytes (off + m) n src = sub_bytes off (m + n) src"
  by (simp add: sub_bytes_def take_add drop_drop add.commute)

lemma sub_bytes_2: "off + 2 \<le> length src \<Longrightarrow> sub_bytes off 2 src = [src ! off, src ! (off + 1)]"
  by (simp add: sub_bytes_def take_Suc_conv_app_nth numeral_2_eq_2)

lemma entry_wire_sub_bytes:
  assumes "off + 4 + clen + FROST_FRAME_SIG_SIZE \<le> length src" "clen \<le> FROST_COMMIT_ENTRY_MAX"
    "clen = unat (be16 (src ! (off + 2)) (src ! (off + 3)))"
  shows "entry_wire \<lparr>ce_id = be16 (src ! off) (src ! (off + 1)), ce_commit = sub_bytes (off + 4) clen src,
       ce_commit_sig = sub_bytes (off + 4 + clen) FROST_FRAME_SIG_SIZE src\<rparr>
     = sub_bytes off (4 + clen + FROST_FRAME_SIG_SIZE) src"
proof -
  have len: "(of_nat clen :: u16) = be16 (src ! (off + 2)) (src ! (off + 3))"
    by (simp add: assms(3))
  have "sub_bytes off 4 src = sub_bytes off 2 src @ sub_bytes (off + 2) 2 src"
    using sub_bytes_append [of off 2 src 2] by simp
  then have "sub_bytes off 4 src = [src ! off, src ! (off + 1), src ! (off + 2), src ! (off + 3)]"
    using assms(1) sub_bytes_2 [of off src] sub_bytes_2 [of "off + 2" src]
    by (simp add: add.assoc eval_nat_numeral)
  moreover have "sub_bytes off (4 + clen + FROST_FRAME_SIG_SIZE) src
      = sub_bytes off 4 src @ sub_bytes (off + 4) clen src @ sub_bytes (off + 4 + clen) FROST_FRAME_SIG_SIZE src"
    by (metis sub_bytes_append append_assoc add.assoc)
  ultimately show ?thesis
    using assms(1,2) len sub_bytes_Suc [of "off + 4" clen src] by (simp add: entry_wire_def)
qed

lemma unpack_entries_sound:
  "unpack_entries src off k = Some (es, off') \<Longrightarrow>
   length es = k \<and> list_all entry_ok es \<and> off \<le> off' \<and> (off \<le> length src \<longrightarrow> off' \<le> length src) \<and>
   concat (map entry_wire es) = sub_bytes off (off' - off) src"
proof (induction k arbitrary: off es off')
  case 0
  then show ?case by (simp add: sub_bytes_def)
next
  case (Suc k)
  define clen where "clen = unat (be16 (src ! (off + 2)) (src ! (off + 3)))"
  let ?n = "4 + clen + FROST_FRAME_SIG_SIZE"
  let ?e = "\<lparr>ce_id = be16 (src ! off) (src ! (off + 1)), ce_commit = sub_bytes (off + 4) clen src,
       ce_commit_sig = sub_bytes (off + 4 + clen) FROST_FRAME_SIG_SIZE src\<rparr>"
  from Suc.prems obtain es' where
    b: "off + 4 + clen + FROST_FRAME_SIG_SIZE \<le> length src" "clen \<le> FROST_COMMIT_ENTRY_MAX"
    and rec: "unpack_entries src (off + ?n) k = Some (es', off')" and es: "es = ?e # es'"
    by (auto simp: Let_def clen_def add.assoc split: if_splits option.splits prod.splits)
  note ih = Suc.IH [OF rec]
  have ok: "entry_ok ?e"
    using b sub_bytes_Suc [of "off + 4" clen src] sub_bytes_Suc [of "off + 4 + clen" FROST_FRAME_SIG_SIZE src]
    by (simp add: entry_ok_def)
  have "concat (map entry_wire es) = sub_bytes off ?n src @ sub_bytes (off + ?n) (off' - (off + ?n)) src"
    using ih entry_wire_sub_bytes [OF b clen_def] es by simp
  also have "\<dots> = sub_bytes off (off' - off) src"
    using ih by (simp add: sub_bytes_append)
  finally show ?case
    using ih ok es b by simp
qed

lemma unpack_bundle_sound:
  assumes "frost_unpack_commit_bundle src = Some (b, n)"
  shows "bundle_ok b" "n \<le> length src" "bundle_wire b = take n src"
proof -
  let ?n = "unat (be16 (src ! 0) (src ! 1))"
  have len: "2 \<le> length src" "?n \<le> FROST_MAX_SIGNERS"
    using assms by (simp_all add: frost_unpack_commit_bundle_def Let_def split: if_split_asm)
  with assms obtain es off where ent: "unpack_entries src 2 ?n = Some (es, off)"
    by (auto simp: frost_unpack_commit_bundle_def Let_def split: option.split_asm)
  define tl where "tl = unat (be16 (src ! off) (src ! (off + 1)))"
  have off: "off + 2 \<le> length src" and t: "tl \<le> FROST_MAX_PAYLOAD" "off + 2 + tl \<le> length src"
    and b: "b = \<lparr>cb_entries = es, cb_tbs = sub_bytes (off + 2) tl src\<rparr>" "n = off + 2 + tl"
    using assms len ent
    by (simp_all add: frost_unpack_commit_bundle_def Let_def tl_def split: if_split_asm)
  note s = unpack_entries_sound [OF ent]
  have tlen: "length (sub_bytes (off + 2) tl src) = tl"
    using t(2) by (rule sub_bytes_Suc)
  show "bundle_ok b" "n \<le> length src"
    using s len t b tlen by (simp_all add: bundle_ok_def)
  have w: "bundle_wire b = sub_bytes 0 2 src @ sub_bytes 2 (off - 2) src @ sub_bytes off 2 src @ sub_bytes (off + 2) tl src"
    using s len off b tlen sub_bytes_2 [of 0 src] sub_bytes_2 [of off src]
    by (simp add: bundle_wire_def tl_def)
  have "sub_bytes 0 2 src @ sub_bytes 2 (off - 2) src = sub_bytes 0 off src"
    using sub_bytes_append [of 0 2 src "off - 2"] s len by simp
  moreover have "sub_bytes off 2 src @ sub_bytes (off + 2) tl src = sub_bytes off (2 + tl) src"
    by (rule sub_bytes_append)
  ultimately have "bundle_wire b = sub_bytes 0 off src @ sub_bytes off (2 + tl) src"
    using w by simp
  also have "\<dots> = take n src"
    using sub_bytes_append [of 0 off src "2 + tl"] b(2) by (simp add: sub_bytes_def tl_def add.assoc)
  finally show "bundle_wire b = take n src" .
qed

interpretation cbundle: codec bundle_wire
  "\<lambda>w. case frost_unpack_commit_bundle w of Some (b, n) \<Rightarrow> Some b | None \<Rightarrow> None" bundle_ok
  by unfold_locales (simp add: unpack_bundle_wire [where rest = "[]", simplified])

section \<open>Properties\<close>



text \<open>C26: Unpacking is strict: an accepted payload starts with the one encoding of the bundle it yields,
  the bundle respects the limits on entries, commitments and TBS, and no byte past the payload was read.\<close>

theorem unpack_commit_bundle_canonical:
  assumes "frost_unpack_commit_bundle src = Some (b, n)"
  shows "n \<le> length src \<and> bundle_ok b \<and> frost_pack_commit_bundle FROST_COMMIT_BUNDLE_WIRE_MAX b = Some (take n src)"
  using unpack_bundle_sound [OF assms] pack_bundle_spec [of b] bundle_wire_fits [of b] by simp

theorem unpack_commit_bundle_canonical_witness:
  "frost_unpack_commit_bundle [0, 0, 0, 1, 5, 6] = Some (\<lparr>cb_entries = [], cb_tbs = [5]\<rparr>, 5)
   \<and> frost_pack_commit_bundle FROST_COMMIT_BUNDLE_WIRE_MAX \<lparr>cb_entries = [], cb_tbs = [5]\<rparr> = Some [0, 0, 0, 1, 5]"
proof -
  have u: "frost_unpack_commit_bundle [0, 0, 0, 1, 5, 6] = Some (\<lparr>cb_entries = [], cb_tbs = [5]\<rparr>, 5)"
    by (simp add: frost_unpack_commit_bundle_def Let_def be16_def sub_bytes_def frost_consts)
  from unpack_commit_bundle_canonical [OF u] u show ?thesis by simp
qed

end
