(* ===== verification/Subprocess.thy ===== *)
theory Subprocess
  imports Hex Bundle
begin

text \<open>
  The bridge to the Rust core (\<^verbatim>\<open>frost_stubs.c\<close>): a command line, a stdin file made of
  hex lines, and the lines read back from stdout. The core itself is an external process,
  the argument \<open>exec\<close> of every definition here: \<open>exec cmd input\<close> is what the child printed
  and its exit status, or \<open>None\<close> when the temporary file or the pipe could not be made.
  On top of it stand the wrappers of the subcommands: \<^verbatim>\<open>dkg_part1/2/3\<close>,
  \<^verbatim>\<open>refresh_part1/2\<close>, \<^verbatim>\<open>refresh_shares\<close>, \<^verbatim>\<open>assemble\<close>, \<^verbatim>\<open>commit\<close> and
  \<^verbatim>\<open>sign\<close>. A wrapper's return value \<open>-1\<close> is \<open>None\<close>.
\<close>

type_synonym exec = "string \<Rightarrow> string \<Rightarrow> (string \<times> nat) option"

definition HEX_LINE_MAX :: nat where "HEX_LINE_MAX = FROST_MAX_PAYLOAD * 2 + 4"
definition STDIN_BUF_MAX :: nat where "STDIN_BUF_MAX = FROST_MAX_PAYLOAD * FROST_MAX_SIGNERS * 3"

abbreviation FROST_CORE_BIN :: string where
  "FROST_CORE_BIN \<equiv> ''./frost_signer_core/target/debug/frost_signer_core''"

text \<open>(The default of the \<^verbatim>\<open>Makefile\<close>.) \<^verbatim>\<open>snprintf\<close> into a buffer of \<open>cap\<close> characters.\<close>

definition snprintf :: "nat \<Rightarrow> string \<Rightarrow> string" where
  "snprintf cap s = take (cap - 1) s"

section \<open>Running a child\<close>

fun build_stdin :: "nat \<Rightarrow> string \<Rightarrow> string list \<Rightarrow> string option" where
  "build_stdin cap acc [] = Some acc"
| "build_stdin cap acc (l # ls) =
     (if length acc + length l + 2 > cap then None else build_stdin cap (acc @ l @ [NL]) ls)"

fun read_lines :: "nat list \<Rightarrow> string \<Rightarrow> string list option" where
  "read_lines [] out = Some []"
| "read_lines (m # ms) out =
     (case fgets m out of None \<Rightarrow> None
      | Some (l, rest) \<Rightarrow>
          (let l' = chop_nl l in
           if starts_with ''ERROR:'' l' then None
           else map_option (\<lambda>ls. l' # ls) (read_lines ms rest)))"

definition popen_multi :: "exec \<Rightarrow> string \<Rightarrow> string list \<Rightarrow> nat list \<Rightarrow> string list option" where
  "popen_multi exec cmd in_lines maxes =
     (case build_stdin STDIN_BUF_MAX [] in_lines of None \<Rightarrow> None
      | Some input \<Rightarrow>
          (case exec cmd input of None \<Rightarrow> None
           | Some (out, code) \<Rightarrow>
               (case read_lines maxes out of None \<Rightarrow> None
                | Some ls \<Rightarrow> if code \<noteq> 0 then None else Some ls)))"

definition popen_roundtrip :: "exec \<Rightarrow> string \<Rightarrow> string \<Rightarrow> nat \<Rightarrow> string option" where
  "popen_roundtrip exec cmd input line_max =
     (case exec cmd input of None \<Rightarrow> None
      | Some (out, code) \<Rightarrow>
          (case fgets line_max out of None \<Rightarrow> None
           | Some (l, _) \<Rightarrow> if code \<noteq> 0 then None else Some l))"

section \<open>Lines\<close>

text \<open>\<open>"<id> <hex>"\<close>, as a peer's package goes into and comes out of the core.\<close>

definition peer_line :: "nat \<Rightarrow> u16 \<Rightarrow> bytes \<Rightarrow> string" where
  "peer_line cap sid pkg = snprintf cap (fmt_u (unat sid) @ '' '' @ bytes_to_hex pkg)"

definition peer_lines :: "nat \<Rightarrow> (u16 \<times> bytes) list \<Rightarrow> string list" where
  "peer_lines cap ps = map (\<lambda>(sid, pkg). peer_line cap sid pkg) ps"

text \<open>Reading such a line back; \<open>num\<close> is the conversion the wrapper uses for the id.\<close>

definition parse_peer_line :: "(string \<Rightarrow> u16) \<Rightarrow> string \<Rightarrow> (u16 \<times> bytes) option" where
  "parse_peer_line num line =
     (case split_at CHR '' '' line of None \<Rightarrow> None
      | Some (a, b) \<Rightarrow> map_option (\<lambda>pkg. (num a, pkg)) (hex_to_bytes b FROST_MAX_PAYLOAD))"

fun parse_peer_lines :: "(string \<Rightarrow> u16) \<Rightarrow> string list \<Rightarrow> (u16 \<times> bytes) list option" where
  "parse_peer_lines num [] = Some []"
| "parse_peer_lines num (l # ls) =
     (case parse_peer_line num l of None \<Rightarrow> None
      | Some p \<Rightarrow> map_option (\<lambda>ps. p # ps) (parse_peer_lines num ls))"

definition two_blobs :: "string list option \<Rightarrow> (bytes \<times> bytes) option" where
  "two_blobs r =
     (case r of
        Some [a, b] \<Rightarrow>
          (case (hex_to_bytes a FROST_MAX_PAYLOAD, hex_to_bytes b FROST_MAX_PAYLOAD) of
             (Some x, Some y) \<Rightarrow> Some (x, y) | _ \<Rightarrow> None)
      | _ \<Rightarrow> None)"

definition hex_line :: "bytes \<Rightarrow> string" where
  "hex_line bs = bytes_to_hex bs"

section \<open>Distributed key generation\<close>

definition id_args :: "string \<Rightarrow> u16 \<Rightarrow> string" where
  "id_args sub sid = FROST_CORE_BIN @ '' '' @ sub @ '' --id '' @ fmt_u (unat sid)"

text \<open>Each wrapper in two steps: the lines the core printed, then their decoding.\<close>

definition dkg_part1_run :: "exec \<Rightarrow> u16 \<Rightarrow> u16 \<Rightarrow> u16 \<Rightarrow> string list option" where
  "dkg_part1_run exec sid n t =
     popen_multi exec
       (snprintf 256 (id_args ''dkg_part1'' sid @ '' --n '' @ fmt_u (unat n) @ '' --t '' @ fmt_u (unat t)))
       [] [HEX_LINE_MAX, HEX_LINE_MAX]"

definition frost_dkg_part1 :: "exec \<Rightarrow> u16 \<Rightarrow> u16 \<Rightarrow> u16 \<Rightarrow> (bytes \<times> bytes) option" where
  "frost_dkg_part1 exec sid n t = two_blobs (dkg_part1_run exec sid n t)"

definition dkg_part2_run :: "exec \<Rightarrow> u16 \<Rightarrow> bytes \<Rightarrow> (u16 \<times> bytes) list \<Rightarrow> string list option" where
  "dkg_part2_run exec my_id r1_secret peer_r1 =
     popen_multi exec
       (snprintf 256 (id_args ''dkg_part2'' my_id @ '' --n '' @ fmt_u (length peer_r1 + 1)))
       (hex_line r1_secret # peer_lines (HEX_LINE_MAX + 8) peer_r1)
       (replicate (1 + length peer_r1) (HEX_LINE_MAX + 8))"

definition frost_dkg_part2 ::
  "exec \<Rightarrow> u16 \<Rightarrow> bytes \<Rightarrow> (u16 \<times> bytes) list \<Rightarrow> (bytes \<times> (u16 \<times> bytes) list) option" where
  "frost_dkg_part2 exec my_id r1_secret peer_r1 =
     (case dkg_part2_run exec my_id r1_secret peer_r1 of
        Some (l0 # ls) \<Rightarrow>
          (case hex_to_bytes l0 FROST_MAX_PAYLOAD of None \<Rightarrow> None
           | Some r2_secret \<Rightarrow>
               map_option (\<lambda>ps. (r2_secret, ps)) (parse_peer_lines (\<lambda>s. of_nat (scan_u s)) ls))
      | _ \<Rightarrow> None)"

text \<open>
  \<^verbatim>\<open>frost_dkg_part3\<close> returns \<open>0\<close> even when the public key package does not decode; its
  length is then \<^verbatim>\<open>(uint16_t)-1\<close>. The third component is that length.
\<close>

definition dkg_part3_run :: "exec \<Rightarrow> u16 \<Rightarrow> bytes \<Rightarrow> (u16 \<times> bytes) list \<Rightarrow> (u16 \<times> bytes) list \<Rightarrow> string list option" where
  "dkg_part3_run exec my_id r2_secret peer_r1 peer_r2 =
     popen_multi exec
       (snprintf 256 (id_args ''dkg_part3'' my_id @ '' --n '' @ fmt_u (length peer_r1 + 1) @ '' --t 0''))
       (hex_line r2_secret # peer_lines (HEX_LINE_MAX + 8) peer_r1 @ peer_lines (HEX_LINE_MAX + 8) peer_r2)
       [HEX_LINE_MAX, HEX_LINE_MAX]"

definition frost_dkg_part3 ::
  "exec \<Rightarrow> u16 \<Rightarrow> bytes \<Rightarrow> (u16 \<times> bytes) list \<Rightarrow> (u16 \<times> bytes) list
   \<Rightarrow> (bytes \<times> bytes option \<times> u16) option" where
  "frost_dkg_part3 exec my_id r2_secret peer_r1 peer_r2 =
     (case dkg_part3_run exec my_id r2_secret peer_r1 peer_r2 of
        Some [k, p] \<Rightarrow>
          (case hex_to_bytes k FROST_MAX_PAYLOAD of None \<Rightarrow> None
           | Some key_pkg \<Rightarrow>
               (case hex_to_bytes p FROST_MAX_PAYLOAD of
                  None \<Rightarrow> Some (key_pkg, None, - 1)
                | Some pub \<Rightarrow> Some (key_pkg, Some pub, of_nat (length pub))))
      | _ \<Rightarrow> None)"

section \<open>Share refresh\<close>

definition refresh_part1_run :: "exec \<Rightarrow> u16 \<Rightarrow> u16 \<Rightarrow> u16 \<Rightarrow> string list option" where
  "refresh_part1_run exec my_id n t =
     popen_multi exec
       (snprintf 256 (id_args ''refresh_part1'' my_id @ '' --n '' @ fmt_u (unat n) @ '' --t '' @ fmt_u (unat t)))
       [] [HEX_LINE_MAX, HEX_LINE_MAX]"

definition frost_refresh_part1 :: "exec \<Rightarrow> u16 \<Rightarrow> u16 \<Rightarrow> u16 \<Rightarrow> (bytes \<times> bytes) option" where
  "frost_refresh_part1 exec my_id n t = two_blobs (refresh_part1_run exec my_id n t)"

text \<open>Here the id of an output line goes through \<^verbatim>\<open>atoi\<close> and a cast to 16 bits.\<close>

definition refresh_part2_run :: "exec \<Rightarrow> u16 \<Rightarrow> bytes \<Rightarrow> (u16 \<times> bytes) list \<Rightarrow> string list option" where
  "refresh_part2_run exec my_id r1_secret peer_r1 =
     popen_multi exec (snprintf 256 (id_args ''refresh_part2'' my_id))
       (hex_line r1_secret # peer_lines (FROST_MAX_PAYLOAD * 2 + 32) peer_r1)
       (replicate (length peer_r1 + 1) HEX_LINE_MAX)"

definition frost_refresh_part2 ::
  "exec \<Rightarrow> u16 \<Rightarrow> bytes \<Rightarrow> (u16 \<times> bytes) list \<Rightarrow> (bytes \<times> (u16 \<times> bytes) list) option" where
  "frost_refresh_part2 exec my_id r1_secret peer_r1 =
     (case refresh_part2_run exec my_id r1_secret peer_r1 of
        Some (l0 # ls) \<Rightarrow>
          (case hex_to_bytes l0 FROST_MAX_PAYLOAD of None \<Rightarrow> None
           | Some r2_secret \<Rightarrow>
               map_option (\<lambda>ps. (r2_secret, ps)) (parse_peer_lines (\<lambda>s. of_int (atol s)) ls))
      | _ \<Rightarrow> None)"

definition frost_refresh_shares ::
  "exec \<Rightarrow> u16 \<Rightarrow> bytes \<Rightarrow> (u16 \<times> bytes) list \<Rightarrow> (u16 \<times> bytes) list \<Rightarrow> bytes \<Rightarrow> bytes
   \<Rightarrow> (bytes \<times> bytes) option" where
  "frost_refresh_shares exec n r2_secret peer_r1 peer_r2 old_key_pkg old_pub_key_pkg =
     two_blobs (popen_multi exec
       (snprintf 256 (FROST_CORE_BIN @ '' refresh_shares --n '' @ fmt_u (unat n)))
       (hex_line r2_secret # peer_lines (FROST_MAX_PAYLOAD * 2 + 32) peer_r1
         @ peer_lines (FROST_MAX_PAYLOAD * 2 + 32) peer_r2
         @ [hex_line old_pub_key_pkg, hex_line old_key_pkg])
       [HEX_LINE_MAX, HEX_LINE_MAX])"

section \<open>Signing\<close>

definition ASSEMBLE_IN_MAX :: nat where
  "ASSEMBLE_IN_MAX = FROST_MAX_SIGNERS * (FROST_COMMIT_ENTRY_MAX * 2 + 16) + FROST_MAX_PAYLOAD * 2 + 32"

definition assemble_input :: "frost_commit_bundle \<Rightarrow> string" where
  "assemble_input b =
     bytes_to_hex (cb_tbs b) @ [NL] @ fmt_u (length (cb_entries b)) @ [NL]
     @ concat (map (\<lambda>e. fmt_u (unat (ce_id e)) @ '' '' @ bytes_to_hex (ce_commit e) @ [NL]) (cb_entries b))"

definition frost_assemble_signing_package :: "exec \<Rightarrow> frost_commit_bundle \<Rightarrow> bytes option" where
  "frost_assemble_signing_package exec b =
     (case exec (FROST_CORE_BIN @ '' assemble'') (assemble_input b) of None \<Rightarrow> None
      | Some (out, code) \<Rightarrow>
          (case fgets (FROST_MAX_PAYLOAD * 2 + 4) out of None \<Rightarrow> None
           | Some (l, _) \<Rightarrow>
               if code \<noteq> 0 then None
               else (case hex_to_bytes l FROST_MAX_PAYLOAD of None \<Rightarrow> None
                     | Some spkg \<Rightarrow> if spkg = [] then None else Some spkg)))"

definition commit_run :: "exec \<Rightarrow> u16 \<Rightarrow> bytes \<Rightarrow> string list option" where
  "commit_run exec my_id key_pkg =
     popen_multi exec (snprintf 256 (id_args ''commit'' my_id)) [hex_line key_pkg] [HEX_LINE_MAX, HEX_LINE_MAX]"

definition frost_commit :: "exec \<Rightarrow> u16 \<Rightarrow> bytes \<Rightarrow> (bytes \<times> bytes) option" where
  "frost_commit exec my_id key_pkg = two_blobs (commit_run exec my_id key_pkg)"

definition frost_sign :: "exec \<Rightarrow> u16 \<Rightarrow> bytes \<Rightarrow> bytes \<Rightarrow> bytes \<Rightarrow> bytes option" where
  "frost_sign exec my_id signing_pkg nonces key_pkg =
     (case popen_multi exec (snprintf 256 (id_args ''sign'' my_id))
            [hex_line nonces, hex_line key_pkg, hex_line signing_pkg] [HEX_LINE_MAX] of
        Some [s] \<Rightarrow> hex_to_bytes s FROST_MAX_PAYLOAD
      | _ \<Rightarrow> None)"

section \<open>What a failed wrapper leaves behind\<close>

text \<open>
  A wrapper decodes into its caller's arrays before it knows whether all lines decode, and
  sets the lengths only if they do. After a failure the arrays hold, within their old lengths,
  whatever had been decoded.
\<close>

definition two_left :: "string list option \<Rightarrow> bytes \<times> bytes \<Rightarrow> bytes \<times> bytes" where
  "two_left r old =
     (case (r, old) of
        (Some [a, b], (x, y)) \<Rightarrow>
          (clobber x (hex_written a FROST_MAX_PAYLOAD), clobber y (hex_written b FROST_MAX_PAYLOAD))
      | _ \<Rightarrow> old)"

text \<open>
  The round-two secret: its length is set as soon as the first line decodes, whatever becomes
  of the peers' lines.
\<close>

definition secret_left :: "string list option \<Rightarrow> bytes \<Rightarrow> bytes" where
  "secret_left r old =
     (case r of
        Some (l # _) \<Rightarrow>
          (case hex_to_bytes l FROST_MAX_PAYLOAD of
             Some s \<Rightarrow> s | None \<Rightarrow> clobber old (hex_written l FROST_MAX_PAYLOAD))
      | _ \<Rightarrow> old)"

section \<open>What the core prints is what the wrapper returns\<close>

text \<open>A line the reader passes through unchanged.\<close>

definition plain_line :: "nat \<Rightarrow> string \<Rightarrow> bool" where
  "plain_line m l \<longleftrightarrow> NL \<notin> set l \<and> NUL \<notin> set l \<and> Suc (length l) < m \<and> \<not> starts_with ''ERROR:'' l"

definition print_lines :: "string list \<Rightarrow> string" where
  "print_lines ls = concat (map (\<lambda>l. l @ [NL]) ls)"

lemma print_lines_simps [simp]:
  "print_lines [] = []" "print_lines (l # ls) = l @ NL # print_lines ls"
  by (simp_all add: print_lines_def)

lemma read_lines_print:
  "list_all2 plain_line ms ls \<Longrightarrow> read_lines ms (print_lines ls @ rest) = Some ls"
proof (induction rule: list_all2_induct)
  case (Cons m ms l ls)
  then show ?case
    using fgets_line [of l m "print_lines ls @ rest"] by (simp add: plain_line_def)
qed simp

lemma build_stdin_print:
  "length acc + length (print_lines ls) + 1 \<le> cap \<Longrightarrow> build_stdin cap acc ls = Some (acc @ print_lines ls)"
  by (induction ls arbitrary: acc) auto

lemma build_stdin_Some: "build_stdin cap acc ls = Some input \<Longrightarrow> input = acc @ print_lines ls"
proof (induction ls arbitrary: acc)
  case (Cons l ls)
  then have "build_stdin cap (acc @ l @ [NL]) ls = Some input" by (simp split: if_splits)
  then show ?case using Cons.IH by fastforce
qed simp

lemma popen_multi_prints:
  assumes "length (print_lines in_lines) < STDIN_BUF_MAX" "list_all2 plain_line maxes ls"
    and "exec cmd (print_lines in_lines) = Some (print_lines ls @ rest, 0)"
  shows "popen_multi exec cmd in_lines maxes = Some ls"
  using assms build_stdin_print [of "[]" in_lines STDIN_BUF_MAX]
  by (simp add: popen_multi_def read_lines_print)

lemma popen_multi_sound:
  assumes "popen_multi exec cmd in_lines maxes = Some ls"
  shows "\<exists>out. exec cmd (print_lines in_lines) = Some (out, 0)" "length ls = length maxes"
proof -
  have len: "read_lines ms out = Some ls' \<Longrightarrow> length ls' = length ms" for ms out ls'
    by (induction ms arbitrary: out ls') (auto simp: Let_def split: option.splits if_splits)
  from assms show "\<exists>out. exec cmd (print_lines in_lines) = Some (out, 0)" "length ls = length maxes"
    by (auto simp: popen_multi_def dest!: build_stdin_Some len split: option.splits if_splits)
qed

text \<open>A hex line is never mistaken for an error report: \<open>R\<close> is no hex digit.\<close>

lemma hex_lower_not_E: "n < 16 \<Longrightarrow> hex_lower ! n \<noteq> CHR ''E''"
proof -
  assume "n < 16"
  then have "hex_lower ! n \<in> set hex_lower" by (intro nth_mem) simp
  moreover have "list_all (\<lambda>c. c \<noteq> CHR ''E'') hex_lower" by simp
  ultimately show ?thesis unfolding list_all_iff by blast
qed

lemma hex_not_error: "\<not> starts_with ''ERROR:'' (bytes_to_hex bs)"
  by (cases bs) (auto simp: starts_with_def hex_lower_not_E)

lemma plain_hex_line:
  "length bs \<le> FROST_MAX_PAYLOAD \<Longrightarrow> HEX_LINE_MAX \<le> m \<Longrightarrow> plain_line m (bytes_to_hex bs)"
  by (simp add: plain_line_def NL_notin_hex NUL_notin_hex hex_not_error HEX_LINE_MAX_def)

lemma two_blobs_hex:
  "length x \<le> FROST_MAX_PAYLOAD \<Longrightarrow> length y \<le> FROST_MAX_PAYLOAD \<Longrightarrow>
   two_blobs (Some [bytes_to_hex x, bytes_to_hex y]) = Some (x, y)"
  by (simp add: two_blobs_def)

lemma two_blobs_Some:
  "two_blobs r = Some (x, y) \<Longrightarrow> length x \<le> FROST_MAX_PAYLOAD \<and> length y \<le> FROST_MAX_PAYLOAD"
  by (auto simp: two_blobs_def dest!: hex_to_bytes_bound split: option.splits list.splits)

lemma length_u16_digits: "length (fmt_u (unat (w :: u16))) \<le> 5"
  using length_fmt_u [of "unat w" 5] unat_u16_less [of w] by simp

lemma peer_line_exact:
  "length pkg \<le> FROST_MAX_PAYLOAD \<Longrightarrow> HEX_LINE_MAX + 8 \<le> cap \<Longrightarrow>
   peer_line cap sid pkg = fmt_u (unat sid) @ '' '' @ bytes_to_hex pkg"
  using length_u16_digits [of sid] by (simp add: peer_line_def snprintf_def HEX_LINE_MAX_def)

lemma digit_not_error: "\<not> starts_with ''ERROR:'' (fmt_u n @ s)"
proof -
  obtain d cs where "fmt_u n = dec_digits ! d # cs" "d < 10" using fmt_u_Cons by blast
  moreover have "dec_digits ! d \<noteq> CHR ''E''"
    using digit_val_nth [OF \<open>d < 10\<close>] by (auto simp: digit_val_def)
  ultimately show ?thesis by (simp add: starts_with_def)
qed

lemma plain_peer_line:
  "length pkg \<le> FROST_MAX_PAYLOAD \<Longrightarrow> HEX_LINE_MAX + 8 \<le> cap \<Longrightarrow>
   plain_line cap (peer_line cap sid pkg)"
  using length_u16_digits [of sid] digit_not_error [of "unat sid"]
  by (simp add: peer_line_exact plain_line_def NL_notin_hex NUL_notin_hex NL_notin_fmt_u NUL_notin_fmt_u
      HEX_LINE_MAX_def)

lemma parse_peer_line_print:
  assumes "length pkg \<le> FROST_MAX_PAYLOAD" "HEX_LINE_MAX + 8 \<le> cap" "num (fmt_u (unat sid)) = sid"
  shows "parse_peer_line num (peer_line cap sid pkg) = Some (sid, pkg)"
  using assms split_at_append [OF space_notin_fmt_u, of "unat sid" "bytes_to_hex pkg"]
  by (simp add: peer_line_exact parse_peer_line_def)

lemma parse_peer_lines_print:
  assumes "\<And>sid. num (fmt_u (unat sid)) = sid" "HEX_LINE_MAX + 8 \<le> cap"
  shows "\<forall>p \<in> set ps. length (snd p) \<le> FROST_MAX_PAYLOAD \<Longrightarrow>
     parse_peer_lines num (peer_lines cap ps) = Some ps"
  by (induction ps) (auto simp: peer_lines_def parse_peer_line_print assms)

lemma plain_peer_lines:
  "\<forall>p \<in> set ps. length (snd p) \<le> FROST_MAX_PAYLOAD \<Longrightarrow> HEX_LINE_MAX + 8 \<le> cap \<Longrightarrow>
   list_all2 plain_line (replicate (length ps) cap) (peer_lines cap ps)"
  by (induction ps) (auto simp: peer_lines_def plain_peer_line)

lemma scan_u_id: "of_nat (scan_u (fmt_u (unat sid))) = (sid :: u16)"
  using unat_u16_less [of sid] by simp

lemma atol_id: "of_int (atol (fmt_u (unat sid))) = (sid :: u16)"
  using scan_int_fmt_u [of "[]" "unat sid"] unat_u16_less [of sid]
  by (simp add: atol_def starts_digit_def min_def flip: unat_eq_nat_uint)

lemma length_print_lines_le:
  "\<forall>l \<in> set ls. length l \<le> k \<Longrightarrow> length (print_lines ls) \<le> length ls * (k + 1)"
  by (induction ls) auto

lemma peer_line_le: "length (peer_line cap sid pkg) \<le> cap - 1"
  by (simp add: peer_line_def snprintf_def)

text \<open>The stdin of a whole group's packages fits the buffer it is assembled in.\<close>

lemma stdin_fits:
  assumes "length secret \<le> FROST_MAX_PAYLOAD" "length ps < FROST_MAX_SIGNERS"
    and "\<forall>p \<in> set ps. length (snd p) \<le> FROST_MAX_PAYLOAD"
  shows "length (print_lines (hex_line secret # peer_lines (HEX_LINE_MAX + 8) ps)) < STDIN_BUF_MAX"
proof -
  let ?ls = "hex_line secret # peer_lines (HEX_LINE_MAX + 8) ps"
  have "\<forall>l \<in> set ?ls. length l \<le> HEX_LINE_MAX + 7"
    using assms(1) peer_line_le [of "HEX_LINE_MAX + 8"]
    by (auto simp: peer_lines_def hex_line_def HEX_LINE_MAX_def)
  then have "length (print_lines ?ls) \<le> length ?ls * (HEX_LINE_MAX + 8)"
    using length_print_lines_le [of ?ls "HEX_LINE_MAX + 7"] by (simp add: add.commute)
  also have "\<dots> \<le> FROST_MAX_SIGNERS * (HEX_LINE_MAX + 8)"
    using assms(2) by (intro mult_right_mono) (simp_all add: peer_lines_def)
  also have "\<dots> < STDIN_BUF_MAX"
    by (simp add: HEX_LINE_MAX_def STDIN_BUF_MAX_def frost_consts)
  finally show ?thesis .
qed

lemma assemble_input_fits: "bundle_ok b \<Longrightarrow> length (assemble_input b) < ASSEMBLE_IN_MAX"
proof -
  assume b: "bundle_ok b"
  let ?f = "\<lambda>e. fmt_u (unat (ce_id e)) @ '' '' @ bytes_to_hex (ce_commit e) @ [NL]"
  have one: "length (?f e) \<le> 519" if "entry_ok e" for e
    using that length_u16_digits [of "ce_id e"] by (simp add: entry_ok_def FROST_COMMIT_ENTRY_MAX_def)
  have "list_all entry_ok es \<Longrightarrow> length (concat (map ?f es)) \<le> length es * 519" for es
  proof (induction es)
    case (Cons e es)
    then show ?case using one [of e] by simp
  qed simp
  then have "length (concat (map ?f (cb_entries b))) \<le> length (cb_entries b) * 519"
    using b by (simp add: bundle_ok_def)
  moreover have "length (fmt_u (length (cb_entries b))) \<le> 2"
    using b length_fmt_u [of "length (cb_entries b)" 2] by (simp add: bundle_ok_def frost_consts)
  ultimately show ?thesis
    using b by (simp add: assemble_input_def ASSEMBLE_IN_MAX_def bundle_ok_def FROST_COMMIT_ENTRY_MAX_def frost_consts)
qed

text \<open>The wrappers, when the core behaves.\<close>

lemma frost_commit_returns:
  assumes "exec (snprintf 256 (id_args ''commit'' my_id)) (bytes_to_hex key_pkg @ [NL])
      = Some (print_lines [bytes_to_hex nonces, bytes_to_hex commit] @ rest, 0)"
    and "length key_pkg \<le> FROST_MAX_PAYLOAD" "length nonces \<le> FROST_MAX_PAYLOAD" "length commit \<le> FROST_MAX_PAYLOAD"
  shows "frost_commit exec my_id key_pkg = Some (nonces, commit)"
proof -
  have "popen_multi exec (snprintf 256 (id_args ''commit'' my_id)) [hex_line key_pkg] [HEX_LINE_MAX, HEX_LINE_MAX]
      = Some [bytes_to_hex nonces, bytes_to_hex commit]"
    using assms by (intro popen_multi_prints [where rest = rest])
      (simp_all add: hex_line_def plain_hex_line STDIN_BUF_MAX_def frost_consts)
  then show ?thesis using assms by (simp add: frost_commit_def commit_run_def two_blobs_hex)
qed

lemma frost_sign_returns:
  assumes "exec (snprintf 256 (id_args ''sign'' my_id))
        (print_lines [bytes_to_hex nonces, bytes_to_hex key_pkg, bytes_to_hex spkg])
      = Some (bytes_to_hex share @ NL # rest, 0)"
    and "length nonces \<le> FROST_MAX_PAYLOAD" "length key_pkg \<le> FROST_MAX_PAYLOAD"
      "length spkg \<le> FROST_MAX_PAYLOAD" "length share \<le> FROST_MAX_PAYLOAD"
  shows "frost_sign exec my_id spkg nonces key_pkg = Some share"
proof -
  have "popen_multi exec (snprintf 256 (id_args ''sign'' my_id))
      [hex_line nonces, hex_line key_pkg, hex_line spkg] [HEX_LINE_MAX] = Some [bytes_to_hex share]"
    using assms by (intro popen_multi_prints [where rest = rest])
      (simp_all add: hex_line_def plain_hex_line STDIN_BUF_MAX_def frost_consts)
  then show ?thesis using assms by (simp add: frost_sign_def)
qed

lemma frost_dkg_part2_returns:
  assumes out: "exec (snprintf 256 (id_args ''dkg_part2'' my_id @ '' --n '' @ fmt_u (length peer_r1 + 1)))
        (print_lines (hex_line r1_secret # peer_lines (HEX_LINE_MAX + 8) peer_r1))
      = Some (print_lines (bytes_to_hex r2_secret # peer_lines (HEX_LINE_MAX + 8) peer_r2) @ rest, 0)"
    and len: "length r1_secret \<le> FROST_MAX_PAYLOAD" "length r2_secret \<le> FROST_MAX_PAYLOAD"
      "length peer_r1 < FROST_MAX_SIGNERS" "length peer_r2 = length peer_r1"
    and ok: "\<forall>p \<in> set peer_r1 \<union> set peer_r2. length (snd p) \<le> FROST_MAX_PAYLOAD"
  shows "frost_dkg_part2 exec my_id r1_secret peer_r1 = Some (r2_secret, peer_r2)"
proof -
  have plain: "list_all2 plain_line (replicate (1 + length peer_r1) (HEX_LINE_MAX + 8))
      (bytes_to_hex r2_secret # peer_lines (HEX_LINE_MAX + 8) peer_r2)"
    using len ok plain_peer_lines [of peer_r2 "HEX_LINE_MAX + 8"] by (simp add: plain_hex_line)
  have fits: "length (print_lines (hex_line r1_secret # peer_lines (HEX_LINE_MAX + 8) peer_r1)) < STDIN_BUF_MAX"
    using len ok by (intro stdin_fits) auto
  have "parse_peer_lines (\<lambda>s. of_nat (scan_u s)) (peer_lines (HEX_LINE_MAX + 8) peer_r2) = Some peer_r2"
    using ok by (intro parse_peer_lines_print) (auto simp: scan_u_id)
  then show ?thesis
    using popen_multi_prints [OF fits plain, of exec _ rest] out len(2) by (simp add: frost_dkg_part2_def dkg_part2_run_def)
qed

text \<open>Whatever a wrapper returns fits the arrays it is copied into.\<close>

lemma frost_commit_bound:
  "frost_commit exec i k = Some (n, c) \<Longrightarrow> length n \<le> FROST_MAX_PAYLOAD \<and> length c \<le> FROST_MAX_PAYLOAD"
  by (auto simp: frost_commit_def dest: two_blobs_Some)

lemma frost_sign_bound: "frost_sign exec i p n k = Some s \<Longrightarrow> length s \<le> FROST_MAX_PAYLOAD"
  by (auto simp: frost_sign_def dest!: hex_to_bytes_bound split: option.splits list.splits)

lemma frost_assemble_bound:
  "frost_assemble_signing_package exec b = Some s \<Longrightarrow> s \<noteq> [] \<and> length s \<le> FROST_MAX_PAYLOAD"
  by (auto simp: frost_assemble_signing_package_def dest!: hex_to_bytes_bound split: option.splits if_splits)

lemma parse_peer_lines_bound:
  "parse_peer_lines num ls = Some ps \<Longrightarrow> length ps = length ls \<and> (\<forall>p \<in> set ps. length (snd p) \<le> FROST_MAX_PAYLOAD)"
proof (induction ls arbitrary: ps)
  case (Cons l ls)
  then show ?case
    by (auto simp: parse_peer_line_def dest!: hex_to_bytes_bound split: option.split_asm)
qed simp

lemma frost_sign_runs_core:
  "frost_sign exec i p n k = Some s \<Longrightarrow>
   \<exists>out. exec (snprintf 256 (id_args ''sign'' i)) (print_lines [hex_line n, hex_line k, hex_line p]) = Some (out, 0)"
  using popen_multi_sound(1) by (fastforce simp: frost_sign_def split: option.splits)

section \<open>Properties\<close>

text \<open>C35: Round two of key generation loses nothing between the C program and the core: if the core,
  fed the secret and the peers' packages as hex lines, prints its secret and one \<open>"<id> <hex>"\<close> line
  per peer, the wrapper returns exactly those, for any group the protocol allows.\<close>

theorem dkg_part2_returns_core_output:
  assumes "exec (snprintf 256 (id_args ''dkg_part2'' my_id @ '' --n '' @ fmt_u (length peer_r1 + 1)))
        (print_lines (hex_line r1_secret # peer_lines (HEX_LINE_MAX + 8) peer_r1))
      = Some (print_lines (bytes_to_hex r2_secret # peer_lines (HEX_LINE_MAX + 8) peer_r2) @ rest, 0)"
    and "length r1_secret \<le> FROST_MAX_PAYLOAD" "length r2_secret \<le> FROST_MAX_PAYLOAD"
      "length peer_r1 < FROST_MAX_SIGNERS" "length peer_r2 = length peer_r1"
    and "\<forall>p \<in> set peer_r1 \<union> set peer_r2. length (snd p) \<le> FROST_MAX_PAYLOAD"
  shows "frost_dkg_part2 exec my_id r1_secret peer_r1 = Some (r2_secret, peer_r2)"
  using assms by (rule frost_dkg_part2_returns)

theorem dkg_part2_returns_core_output_witness:
  "frost_dkg_part2 (\<lambda>cmd input. Some (print_lines (bytes_to_hex [7] # peer_lines (HEX_LINE_MAX + 8) [(2, [8]), (300, [9])]), 0))
     1 [1] [(2, [3]), (300, [4])] = Some ([7], [(2, [8]), (300, [9])])"
  by (rule dkg_part2_returns_core_output [where rest = "[]"]) (simp_all add: frost_consts)

text \<open>C36: The signing package is assembled from every accepted bundle without truncation: the text
  handed to \<^verbatim>\<open>assemble\<close> always fits the array it is formatted into.\<close>

theorem assemble_input_never_truncated:
  assumes "frost_unpack_commit_bundle src = Some (b, n)"
  shows "length (assemble_input b) < ASSEMBLE_IN_MAX"
  using assemble_input_fits unpack_bundle_sound(1) [OF assms] .

theorem assemble_input_never_truncated_witness:
  "length (assemble_input \<lparr>cb_entries = [], cb_tbs = [5]\<rparr>) < ASSEMBLE_IN_MAX"
proof -
  have "frost_unpack_commit_bundle [0, 0, 0, 1, 5] = Some (\<lparr>cb_entries = [], cb_tbs = [5]\<rparr>, 5)"
    by (simp add: frost_unpack_commit_bundle_def Let_def be16_def sub_bytes_def frost_consts)
  from assemble_input_never_truncated [OF this] show ?thesis .
qed

end
