(* ===== verification/Keys.thy ===== *)
theory Keys
  imports Wire
begin

text \<open>
  Signer identities (\<^verbatim>\<open>frost_stubs.c\<close>): the caches of the signers' certificate keys,
  their loading, and the two identity checks that compare a key with the cached one, at a
  signer's start (\<^verbatim>\<open>verify_own_identity\<close>) and when a peer claims an id on a TLS
  connection (\<^verbatim>\<open>verify_peer_tls_identity\<close>). GnuTLS is the argument \<open>x509_lib\<close>.
\<close>

type_synonym pubkey = bytes
type_synonym cert = bytes

record x509_lib =
  x_load_file :: "string \<Rightarrow> bytes option"
  x_import_pem :: "bytes \<Rightarrow> cert option"
  x_import_der :: "bytes \<Rightarrow> cert option"
  x_pubkey_of :: "cert \<Rightarrow> pubkey option"
  x_export_der :: "pubkey \<Rightarrow> bytes option"

text \<open>Two arrays of \<^verbatim>\<open>FROST_MAX_SIGNERS + 1\<close> handles, NULL as \<open>None\<close>.\<close>

record keycache =
  g_pubkey_cache :: "pubkey option list"
  g_pubkey_cache_oaep :: "pubkey option list"

definition empty_cache :: keycache where
  "empty_cache = \<lparr>g_pubkey_cache = replicate (FROST_MAX_SIGNERS + 1) None,
                  g_pubkey_cache_oaep = replicate (FROST_MAX_SIGNERS + 1) None\<rparr>"

section \<open>Loading\<close>

definition cert_path :: "u16 \<Rightarrow> string" where
  "cert_path sid = ''certs/signer'' @ fmt_u (unat sid) @ ''.crt''"

definition cert_path_oaep :: "u16 \<Rightarrow> string" where
  "cert_path_oaep sid = ''certs/signer'' @ fmt_u (unat sid) @ ''_oaep.crt''"

definition load_cert :: "x509_lib \<Rightarrow> string \<Rightarrow> cert option" where
  "load_cert lib path = Option.bind (x_load_file lib path) (x_import_pem lib)"

definition load_signer_pubkey :: "x509_lib \<Rightarrow> u16 \<Rightarrow> keycache \<Rightarrow> keycache option" where
  "load_signer_pubkey lib sid c =
     (case load_cert lib (cert_path sid) of None \<Rightarrow> None
      | Some crt \<Rightarrow>
          (case load_cert lib (cert_path_oaep sid) of None \<Rightarrow> None
           | Some crt_oaep \<Rightarrow>
               (case x_pubkey_of lib crt of None \<Rightarrow> None
                | Some pk \<Rightarrow>
                    (case x_pubkey_of lib crt_oaep of None \<Rightarrow> None
                     | Some pk_oaep \<Rightarrow>
                         Some \<lparr>g_pubkey_cache = (g_pubkey_cache c)[unat sid := Some pk],
                               g_pubkey_cache_oaep = (g_pubkey_cache_oaep c)[unat sid := Some pk_oaep]\<rparr>))))"

definition ensure_signer_pubkey_cached :: "x509_lib \<Rightarrow> u16 \<Rightarrow> keycache \<Rightarrow> keycache option" where
  "ensure_signer_pubkey_cached lib sid c =
     (if unat sid < 1 \<or> unat sid > FROST_MAX_SIGNERS then None
      else if g_pubkey_cache c ! unat sid \<noteq> None then Some c
      else load_signer_pubkey lib sid c)"

text \<open>All ids are tried; the flag is false when any of them failed.\<close>

fun init_cache_loop :: "x509_lib \<Rightarrow> u16 list \<Rightarrow> keycache \<Rightarrow> keycache \<times> bool" where
  "init_cache_loop lib [] c = (c, True)"
| "init_cache_loop lib (i # is) c =
     (case load_signer_pubkey lib i c of
        Some c' \<Rightarrow> init_cache_loop lib is c'
      | None \<Rightarrow> (case init_cache_loop lib is c of (c', _) \<Rightarrow> (c', False)))"

definition signer_ids :: "u16 list" where
  "signer_ids = map of_nat [1..<FROST_MAX_SIGNERS + 1]"

definition init_signer_pubkey_cache :: "x509_lib \<Rightarrow> keycache \<Rightarrow> keycache \<times> bool" where
  "init_signer_pubkey_cache lib c = init_cache_loop lib signer_ids c"

text \<open>
  The OAEP parameters are set on the private key and then on every cached OAEP key until
  one refuses; \<open>pub_rc\<close> is \<^verbatim>\<open>gnutls_pubkey_set_spki\<close>. The result is its status and the
  ids that have been configured.
\<close>

fun config_oaep_loop :: "(pubkey option \<Rightarrow> int) \<Rightarrow> keycache \<Rightarrow> u16 list \<Rightarrow> int \<times> u16 list" where
  "config_oaep_loop pub_rc c [] = (0, [])"
| "config_oaep_loop pub_rc c (i # is) =
     (let rc = pub_rc (g_pubkey_cache_oaep c ! unat i) in
      if rc \<noteq> 0 then (rc, [])
      else (case config_oaep_loop pub_rc c is of (rc', ids) \<Rightarrow> (rc', i # ids)))"

definition config_gnutls_keys_for_RSA_OAEP ::
  "int \<Rightarrow> (pubkey option \<Rightarrow> int) \<Rightarrow> keycache \<Rightarrow> int \<times> u16 list" where
  "config_gnutls_keys_for_RSA_OAEP priv_rc pub_rc c =
     (if priv_rc \<noteq> 0 then (priv_rc, []) else config_oaep_loop pub_rc c signer_ids)"

definition free_signer_pubkey_cache :: "keycache \<Rightarrow> keycache" where
  "free_signer_pubkey_cache c =
     \<lparr>g_pubkey_cache = map (\<lambda>_. None) (g_pubkey_cache c),
      g_pubkey_cache_oaep = map (\<lambda>_. None) (g_pubkey_cache_oaep c)\<rparr>"

definition get_signer_pubkey :: "keycache \<Rightarrow> u16 \<Rightarrow> pubkey option" where
  "get_signer_pubkey c sid =
     (if unat sid > FROST_MAX_SIGNERS then None else g_pubkey_cache c ! unat sid)"

definition get_signer_pubkey_oaep :: "keycache \<Rightarrow> u16 \<Rightarrow> pubkey option" where
  "get_signer_pubkey_oaep c sid =
     (if unat sid > FROST_MAX_SIGNERS then None else g_pubkey_cache_oaep c ! unat sid)"

text \<open>The coordinator's cache after HELLOs that claimed \<open>ids\<close>, in this order.\<close>

definition ensure_each :: "x509_lib \<Rightarrow> u16 list \<Rightarrow> keycache \<Rightarrow> keycache" where
  "ensure_each lib ids c =
     fold (\<lambda>i c. case ensure_signer_pubkey_cached lib i c of Some d \<Rightarrow> d | None \<Rightarrow> c) ids c"

section \<open>Identity checks\<close>

text \<open>Both keys must export, and the DER encodings must be equal.\<close>

definition same_der :: "x509_lib \<Rightarrow> pubkey \<Rightarrow> pubkey \<Rightarrow> bool" where
  "same_der lib p q =
     (case x_export_der lib p of None \<Rightarrow> False
      | Some d \<Rightarrow> (case x_export_der lib q of None \<Rightarrow> False
                   | Some e \<Rightarrow> length d = length e \<and> d = e))"

definition verify_own_identity :: "x509_lib \<Rightarrow> string \<Rightarrow> pubkey option \<Rightarrow> bool" where
  "verify_own_identity lib cert_file expected =
     (case load_cert lib cert_file of None \<Rightarrow> False
      | Some crt \<Rightarrow>
          (case x_pubkey_of lib crt of None \<Rightarrow> False
           | Some supplied \<Rightarrow>
               (case expected of None \<Rightarrow> False | Some pk \<Rightarrow> same_der lib supplied pk)))"

text \<open>What the coordinator can ask a TLS session about its peer.\<close>

record tls_peer =
  ts_is_x509 :: bool
  ts_cert_list :: "bytes list"

definition verify_peer_tls_identity :: "x509_lib \<Rightarrow> keycache \<Rightarrow> tls_peer \<Rightarrow> u16 \<Rightarrow> bool" where
  "verify_peer_tls_identity lib c peer claimed_id =
     (if \<not> ts_is_x509 peer then False
      else (case ts_cert_list peer of [] \<Rightarrow> False
            | leaf # _ \<Rightarrow>
                (case x_import_der lib leaf of None \<Rightarrow> False
                 | Some crt \<Rightarrow>
                     (case x_pubkey_of lib crt of None \<Rightarrow> False
                      | Some peer_pub \<Rightarrow>
                          (case get_signer_pubkey c claimed_id of None \<Rightarrow> False
                           | Some pk \<Rightarrow> same_der lib peer_pub pk)))))"

section \<open>An identity, once loaded, is never rebound\<close>

text \<open>
  The interface both programs use: look an id up, and make sure it is loaded. A load can
  fail, but it never changes a binding that is already there.
\<close>

locale identity_store =
  fixes lookup :: "'c \<Rightarrow> 'i \<Rightarrow> 'k option"
    and ensure :: "'i \<Rightarrow> 'c \<Rightarrow> 'c option"
    and wf :: "'c \<Rightarrow> bool"
  assumes ensure_wf: "wf c \<Longrightarrow> ensure i c = Some c' \<Longrightarrow> wf c'"
    and ensure_bound: "wf c \<Longrightarrow> ensure i c = Some c' \<Longrightarrow> lookup c' i \<noteq> None"
    and ensure_keep: "wf c \<Longrightarrow> ensure i c = Some c' \<Longrightarrow> lookup c j = Some k \<Longrightarrow> lookup c' j = Some k"
begin

lemma ensure_all_keep:
  "wf c \<Longrightarrow> lookup c j = Some k \<Longrightarrow> c' = fold (\<lambda>i c. case ensure i c of Some d \<Rightarrow> d | None \<Rightarrow> c) ids c \<Longrightarrow>
   wf c' \<and> lookup c' j = Some k"
proof (induction ids arbitrary: c)
  case (Cons i ids)
  then show ?case
    by (cases "ensure i c") (auto intro: ensure_wf ensure_keep)
qed simp

end

definition cache_ok :: "keycache \<Rightarrow> bool" where
  "cache_ok c \<longleftrightarrow> length (g_pubkey_cache c) = FROST_MAX_SIGNERS + 1 \<and>
     length (g_pubkey_cache_oaep c) = FROST_MAX_SIGNERS + 1"

lemma load_signer_pubkey_Some:
  assumes "load_signer_pubkey lib sid c = Some c'"
  obtains crt pk pk' where
    "load_cert lib (cert_path sid) = Some crt" "x_pubkey_of lib crt = Some pk"
    "c' = \<lparr>g_pubkey_cache = (g_pubkey_cache c)[unat sid := Some pk],
           g_pubkey_cache_oaep = (g_pubkey_cache_oaep c)[unat sid := Some pk']\<rparr>"
  using assms by (auto simp: load_signer_pubkey_def split: option.splits)

lemma ensure_cases:
  assumes "ensure_signer_pubkey_cached lib sid c = Some c'"
  obtains "1 \<le> unat sid" "unat sid \<le> FROST_MAX_SIGNERS" "c' = c" "g_pubkey_cache c ! unat sid \<noteq> None"
  | "1 \<le> unat sid" "unat sid \<le> FROST_MAX_SIGNERS" "g_pubkey_cache c ! unat sid = None"
    "load_signer_pubkey lib sid c = Some c'"
  using assms by (auto simp: ensure_signer_pubkey_cached_def not_less Suc_le_eq split: if_splits)

interpretation idcache: identity_store get_signer_pubkey "ensure_signer_pubkey_cached lib" cache_ok for lib
proof (unfold_locales, goal_cases)
  case (1 c i c')
  from 1(2) show ?case
    by (rule ensure_cases) (use 1 in \<open>auto simp: cache_ok_def elim!: load_signer_pubkey_Some\<close>)
next
  case (2 c i c')
  from 2(2) show ?case
    by (rule ensure_cases) (use 2 in \<open>auto simp: cache_ok_def get_signer_pubkey_def elim!: load_signer_pubkey_Some\<close>)
next
  case (3 c i c' j k)
  from 3(2) show ?case
    by (rule ensure_cases)
       (use 3 in \<open>auto simp: cache_ok_def get_signer_pubkey_def nth_list_update elim!: load_signer_pubkey_Some split: if_splits\<close>)
qed

section \<open>What a passed check means\<close>

text \<open>Every cached key came from the certificate file of its own id.\<close>

definition key_from_file :: "x509_lib \<Rightarrow> u16 \<Rightarrow> pubkey \<Rightarrow> bool" where
  "key_from_file lib sid pk \<longleftrightarrow>
     (case load_cert lib (cert_path sid) of None \<Rightarrow> False | Some crt \<Rightarrow> x_pubkey_of lib crt = Some pk)"

definition cache_faithful :: "x509_lib \<Rightarrow> keycache \<Rightarrow> bool" where
  "cache_faithful lib c \<longleftrightarrow> cache_ok c \<and>
     (\<forall>sid pk. get_signer_pubkey c sid = Some pk \<longrightarrow> key_from_file lib sid pk)"

lemma cache_faithful_empty: "cache_faithful lib empty_cache"
  by (auto simp: cache_faithful_def cache_ok_def empty_cache_def get_signer_pubkey_def nth_Cons split: if_splits nat.splits)

lemma load_faithful:
  "cache_faithful lib c \<Longrightarrow> load_signer_pubkey lib sid c = Some c' \<Longrightarrow> cache_faithful lib c'"
proof -
  assume c: "cache_faithful lib c" and l: "load_signer_pubkey lib sid c = Some c'"
  from l obtain crt pk pk' where crt: "load_cert lib (cert_path sid) = Some crt" "x_pubkey_of lib crt = Some pk"
    and c': "c' = \<lparr>g_pubkey_cache = (g_pubkey_cache c)[unat sid := Some pk],
           g_pubkey_cache_oaep = (g_pubkey_cache_oaep c)[unat sid := Some pk']\<rparr>"
    by (rule load_signer_pubkey_Some)
  have "key_from_file lib j q" if "get_signer_pubkey c' j = Some q" for j q
  proof (cases "j = sid")
    case True
    with that crt c' c show ?thesis
      by (auto simp: get_signer_pubkey_def key_from_file_def cache_faithful_def cache_ok_def split: if_splits)
  next
    case False
    then have "unat j \<noteq> unat sid" by (simp add: word_unat_eq_iff)
    with that c' have "get_signer_pubkey c j = Some q" by (auto simp: get_signer_pubkey_def split: if_splits)
    with c show ?thesis by (auto simp: cache_faithful_def)
  qed
  then show ?thesis using c c' by (auto simp: cache_faithful_def cache_ok_def)
qed

lemma ensure_faithful:
  "cache_faithful lib c \<Longrightarrow> ensure_signer_pubkey_cached lib sid c = Some c' \<Longrightarrow> cache_faithful lib c'"
  by (erule ensure_cases) (auto intro: load_faithful)

lemma init_loop_faithful:
  "cache_faithful lib c \<Longrightarrow> cache_faithful lib (fst (init_cache_loop lib is c))"
proof (induction "is" arbitrary: c)
  case (Cons i "is")
  then show ?case by (auto split: option.splits prod.splits dest: load_faithful) (metis fst_conv)
qed simp

lemma same_der_iff:
  "same_der lib p q \<longleftrightarrow> (\<exists>d. x_export_der lib p = Some d \<and> x_export_der lib q = Some d)"
  by (auto simp: same_der_def split: option.splits)

lemma verify_peer_sound:
  assumes "verify_peer_tls_identity lib c peer sid" "cache_faithful lib c"
  shows "\<exists>leaf rest crt peer_pub pk d. ts_cert_list peer = leaf # rest \<and> x_import_der lib leaf = Some crt \<and>
     x_pubkey_of lib crt = Some peer_pub \<and> key_from_file lib sid pk \<and>
     x_export_der lib peer_pub = Some d \<and> x_export_der lib pk = Some d"
  using assms
  by (auto simp: verify_peer_tls_identity_def same_der_iff cache_faithful_def split: if_splits list.splits option.splits)

lemma init_loop_all_loaded:
  "snd (init_cache_loop lib is c) \<Longrightarrow> cache_ok c \<Longrightarrow> distinct is \<Longrightarrow>
   \<forall>i \<in> set is. unat i \<le> FROST_MAX_SIGNERS \<Longrightarrow> j \<in> set is \<or> get_signer_pubkey c j \<noteq> None \<Longrightarrow>
   get_signer_pubkey (fst (init_cache_loop lib is c)) j \<noteq> None"
proof (induction "is" arbitrary: c)
  case (Cons i "is")
  from Cons.prems(1) obtain c' where l: "load_signer_pubkey lib i c = Some c'"
    by (auto split: option.splits prod.splits)
  from l obtain pk pk' where c': "c' = \<lparr>g_pubkey_cache = (g_pubkey_cache c)[unat i := Some pk],
           g_pubkey_cache_oaep = (g_pubkey_cache_oaep c)[unat i := Some pk']\<rparr>"
    by (rule load_signer_pubkey_Some) auto
  have ok: "cache_ok c'" using Cons.prems c' by (auto simp: cache_ok_def)
  have "j \<in> set is \<or> get_signer_pubkey c' j \<noteq> None"
    using Cons.prems c' by (auto simp: get_signer_pubkey_def cache_ok_def nth_list_update split: if_splits)
  then show ?case using Cons.IH [of c'] Cons.prems l ok by auto
qed simp

lemma ensure_each_faithful: "cache_faithful lib c \<Longrightarrow> cache_faithful lib (ensure_each lib ids c)"
  by (induction ids arbitrary: c) (auto simp: ensure_each_def dest: ensure_faithful split: option.splits)

text \<open>A small library of certificates: a file holds its own name, and a key is what was loaded.\<close>

definition demo_x509 :: x509_lib where
  "demo_x509 = \<lparr>x_load_file = (\<lambda>p. Some (str_bytes p)), x_import_pem = Some, x_import_der = Some,
     x_pubkey_of = Some, x_export_der = Some\<rparr>"

section \<open>Properties\<close>

text \<open>C19: A connection passes the coordinator's identity check for an id only if the key of the
  certificate it presented and the key in that id's own certificate file have the same DER encoding;
  this holds in every state of the cache that loading on demand can produce.\<close>

theorem peer_identity_bound_to_certificate:
  assumes "verify_peer_tls_identity lib (ensure_each lib ids empty_cache) peer sid"
  shows "\<exists>leaf rest crt peer_pub own own_pub d.
     ts_cert_list peer = leaf # rest \<and> x_import_der lib leaf = Some crt \<and> x_pubkey_of lib crt = Some peer_pub
     \<and> load_cert lib (cert_path sid) = Some own \<and> x_pubkey_of lib own = Some own_pub
     \<and> x_export_der lib peer_pub = Some d \<and> x_export_der lib own_pub = Some d"
  using verify_peer_sound [OF assms ensure_each_faithful [OF cache_faithful_empty]]
  by (auto simp: key_from_file_def split: option.splits)

theorem peer_identity_bound_to_certificate_witness:
  "\<exists>own d. load_cert demo_x509 (cert_path 3) = Some own \<and> x_export_der demo_x509 own = Some d
     \<and> d = str_bytes ''certs/signer3.crt''"
proof -
  have len: "length (replicate (FROST_MAX_SIGNERS + 1) (None :: pubkey option)) = 65" by (simp add: frost_consts)
  have "get_signer_pubkey (ensure_each demo_x509 [3] empty_cache) 3 = Some (str_bytes ''certs/signer3.crt'')"
    by (simp add: ensure_each_def ensure_signer_pubkey_cached_def load_signer_pubkey_def load_cert_def demo_x509_def
        empty_cache_def get_signer_pubkey_def cert_path_def frost_consts fmt_u.simps nth_list_update)
  then have "verify_peer_tls_identity demo_x509 (ensure_each demo_x509 [3] empty_cache)
      \<lparr>ts_is_x509 = True, ts_cert_list = [str_bytes ''certs/signer3.crt'']\<rparr> 3"
    by (simp add: verify_peer_tls_identity_def same_der_def demo_x509_def)
  from peer_identity_bound_to_certificate [OF this] show ?thesis
    by (auto simp: demo_x509_def load_cert_def cert_path_def fmt_u.simps)
qed

text \<open>C20: Once an id is bound to a key, no later HELLO for any id changes that binding.\<close>

theorem identity_never_rebound:
  assumes "cache_ok c" "get_signer_pubkey c sid = Some pk"
  shows "get_signer_pubkey (ensure_each lib ids c) sid = Some pk"
  using idcache.ensure_all_keep [OF assms ensure_each_def] by blast

theorem identity_never_rebound_witness:
  "get_signer_pubkey (ensure_each demo_x509 [2, 3, 2]
     (empty_cache\<lparr>g_pubkey_cache := (g_pubkey_cache empty_cache)[2 := Some [1]]\<rparr>)) 2 = Some [1]"
  by (rule identity_never_rebound)
     (simp_all add: cache_ok_def empty_cache_def get_signer_pubkey_def frost_consts nth_list_update)

end
