(* ===== verification/Coord_State.thy ===== *)
theory Coord_State
  imports Subprocess Keys
begin

text \<open>
  The coordinator's data (\<^verbatim>\<open>frost_coordinator.c\<close>): the connection structures, the ROAST
  session table, the globals, and the operations every other part of the coordinator is
  built from: sending and draining, removing connections, strikes, the blacklist and the
  session table. A C buffer with its length field is a byte list; the pointer \<open>sess\<close>
  into the session table is an index.
\<close>

section \<open>Data\<close>

datatype rsess_state_t = RSESS_EMPTY | RSESS_AWAITING_SHARES | RSESS_COMPLETE | RSESS_FAILED

datatype sphase_t =
    SPHASE_INIT | SPHASE_NO_KEY | SPHASE_COMMITTED | SPHASE_IN_SESSION | SPHASE_SHARED
  | SPHASE_BLACKLISTED | SPHASE_SUSPECT

record roast_session =
  rs_id :: u32
  rs_state :: rsess_state_t
  rs_deadline :: int
  rs_signer_ids :: "u16 list"    \<comment> \<open>the first \<^verbatim>\<open>n_signers\<close> entries\<close>
  rs_signing_pkg :: bytes
  rs_shares :: "bytes list"      \<comment> \<open>one per slot of the array, empty when \<^verbatim>\<open>share_lens\<close> is 0\<close>
  rs_n_shares :: nat

definition empty_session :: roast_session where
  "empty_session = \<lparr>rs_id = 0, rs_state = RSESS_EMPTY, rs_deadline = 0, rs_signer_ids = [],
     rs_signing_pkg = [], rs_shares = replicate FROST_MAX_SIGNERS [], rs_n_shares = 0\<rparr>"

record csigner =
  sg_sock :: nat
  sg_id :: u16
  sg_n :: u16
  sg_t :: u16
  sg_rx :: rxbuf
  sg_msgq :: "outmsg list"
  sg_want_write :: bool
  sg_r1_sig :: bytes
  sg_r1_pkg :: bytes
  sg_r2_complete :: bool
  sg_pub_key_pkg :: bytes
  sg_commit :: bytes
  sg_commit_sig :: bytes
  sg_sig_share :: bytes
  sg_phase :: sphase_t
  sg_session_id :: u32

record staged_conn =
  st_sock :: nat
  st_rx :: rxbuf
  st_msgq :: "outmsg list"
  st_want_write :: bool

record coord =
  g_mode :: coord_mode_t
  g_dkg_state :: dkg_state_t
  g_n :: u16
  g_t :: u16
  g_pub_key_pkg :: bytes
  g_tbs :: bytes
  g_tbs_hex :: string
  g_dummy_cert :: string
  g_sessions :: "roast_session list"
  g_next_session_id :: u32
  g_signing_done :: bool
  g_roast_fail :: bool
  g_blacklist :: "u16 list"
  g_user_key_file :: string
  g_principal :: string
  g_output_file :: string
  g_serial :: u64
  g_validity_secs :: u64
  g_num_minted :: u64
  g_to_mint :: u64
  g_refresh_complete_count :: nat
  g_strikes :: "nat list"
  g_fault :: bool
  g_tracking_bytes_sent :: "u32 list"
  g_tracking_bytes_rcvd :: "u32 list"
  signers :: "csigner list"
  staged :: "staged_conn list"
  key_cache :: keycache
  files_written :: "(string \<times> string) list"

text \<open>
  What one step of the coordinator may ask of the outside: the Rust core, the time now, the
  time at which a session with a given id is formed, which files can be opened for writing,
  the certificate library, what a TLS session says of its peer, and the contents of freshly
  allocated memory.
\<close>

record cenv =
  e_exec :: exec
  e_now :: int
  e_form_time :: "u32 \<Rightarrow> int"
  e_can_write :: "string \<Rightarrow> bool"
  e_x509 :: x509_lib
  e_peer :: "nat \<Rightarrow> tls_peer"
  e_heap_r1_sig :: bytes
  e_heap_commit_sig :: bytes
  e_heap_inbuf :: bytes

section \<open>Sending and draining\<close>

definition signer_send :: "frost_msg_t \<Rightarrow> bytes \<Rightarrow> u16 \<Rightarrow> bytes \<Rightarrow> u16 \<Rightarrow> csigner \<Rightarrow> csigner" where
  "signer_send ty sig slen payload plen sg =
     sg\<lparr>sg_msgq := sg_msgq sg @ [mk_outmsg ty sig slen payload plen]\<rparr>"

text \<open>The common call: no signature, and the whole payload.\<close>

definition send_plain :: "frost_msg_t \<Rightarrow> bytes \<Rightarrow> csigner \<Rightarrow> csigner" where
  "send_plain ty payload = signer_send ty [] 0 payload (of_nat (length payload))"

definition staged_send :: "frost_msg_t \<Rightarrow> bytes \<Rightarrow> staged_conn \<Rightarrow> staged_conn" where
  "staged_send ty payload st =
     st\<lparr>st_msgq := st_msgq st @ [mk_outmsg ty [] 0 payload (of_nat (length payload))]\<rparr>"

definition remove_signer :: "u16 \<Rightarrow> coord \<Rightarrow> coord" where
  "remove_signer sid c = c\<lparr>signers := filter (\<lambda>s. sg_id s \<noteq> sid) (signers c)\<rparr>"

definition remove_staged :: "nat \<Rightarrow> coord \<Rightarrow> coord" where
  "remove_staged sock c = c\<lparr>staged := filter (\<lambda>s. st_sock s \<noteq> sock) (staged c)\<rparr>"

definition upd_signer :: "u16 \<Rightarrow> (csigner \<Rightarrow> csigner) \<Rightarrow> coord \<Rightarrow> coord" where
  "upd_signer sid f c = c\<lparr>signers := update_first (\<lambda>s. sg_id s = sid) f (signers c)\<rparr>"

definition upd_staged :: "nat \<Rightarrow> (staged_conn \<Rightarrow> staged_conn) \<Rightarrow> coord \<Rightarrow> coord" where
  "upd_staged sock f c = c\<lparr>staged := update_first (\<lambda>s. st_sock s = sock) f (staged c)\<rparr>"

definition find_signer :: "u16 \<Rightarrow> coord \<Rightarrow> csigner option" where
  "find_signer sid c = find (\<lambda>s. sg_id s = sid) (signers c)"

definition track :: "u32 list \<Rightarrow> nat \<Rightarrow> nat \<Rightarrow> u32 list" where
  "track tr i r = tr[i := tr ! i + of_nat r]"

definition drain_signer_write :: "send_result \<Rightarrow> u16 \<Rightarrow> coord \<Rightarrow> coord" where
  "drain_signer_write res sid c =
     (case find_signer sid c of None \<Rightarrow> c
      | Some sg \<Rightarrow>
          if sg_msgq sg = [] then c
          else (case res of
                  SendAgain w \<Rightarrow> upd_signer sid (sg_want_write_update (\<lambda>_. w)) c
                | SendErr \<Rightarrow> remove_signer sid c
                | Sent r \<Rightarrow>
                    (upd_signer sid (\<lambda>s. s\<lparr>sg_want_write := False, sg_msgq := advance_queue r (sg_msgq s)\<rparr>) c)
                      \<lparr>g_tracking_bytes_sent := track (g_tracking_bytes_sent c) (unat sid) r\<rparr>))"

definition drain_staged_write :: "send_result \<Rightarrow> nat \<Rightarrow> coord \<Rightarrow> coord" where
  "drain_staged_write res sock c =
     (case find (\<lambda>s. st_sock s = sock) (staged c) of None \<Rightarrow> c
      | Some st \<Rightarrow>
          (case st_msgq st of [] \<Rightarrow> c
           | m # ms \<Rightarrow>
               (case res of
                  SendAgain w \<Rightarrow> upd_staged sock (st_want_write_update (\<lambda>_. w)) c
                | SendErr \<Rightarrow> remove_staged sock c
                | Sent r \<Rightarrow>
                    (let c1 = (upd_staged sock (\<lambda>s. s\<lparr>st_want_write := False, st_msgq := advance_queue r (st_msgq s)\<rparr>) c)
                           \<lparr>g_tracking_bytes_sent := track (g_tracking_bytes_sent c) 0 r\<rparr>
                     in if om_sent m + r \<ge> om_len m then remove_staged sock c1 else c1))))"

section \<open>Strikes\<close>

definition FROST_MAX_STRIKES :: nat where "FROST_MAX_STRIKES = 2"

definition get_strikes :: "nat list \<Rightarrow> u16 \<Rightarrow> nat" where
  "get_strikes tab sid =
     (if 1 \<le> unat sid \<and> unat sid - 1 < FROST_MAX_SIGNERS then tab ! (unat sid - 1) else 0)"

definition add_strike :: "u16 \<Rightarrow> nat list \<Rightarrow> nat list" where
  "add_strike sid tab =
     (if 1 \<le> unat sid \<and> unat sid - 1 < FROST_MAX_SIGNERS
      then tab[unat sid - 1 := tab ! (unat sid - 1) + 1] else tab)"

section \<open>The blacklist\<close>

definition is_blacklisted :: "u16 list \<Rightarrow> u16 \<Rightarrow> bool" where
  "is_blacklisted bl sid \<longleftrightarrow> list_ex (\<lambda>b. b = sid) bl"

definition blacklist_signer :: "u16 \<Rightarrow> u16 list \<Rightarrow> u16 list" where
  "blacklist_signer sid bl =
     (if length bl \<ge> FROST_MAX_SIGNERS \<or> is_blacklisted bl sid then bl else bl @ [sid])"

section \<open>The session table\<close>

definition roast_alloc :: "roast_session list \<Rightarrow> nat option" where
  "roast_alloc ss = index_of (\<lambda>s. rs_state s = RSESS_EMPTY) ss"

definition roast_active_count :: "roast_session list \<Rightarrow> nat" where
  "roast_active_count ss = length (filter (\<lambda>s. rs_state s = RSESS_AWAITING_SHARES) ss)"

definition roast_find :: "u32 \<Rightarrow> roast_session list \<Rightarrow> nat option" where
  "roast_find sid ss = index_of (\<lambda>s. rs_id s = sid) ss"

definition roast_signer_slot :: "roast_session \<Rightarrow> u16 \<Rightarrow> nat option" where
  "roast_signer_slot s sid = index_of (\<lambda>i. i = sid) (rs_signer_ids s)"

definition upd_session :: "nat \<Rightarrow> (roast_session \<Rightarrow> roast_session) \<Rightarrow> coord \<Rightarrow> coord" where
  "upd_session i f c = c\<lparr>g_sessions := (g_sessions c)[i := f (g_sessions c ! i)]\<rparr>"

section \<open>Laws of the tables\<close>

text \<open>The strike table counts per id, and a strike for one id is invisible to the others.\<close>

locale counter_table =
  fixes get :: "'c \<Rightarrow> 'i \<Rightarrow> nat"
    and bump :: "'i \<Rightarrow> 'c \<Rightarrow> 'c"
    and wf :: "'c \<Rightarrow> bool"
    and slot :: "'i \<Rightarrow> bool"
  assumes bump_wf: "wf c \<Longrightarrow> wf (bump i c)"
    and get_bump: "wf c \<Longrightarrow> get (bump i c) j = (if i = j \<and> slot i then get c j + 1 else get c j)"
begin

lemma bumps_count:
  "wf c \<Longrightarrow> slot j \<Longrightarrow> get (fold bump is c) j = get c j + length (filter (\<lambda>i. i = j) is)"
  by (induction "is" arbitrary: c) (auto simp: get_bump bump_wf)

lemma bump_mono: "wf c \<Longrightarrow> get c j \<le> get (bump i c) j"
  by (simp add: get_bump)

end

definition strikes_ok :: "nat list \<Rightarrow> bool" where
  "strikes_ok tab \<longleftrightarrow> length tab = FROST_MAX_SIGNERS"

definition id_ok :: "u16 \<Rightarrow> bool" where
  "id_ok sid \<longleftrightarrow> 1 \<le> unat sid \<and> unat sid \<le> FROST_MAX_SIGNERS"

lemma unat_u16_eq: "unat (a :: u16) = unat b \<longleftrightarrow> a = b"
  by (simp add: word_unat_eq_iff)

interpretation strikes: counter_table get_strikes add_strike strikes_ok id_ok
proof (unfold_locales, goal_cases)
  case (2 c i j)
  have "unat i - 1 = unat j - 1 \<longleftrightarrow> i = j" if "1 \<le> unat i" "1 \<le> unat j"
  proof -
    have "unat i - 1 = unat j - 1 \<longleftrightarrow> unat i = unat j" using that by arith
    then show ?thesis by (simp only: unat_u16_eq)
  qed
  with 2 show ?case
    by (auto simp: get_strikes_def add_strike_def strikes_ok_def id_ok_def nth_list_update)
qed (simp add: add_strike_def strikes_ok_def)

text \<open>
  The blacklist is a set that only grows; with fewer than \<open>cap\<close> members an insertion takes
  effect.
\<close>

locale exclusion_set =
  fixes member :: "'c \<Rightarrow> 'i \<Rightarrow> bool"
    and ins :: "'i \<Rightarrow> 'c \<Rightarrow> 'c"
    and room :: "'c \<Rightarrow> bool"
  assumes member_mono: "member c j \<Longrightarrow> member (ins i c) j"
    and member_ins: "room c \<Longrightarrow> member (ins i c) i"
    and member_only: "member (ins i c) j \<Longrightarrow> member c j \<or> i = j"
begin

lemma fold_mono: "member c j \<Longrightarrow> member (fold ins is c) j"
  by (induction "is" arbitrary: c) (auto simp: member_mono)

lemma fold_only: "member (fold ins is c) j \<Longrightarrow> member c j \<or> j \<in> set is"
  by (induction "is" arbitrary: c) (auto dest: member_only)

end

definition blacklist_ok :: "u16 list \<Rightarrow> bool" where
  "blacklist_ok bl \<longleftrightarrow> distinct bl \<and> length bl \<le> FROST_MAX_SIGNERS"

lemma is_blacklisted_set: "is_blacklisted bl sid \<longleftrightarrow> sid \<in> set bl"
  by (auto simp: is_blacklisted_def list_ex_iff)

interpretation excluded: exclusion_set is_blacklisted blacklist_signer "\<lambda>bl. length bl < FROST_MAX_SIGNERS"
  by unfold_locales (auto simp: is_blacklisted_set blacklist_signer_def split: if_splits)

lemma blacklist_signer_ok: "blacklist_ok bl \<Longrightarrow> blacklist_ok (blacklist_signer sid bl)"
  by (auto simp: blacklist_ok_def blacklist_signer_def is_blacklisted_set)

text \<open>
  Ids in the protocol's range never meet a full blacklist without being on it: there are only
  \<open>FROST_MAX_SIGNERS\<close> of them.
\<close>

lemma card_ids: "card {sid. id_ok sid} = FROST_MAX_SIGNERS" and finite_ids: "finite {sid. id_ok sid}"
proof -
  have eq: "{sid. id_ok sid} = (of_nat :: nat \<Rightarrow> u16) ` {1..FROST_MAX_SIGNERS}"
  proof (intro equalityI subsetI)
    fix x assume "x \<in> {sid. id_ok sid}"
    then have "unat x \<in> {1..FROST_MAX_SIGNERS}" "x = of_nat (unat x)" by (auto simp: id_ok_def)
    then show "x \<in> (of_nat :: nat \<Rightarrow> u16) ` {1..FROST_MAX_SIGNERS}" by blast
  qed (auto simp: id_ok_def frost_consts)
  have "inj_on (of_nat :: nat \<Rightarrow> u16) {1..FROST_MAX_SIGNERS}"
    by (rule inj_onI) (auto simp: frost_consts of_nat_u16_inject)
  then show "card {sid. id_ok sid} = FROST_MAX_SIGNERS" by (simp add: eq card_image)
  show "finite {sid. id_ok sid}" by (simp add: eq)
qed

lemma blacklist_takes_effect:
  assumes "blacklist_ok bl" "\<forall>b \<in> set bl. id_ok b" "id_ok sid"
  shows "is_blacklisted (blacklist_signer sid bl) sid"
proof (cases "length bl < FROST_MAX_SIGNERS")
  case False
  with assms(1) have "card (set bl) = FROST_MAX_SIGNERS"
    by (simp add: blacklist_ok_def distinct_card)
  then have "set bl = {sid. id_ok sid}"
    using assms(2) by (intro card_subset_eq finite_ids) (auto simp: card_ids)
  with assms(3) show ?thesis using excluded.member_mono by (auto simp: is_blacklisted_set blacklist_signer_def)
qed (rule excluded.member_ins)

end
