(* ===== verification/Coord_Cert.thy ===== *)
theory Coord_Cert
  imports Coord_State Base64
begin

text \<open>
  The coordinator's certificate calls (\<^verbatim>\<open>call_tbs\<close>, \<^verbatim>\<open>prepare_tbs\<close>,
  \<^verbatim>\<open>call_mint\<close> of \<^verbatim>\<open>frost_coordinator.c\<close>): the bytes to be signed come from the core, their
  last 32 bytes are replaced by the group key, and the aggregate signature is turned into a
  certificate file. The line that carries the group key is the one \<^verbatim>\<open>cmd_pubkey\<close> of
  \<^verbatim>\<open>frost_signer_core/main.rs\<close> prints.
\<close>

section \<open>The bytes to be signed\<close>

definition tbs_stdin :: "coord \<Rightarrow> u64 \<Rightarrow> u64 \<Rightarrow> string" where
  "tbs_stdin c valid_after valid_before =
     g_user_key_file c @ [NL] @ fmt_u (unat (g_serial c)) @ [NL] @ g_principal c @ [NL]
     @ fmt_u (unat valid_after) @ [NL] @ fmt_u (unat valid_before) @ [NL]"

definition call_tbs :: "cenv \<Rightarrow> u64 \<Rightarrow> u64 \<Rightarrow> coord \<Rightarrow> bool \<times> coord" where
  "call_tbs env valid_after valid_before c =
     (let input = tbs_stdin c valid_after valid_before in
      if length input \<ge> 512 then (False, c)
      else (case e_exec env (FROST_CORE_BIN @ '' tbs'') input of None \<Rightarrow> (False, c)
        | Some (out, code) \<Rightarrow>
            (case fgets (FROST_MAX_PAYLOAD * 2 + 4) out of None \<Rightarrow> (False, c)
             | Some (l1, rest) \<Rightarrow>
                 (case fgets FROST_MAX_PAYLOAD rest of None \<Rightarrow> (False, c)
                  | Some (l2, _) \<Rightarrow>
                      (let hexline = cut_crlf l1;
                           c1 = c\<lparr>g_dummy_cert := cut_crlf l2\<rparr> in
                       if code \<noteq> 0 then (False, c1)
                       else if hexline = [] then (False, c1)
                       else (case hex_to_bytes hexline FROST_MAX_PAYLOAD of
                               None \<Rightarrow> (False, c1\<lparr>g_tbs := clobber (g_tbs c) (hex_written hexline FROST_MAX_PAYLOAD)\<rparr>)
                             | Some tbs \<Rightarrow>
                                 if tbs = [] then (False, c1)
                                 else (True, c1\<lparr>g_tbs := tbs, g_tbs_hex := hexline\<rparr>)))))))"

section \<open>Patching in the group key\<close>

text \<open>From \<open>ssh-ed25519 <base64> <comment>\<close> to the raw key; \<open>None\<close> when the line is refused.\<close>

definition parse_pubkey_line :: "string \<Rightarrow> bytes option" where
  "parse_pubkey_line line =
     (case split_at CHR '' '' line of None \<Rightarrow> None
      | Some (_, rest) \<Rightarrow>
          (let b64 = (case split_at CHR '' '' rest of None \<Rightarrow> rest | Some (a, _) \<Rightarrow> a) in
           case b64_decode b64 256 of None \<Rightarrow> None
           | Some wire \<Rightarrow>
               if length wire < 4 + 11 + 4 + 32 then None
               else Some (take 32 (drop (4 + 11 + 4) wire))))"

definition prepare_tbs :: "cenv \<Rightarrow> coord \<Rightarrow> bool \<times> coord" where
  "prepare_tbs env c =
     (let now = word_of_int (e_now env) in
      case call_tbs env now (now + g_validity_secs c) c of
        (False, c1) \<Rightarrow> (False, c1)
      | (True, c1) \<Rightarrow>
          if length (g_tbs c1) < 32 then (False, c1)
          else (case e_exec env (FROST_CORE_BIN @ '' pubkey'') (bytes_to_hex (g_pub_key_pkg c1) @ [NL]) of
                  None \<Rightarrow> (False, c1)
                | Some (out, _) \<Rightarrow>
                    (case fgets 512 out of None \<Rightarrow> (False, c1)
                     | Some (l, _) \<Rightarrow>
                         (case parse_pubkey_line (cut_crlf l) of None \<Rightarrow> (False, c1)
                          | Some key32 \<Rightarrow>
                              (let tbs = take (length (g_tbs c1) - 32) (g_tbs c1) @ key32
                               in (True, c1\<lparr>g_tbs := tbs, g_tbs_hex := bytes_to_hex tbs,
                                            g_sessions := replicate ROAST_MAX_SESSIONS empty_session\<rparr>))))))"

section \<open>Minting\<close>

definition mint_stdin :: "bytes \<Rightarrow> coord \<Rightarrow> string" where
  "mint_stdin sig64 c =
     g_dummy_cert c @ [NL] @ bytes_to_hex sig64 @ [NL] @ g_tbs_hex c @ [NL] @ bytes_to_hex (g_pub_key_pkg c) @ [NL]"

text \<open>The certificate file, and the counters.\<close>

definition minted :: "string \<Rightarrow> coord \<Rightarrow> coord" where
  "minted cert c =
     c\<lparr>files_written := files_written c @ [(g_output_file c, cert @ [NL])],
       g_num_minted := g_num_minted c + 1, g_to_mint := g_to_mint c - 1\<rparr>"

text \<open>
  The text is formatted into \<^verbatim>\<open>4 * FROST_MAX_PAYLOAD\<close> characters, and then as many as
  \<^verbatim>\<open>snprintf\<close> would have liked to write are read from there.
\<close>

definition call_mint :: "cenv \<Rightarrow> bytes \<Rightarrow> coord \<Rightarrow> (bool \<times> coord) outcome" where
  "call_mint env sig64 c =
     (let input = mint_stdin sig64 c in
      if length input > FROST_MAX_PAYLOAD * 4 then Undef
      else (case e_exec env (FROST_CORE_BIN @ '' mint'') input of None \<Rightarrow> Cont (False, c)
        | Some (out, code) \<Rightarrow>
            (case fgets FROST_MAX_PAYLOAD out of None \<Rightarrow> Cont (False, c)
             | Some (l, _) \<Rightarrow>
                 if code \<noteq> 0 then Cont (False, c)
                 else if \<not> e_can_write env (g_output_file c) then Cont (False, c)
                 else Cont (True, minted (cut_crlf l) c))))"

section \<open>What the core prints for \<^verbatim>\<open>pubkey\<close>\<close>

definition ssh_wire :: "bytes \<Rightarrow> bytes" where
  "ssh_wire vk = [0, 0, 0, 11] @ str_bytes ''ssh-ed25519'' @ [0, 0, 0, of_nat (length vk)] @ vk"

definition pubkey_line :: "bytes \<Rightarrow> string" where
  "pubkey_line vk = ''ssh-ed25519 '' @ base64_encode (ssh_wire vk) @ '' frost-ca''"

lemma base64_all:
  assumes "P (CHR ''='')" "\<And>n. n < 64 \<Longrightarrow> P (b64_chars ! n)"
  shows "list_all P (base64_encode bs)"
  by (induction bs rule: base64_encode.induct)
     (simp_all only: base64_encode.simps list_all_append list.pred_inject assms sextet_bounds simp_thms)

lemma base64_plain_chars: "c \<in> set (base64_encode bs) \<Longrightarrow> c \<noteq> CHR '' '' \<and> c \<noteq> NL \<and> c \<noteq> CR \<and> c \<noteq> NUL"
proof -
  let ?P = "\<lambda>c. c \<noteq> CHR '' '' \<and> c \<noteq> NL \<and> c \<noteq> CR \<and> c \<noteq> NUL"
  assume c: "c \<in> set (base64_encode bs)"
  have tab: "list_all ?P b64_chars" by simp
  have "?P (b64_chars ! n)" if "n < 64" for n
  proof -
    have "b64_chars ! n \<in> set b64_chars" using that by (intro nth_mem) simp
    then show ?thesis using tab unfolding list_all_iff by blast
  qed
  then have "list_all ?P (base64_encode bs)" by (intro base64_all) (simp, blast)
  with c show ?thesis unfolding list_all_iff by blast
qed

lemma length_base64: "length (base64_encode bs) \<le> 2 * length bs + 4"
  by (induction bs rule: base64_encode.induct) (simp_all only: base64_encode.simps length_append length_Cons list.size, simp_all)

lemma parse_pubkey_line_print:
  assumes "length vk = 32"
  shows "parse_pubkey_line (pubkey_line vk) = Some vk"
proof -
  let ?b = "base64_encode (ssh_wire vk)"
  have len: "length (ssh_wire vk) = 51" using assms by (simp add: ssh_wire_def)
  have "split_at CHR '' '' (''ssh-ed25519'' @ CHR '' '' # (?b @ '' frost-ca'')) = Some (''ssh-ed25519'', ?b @ '' frost-ca'')"
    by (rule split_at_append) simp
  moreover have "split_at CHR '' '' (?b @ CHR '' '' # ''frost-ca'') = Some (?b, ''frost-ca'')"
    by (rule split_at_append) (use base64_plain_chars in blast)
  moreover have "b64_decode ?b 256 = Some (ssh_wire vk)"
    using b64_decode_encode [of "ssh_wire vk" 256 "[]"] len by simp
  moreover have "take 32 (drop 19 (ssh_wire vk)) = vk"
    using assms by (simp add: ssh_wire_def str_bytes_def)
  ultimately show ?thesis using len assms by (simp add: parse_pubkey_line_def pubkey_line_def)
qed

lemma fgets_pubkey_line:
  assumes "length vk = 32"
  shows "fgets 512 (pubkey_line vk @ NL # rest) = Some (pubkey_line vk @ [NL], rest)"
    and "cut_crlf (pubkey_line vk @ [NL]) = pubkey_line vk"
proof -
  have plain: "c \<noteq> NL \<and> c \<noteq> CR \<and> c \<noteq> NUL" if "c \<in> set (pubkey_line vk)" for c
    using that base64_plain_chars [of c "ssh_wire vk"] by (auto simp: pubkey_line_def)
  have "length (pubkey_line vk) < 510"
    using length_base64 [of "ssh_wire vk"] assms by (simp add: pubkey_line_def ssh_wire_def)
  then show "fgets 512 (pubkey_line vk @ NL # rest) = Some (pubkey_line vk @ [NL], rest)"
    using plain by (intro fgets_line) auto
  show "cut_crlf (pubkey_line vk @ [NL]) = pubkey_line vk"
    unfolding cut_crlf_def using plain by (subst takeWhile_append2) auto
qed

section \<open>What preparing the TBS keeps and changes\<close>

lemma parse_pubkey_line_length: "parse_pubkey_line l = Some k \<Longrightarrow> length k = 32"
  by (auto simp: parse_pubkey_line_def Let_def split: option.splits if_splits)

lemma call_tbs_keeps:
  "call_tbs env a b c = (ok, c1) \<Longrightarrow>
   c1 = c\<lparr>g_dummy_cert := g_dummy_cert c1, g_tbs := g_tbs c1, g_tbs_hex := g_tbs_hex c1\<rparr>"
  by (auto simp: call_tbs_def Let_def split: if_splits option.splits)

lemma prepare_tbs_cases:
  assumes "prepare_tbs env c = (ok, c1)"
  obtains (failed) d t h where "\<not> ok" "c1 = c\<lparr>g_dummy_cert := d, g_tbs := t, g_tbs_hex := h\<rparr>"
  | (patched) d t h key where "ok" "length t \<ge> 32" "length key = 32"
    "c1 = c\<lparr>g_dummy_cert := d, g_tbs := take (length t - 32) t @ key,
       g_tbs_hex := bytes_to_hex (take (length t - 32) t @ key),
       g_sessions := replicate ROAST_MAX_SESSIONS empty_session\<rparr>"
    "call_tbs env (word_of_int (e_now env)) (word_of_int (e_now env) + g_validity_secs c) c
      = (True, c\<lparr>g_dummy_cert := d, g_tbs := t, g_tbs_hex := h\<rparr>)"
proof -
  obtain ok0 c0 where ct: "call_tbs env (word_of_int (e_now env)) (word_of_int (e_now env) + g_validity_secs c) c = (ok0, c0)"
    by (metis surj_pair)
  obtain d t h where c0: "c0 = c\<lparr>g_dummy_cert := d, g_tbs := t, g_tbs_hex := h\<rparr>"
    using call_tbs_keeps [OF ct] by blast
  show ?thesis
  proof (cases ok)
    case False
    with assms ct have "c1 = c0"
      by (auto simp: prepare_tbs_def Let_def split: if_splits bool.splits option.splits)
    with failed False c0 show ?thesis by blast
  next
    case True
    with assms ct obtain key l where ok0: "ok0" and len: "\<not> length (g_tbs c0) < 32"
      and key: "parse_pubkey_line (cut_crlf l) = Some key"
      and c1: "c1 = c0\<lparr>g_tbs := take (length (g_tbs c0) - 32) (g_tbs c0) @ key,
          g_tbs_hex := bytes_to_hex (take (length (g_tbs c0) - 32) (g_tbs c0) @ key),
          g_sessions := replicate ROAST_MAX_SESSIONS empty_session\<rparr>"
      by (auto simp: prepare_tbs_def Let_def split: if_splits bool.splits option.splits)
    show ?thesis
      using patched [of t key d h] True len key c0 c1 ct ok0 parse_pubkey_line_length by simp
  qed
qed

text \<open>The core's two lines, and what becomes of them.\<close>

lemma hex_no_crlf: "CR \<notin> set (bytes_to_hex bs)"
  using bytes_to_hex_chars [of CR bs] by (auto simp: hex_blank_def)

lemma cut_crlf_line: "CR \<notin> set l \<Longrightarrow> NL \<notin> set l \<Longrightarrow> cut_crlf (l @ [NL]) = l"
  unfolding cut_crlf_def by (subst takeWhile_append2) auto

lemma call_tbs_prints:
  assumes "e_exec env (FROST_CORE_BIN @ '' tbs'') (tbs_stdin c a b) = Some (bytes_to_hex tbs @ NL # cert @ NL # rest, 0)"
    and "length (tbs_stdin c a b) < 512" "tbs \<noteq> []" "length tbs \<le> FROST_MAX_PAYLOAD"
    and "NL \<notin> set cert" "CR \<notin> set cert" "NUL \<notin> set cert" "Suc (length cert) < FROST_MAX_PAYLOAD"
  shows "call_tbs env a b c = (True, c\<lparr>g_dummy_cert := cert, g_tbs := tbs, g_tbs_hex := bytes_to_hex tbs\<rparr>)"
proof -
  have "fgets (FROST_MAX_PAYLOAD * 2 + 4) (bytes_to_hex tbs @ NL # cert @ NL # rest)
      = Some (bytes_to_hex tbs @ [NL], cert @ NL # rest)"
    using assms(4) by (intro fgets_line) (auto simp: NL_notin_hex NUL_notin_hex)
  moreover have "fgets FROST_MAX_PAYLOAD (cert @ NL # rest) = Some (cert @ [NL], rest)"
    using assms by (intro fgets_line)
  moreover have "cut_crlf (bytes_to_hex tbs @ [NL]) = bytes_to_hex tbs" "cut_crlf (cert @ [NL]) = cert"
    using assms by (auto intro!: cut_crlf_line simp: hex_no_crlf NL_notin_hex)
  ultimately show ?thesis
    using assms(1-4) by (simp add: call_tbs_def Let_def)
qed

lemma prepare_tbs_prints:
  fixes env :: cenv and c :: coord
  defines "now \<equiv> word_of_int (e_now env)"
  assumes tbs: "e_exec env (FROST_CORE_BIN @ '' tbs'') (tbs_stdin c now (now + g_validity_secs c))
      = Some (bytes_to_hex (body @ old_key) @ NL # cert @ NL # rest, 0)"
    and "length (tbs_stdin c now (now + g_validity_secs c)) < 512" "length (body @ old_key) \<le> FROST_MAX_PAYLOAD"
    and "NL \<notin> set cert" "CR \<notin> set cert" "NUL \<notin> set cert" "Suc (length cert) < FROST_MAX_PAYLOAD"
    and pk: "e_exec env (FROST_CORE_BIN @ '' pubkey'') (bytes_to_hex (g_pub_key_pkg c) @ [NL])
      = Some (pubkey_line vk @ NL # rest', code)"
    and "length old_key = 32" "length vk = 32"
  shows "prepare_tbs env c = (True, c\<lparr>g_dummy_cert := cert, g_tbs := body @ vk, g_tbs_hex := bytes_to_hex (body @ vk),
      g_sessions := replicate ROAST_MAX_SESSIONS empty_session\<rparr>)"
proof -
  have ne: "body @ old_key \<noteq> []" using assms(10) by auto
  have "call_tbs env now (now + g_validity_secs c) c
      = (True, c\<lparr>g_dummy_cert := cert, g_tbs := body @ old_key, g_tbs_hex := bytes_to_hex (body @ old_key)\<rparr>)"
    using call_tbs_prints [OF tbs assms(3) ne assms(4-8)] .
  then show ?thesis
    using pk assms(10,11) fgets_pubkey_line [OF assms(11)] parse_pubkey_line_print [OF assms(11)]
    by (simp add: prepare_tbs_def Let_def now_def)
qed

lemma call_mint_cases:
  assumes "call_mint env sig64 c = Cont (ok, c1)"
  shows "(\<not> ok \<and> c1 = c) \<or> (\<exists>cert. ok \<and> e_can_write env (g_output_file c) \<and> c1 = minted cert c)"
proof -
  let ?r = "e_exec env (FROST_CORE_BIN @ '' mint'') (mint_stdin sig64 c)"
  have n: "\<not> length (mint_stdin sig64 c) > FROST_MAX_PAYLOAD * 4"
    using assms by (auto simp: call_mint_def)
  show ?thesis
  proof (cases ?r)
    case None
    with assms n show ?thesis by (simp add: call_mint_def Let_def)
  next
    case (Some r)
    obtain out code where r: "r = (out, code)" by force
    show ?thesis
      using assms n Some r
      by (cases "fgets FROST_MAX_PAYLOAD out"; cases "code \<noteq> 0"; cases "e_can_write env (g_output_file c)")
         (auto simp: call_mint_def Let_def)
  qed
qed

end
