(* ===== verification/Coord_DKG.thy ===== *)
theory Coord_DKG
  imports Coord_State
begin

text \<open>
  The coordinator's relays of key generation and share refresh (\<^verbatim>\<open>frost_coordinator.c\<close>,
  ``DKG mode helpers'' and ``Refresh DKG mode helpers''): start when everybody is there,
  relay every round-one package to everybody else, route round-two packages to their target,
  and announce completion. The coordinator never looks into a package.
\<close>

section \<open>Broadcast and relay\<close>

definition broadcast :: "frost_msg_t \<Rightarrow> bytes \<Rightarrow> coord \<Rightarrow> coord" where
  "broadcast ty payload c = c\<lparr>signers := map (send_plain ty payload) (signers c)\<rparr>"

text \<open>\<open>[sender id][package]\<close>, with a 16-bit length.\<close>

definition relay_payload :: "csigner \<Rightarrow> bytes" where
  "relay_payload sender = be16_bytes (sg_id sender) @ sg_r1_pkg sender"

definition relay_len :: "csigner \<Rightarrow> u16" where
  "relay_len sender = of_nat (length (sg_r1_pkg sender) + 2)"

definition relay_frame :: "frost_msg_t \<Rightarrow> csigner \<Rightarrow> outmsg" where
  "relay_frame ty sender =
     mk_outmsg ty (sg_r1_sig sender) (of_nat FROST_FRAME_SIG_SIZE) (relay_payload sender) (relay_len sender)"

definition relay_to_all :: "frost_msg_t \<Rightarrow> csigner \<Rightarrow> coord \<Rightarrow> coord" where
  "relay_to_all ty sender c =
     c\<lparr>signers := map (\<lambda>s. if sg_id s \<noteq> sg_id sender
        then signer_send ty (sg_r1_sig sender) (of_nat FROST_FRAME_SIG_SIZE)
               (relay_payload sender) (relay_len sender) s
        else s) (signers c)\<rparr>"

definition relay_r1_to_all :: "csigner \<Rightarrow> coord \<Rightarrow> coord" where
  "relay_r1_to_all = relay_to_all FROST_MSG_RELAY_R1"

definition relay_refresh_r1_to_all :: "csigner \<Rightarrow> coord \<Rightarrow> coord" where
  "relay_refresh_r1_to_all = relay_to_all FROST_MSG_RELAY_REFRESH_R1"

text \<open>
  Routing reads \<open>slen\<close> bytes from the signature pointer once the target is found; beyond the
  sender's receive buffer that is out of bounds.
\<close>

definition relay_r2 :: "frost_msg_t \<Rightarrow> u16 \<Rightarrow> bytes \<Rightarrow> u16 \<Rightarrow> bytes \<Rightarrow> u16 \<Rightarrow> coord \<Rightarrow> coord outcome" where
  "relay_r2 ty target sig slen payload plen c =
     (case find_signer target c of None \<Rightarrow> Cont c
      | Some _ \<Rightarrow>
          if unat slen > length sig then Undef
          else Cont (upd_signer target (signer_send ty sig slen payload plen) c))"

definition relay_r2_to_target :: "u16 \<Rightarrow> bytes \<Rightarrow> u16 \<Rightarrow> bytes \<Rightarrow> u16 \<Rightarrow> coord \<Rightarrow> coord outcome" where
  "relay_r2_to_target = relay_r2 FROST_MSG_RELAY_R2"

section \<open>Key generation\<close>

definition have_r1 :: "coord \<Rightarrow> nat" where
  "have_r1 c = length (filter (\<lambda>s. sg_r1_pkg s \<noteq> []) (signers c))"

definition have_r2 :: "coord \<Rightarrow> nat" where
  "have_r2 c = length (filter sg_r2_complete (signers c))"

definition start_text :: "string \<Rightarrow> coord \<Rightarrow> bytes" where
  "start_text cmd c = str_bytes (cmd @ '' '' @ fmt_u (unat (g_n c)) @ '' '' @ fmt_u (unat (g_t c)) @ [NL])"

definition maybe_start_dkg :: "coord \<Rightarrow> coord" where
  "maybe_start_dkg c =
     (if g_dkg_state c \<noteq> DKG_IDLE then c
      else if length (signers c) < unat (g_n c) then c
      else broadcast FROST_MSG_START_DKG (start_text ''START_DKG'' c) (c\<lparr>g_dkg_state := DKG_COLLECTING_R1\<rparr>))"

definition check_r1_complete :: "coord \<Rightarrow> coord" where
  "check_r1_complete c =
     (if have_r1 c < unat (g_n c) then c
      else fold relay_r1_to_all (signers c) (c\<lparr>g_dkg_state := DKG_COLLECTING_R2\<rparr>))"

definition check_r2_complete :: "coord \<Rightarrow> coord" where
  "check_r2_complete c =
     (if have_r2 c < unat (g_n c) then c
      else (broadcast FROST_MSG_DKG_DONE (str_bytes (''DKG_DONE '' @ fmt_u (unat (g_n c)) @ [NL])) c)
             \<lparr>g_dkg_state := DKG_COMPLETE\<rparr>)"

section \<open>Share refresh\<close>

definition maybe_start_refresh :: "coord \<Rightarrow> coord" where
  "maybe_start_refresh c =
     (if g_dkg_state c \<noteq> DKG_IDLE then c
      else if length (signers c) < unat (g_n c) then c
      else broadcast FROST_MSG_START_REFRESH (start_text ''START_REFRESH'' c) (c\<lparr>g_dkg_state := DKG_COLLECTING_R1\<rparr>))"

definition check_refresh_r1_complete :: "coord \<Rightarrow> coord" where
  "check_refresh_r1_complete c =
     (if have_r1 c < unat (g_n c) then c
      else fold relay_refresh_r1_to_all (signers c) (c\<lparr>g_dkg_state := DKG_COLLECTING_R2\<rparr>))"

definition check_refresh_r2_complete :: "coord \<Rightarrow> coord" where
  "check_refresh_r2_complete c =
     (if have_r2 c < unat (g_n c) then c
      else (broadcast FROST_MSG_REFRESH_FINALIZE [] c)\<lparr>g_dkg_state := DKG_COMPLETE\<rparr>)"

definition check_refresh_all_confirmed :: "coord \<Rightarrow> coord" where
  "check_refresh_all_confirmed c =
     (if g_refresh_complete_count c < unat (g_n c) then c
      else (broadcast FROST_MSG_REFRESH_CONFIRMED [] c)\<lparr>g_signing_done := True\<rparr>)"

section \<open>What a relay round queues\<close>

lemma relay_fold:
  "fold (relay_to_all ty) ps c =
     c\<lparr>signers := map (\<lambda>s. s\<lparr>sg_msgq := sg_msgq s
        @ map (relay_frame ty) (filter (\<lambda>p. sg_id p \<noteq> sg_id s) ps)\<rparr>) (signers c)\<rparr>"
  by (induction ps arbitrary: c) (auto simp: relay_to_all_def signer_send_def relay_frame_def)

lemma check_r1_complete_relays:
  assumes "have_r1 c = unat (g_n c)"
  shows "check_r1_complete c =
     c\<lparr>g_dkg_state := DKG_COLLECTING_R2,
       signers := map (\<lambda>s. s\<lparr>sg_msgq := sg_msgq s
         @ map (relay_frame FROST_MSG_RELAY_R1) (filter (\<lambda>p. sg_id p \<noteq> sg_id s) (signers c))\<rparr>) (signers c)\<rparr>"
  using assms by (simp add: check_r1_complete_def relay_r1_to_all_def relay_fold)

lemma unat_relay_len:
  "length (sg_r1_pkg p) \<le> FROST_MAX_PAYLOAD \<Longrightarrow> unat (relay_len p) = length (sg_r1_pkg p) + 2"
  unfolding relay_len_def by (rule unat_of_nat_u16) (simp add: frost_consts)

lemma relay_len_payload: "relay_len p = of_nat (length (relay_payload p))"
  by (simp add: relay_len_def relay_payload_def)

text \<open>A package of at most \<open>FROST_MAX_PAYLOAD - 2\<close> bytes is relayed in a well-formed frame.\<close>

lemma relay_frame_ok:
  assumes "length (sg_r1_pkg p) + 2 \<le> FROST_MAX_PAYLOAD" "length (sg_r1_sig p) = FROST_FRAME_SIG_SIZE"
  shows "relay_frame ty p =
    \<lparr>om_len = FROST_FRAME_HDR + FROST_FRAME_SIG_SIZE + length (relay_payload p), om_sent = 0,
     om_data = Some ([msg_code ty] @ be16_bytes (of_nat (length (relay_payload p)))
       @ be16_bytes (of_nat FROST_FRAME_SIG_SIZE) @ sg_r1_sig p @ relay_payload p)\<rparr>"
  using assms unat_relay_len [of p]
  by (simp add: relay_frame_def mk_outmsg_def frost_encode_frame_def flip: relay_len_payload)
     (simp add: relay_payload_def frost_consts)

text \<open>
  One of 23999 or 24000 bytes is accepted from its sender, but the relayed payload is two
  bytes longer than a frame may carry: the encoder refuses it and an unwritten buffer of the
  full length is queued.
\<close>

lemma relay_frame_too_long:
  assumes "FROST_MAX_PAYLOAD < length (sg_r1_pkg p) + 2" "length (sg_r1_pkg p) \<le> FROST_MAX_PAYLOAD"
  shows "om_data (relay_frame ty p) = None \<and>
     om_len (relay_frame ty p) = FROST_FRAME_HDR + FROST_FRAME_SIG_SIZE + length (sg_r1_pkg p) + 2"
  using assms unat_relay_len [of p]
  by (simp add: relay_frame_def mk_outmsg_def frost_encode_frame_def) (simp add: frost_consts)

end
