(* ===== verification/Coord_Roast.thy ===== *)
theory Coord_Roast
  imports Coord_Cert Coord_DKG
begin

text \<open>
  ROAST session management (\<^verbatim>\<open>frost_coordinator.c\<close>): choosing the signers of a session,
  forming it, aggregating its shares, the identifiable abort, the fallback, and the expiry
  of sessions that stay silent.
\<close>

section \<open>Sign requests\<close>

definition reset_signer :: "bytes \<Rightarrow> csigner \<Rightarrow> csigner" where
  "reset_signer tbs s =
     send_plain FROST_MSG_SIGN_REQ tbs
       (s\<lparr>sg_phase := SPHASE_INIT, sg_commit := [], sg_sig_share := [], sg_session_id := 0\<rparr>)"

definition eligible :: "u16 list \<Rightarrow> csigner \<Rightarrow> bool" where
  "eligible bl s \<longleftrightarrow> \<not> is_blacklisted bl (sg_id s) \<and> sg_phase s \<noteq> SPHASE_NO_KEY"

definition broadcast_sign_req :: "coord \<Rightarrow> coord" where
  "broadcast_sign_req c =
     c\<lparr>signers := map (\<lambda>s. if eligible (g_blacklist c) s then reset_signer (g_tbs c) s else s) (signers c)\<rparr>"

definition remaining :: "coord \<Rightarrow> nat" where
  "remaining c = length (filter (eligible (g_blacklist c)) (signers c))"

definition roast_do_no_eligible_remain :: "coord \<Rightarrow> bool" where
  "roast_do_no_eligible_remain c \<longleftrightarrow> remaining c < unat (g_t c)"

section \<open>Forming a session\<close>

definition reliable :: "coord \<Rightarrow> csigner \<Rightarrow> bool" where
  "reliable c s \<longleftrightarrow> sg_phase s = SPHASE_COMMITTED \<and> \<not> is_blacklisted (g_blacklist c) (sg_id s) \<and>
     sg_commit s \<noteq> [] \<and> get_strikes (g_strikes c) (sg_id s) = 0"

definition suspect :: "coord \<Rightarrow> csigner \<Rightarrow> bool" where
  "suspect c s \<longleftrightarrow> (sg_phase s = SPHASE_COMMITTED \<or> sg_phase s = SPHASE_SUSPECT) \<and> sg_commit s \<noteq> [] \<and>
     \<not> is_blacklisted (g_blacklist c) (sg_id s) \<and> get_strikes (g_strikes c) (sg_id s) > 0"

text \<open>The first scan also counts the connections it looks at.\<close>

fun select_pass1 :: "coord \<Rightarrow> nat \<Rightarrow> u16 list \<Rightarrow> nat \<Rightarrow> csigner list \<Rightarrow> u16 list \<times> nat" where
  "select_pass1 c t chosen num [] = (chosen, num)"
| "select_pass1 c t chosen num (s # ss) =
     (if length chosen \<ge> t then (chosen, num + 1)
      else if reliable c s then select_pass1 c t (chosen @ [sg_id s]) (num + 1) ss
      else select_pass1 c t chosen (num + 1) ss)"

fun select_pass2 :: "coord \<Rightarrow> nat \<Rightarrow> u16 list \<Rightarrow> csigner list \<Rightarrow> u16 list" where
  "select_pass2 c t chosen [] = chosen"
| "select_pass2 c t chosen (s # ss) =
     (if length chosen \<ge> t then chosen
      else if suspect c s \<and> sg_id s \<notin> set chosen then select_pass2 c t (chosen @ [sg_id s]) ss
      else select_pass2 c t chosen ss)"

definition select_signers :: "coord \<Rightarrow> u16 list \<times> nat" where
  "select_signers c =
     (let t = unat (g_t c) in
      case select_pass1 c t [] 0 (signers c) of
        (chosen, num) \<Rightarrow>
          (if length chosen < t then select_pass2 c t chosen (signers c) else chosen, num))"

text \<open>One bundle entry per chosen id; a commitment that is too long abandons the session.\<close>

definition zero_entry :: frost_commit_entry where
  "zero_entry = \<lparr>ce_id = 0, ce_commit = [], ce_commit_sig = replicate FROST_FRAME_SIG_SIZE 0\<rparr>"

fun bundle_entries :: "coord \<Rightarrow> u16 list \<Rightarrow> frost_commit_entry list option" where
  "bundle_entries c [] = Some []"
| "bundle_entries c (i # is) =
     (case find_signer i c of
        None \<Rightarrow> map_option (\<lambda>es. zero_entry # es) (bundle_entries c is)
      | Some s \<Rightarrow>
          if length (sg_commit s) > FROST_COMMIT_ENTRY_MAX then None
          else map_option (\<lambda>es. \<lparr>ce_id = sg_id s, ce_commit = sg_commit s, ce_commit_sig = sg_commit_sig s\<rparr> # es)
                 (bundle_entries c is))"

definition bundle_tbs :: "coord \<Rightarrow> bytes" where
  "bundle_tbs c =
     (let k = length (g_tbs c) div 2 in
      if g_fault c then (g_tbs c)[k := g_tbs c ! k XOR 0xFF] else g_tbs c)"

definition make_bundle :: "coord \<Rightarrow> u16 list \<Rightarrow> frost_commit_bundle option" where
  "make_bundle c chosen =
     (case bundle_entries c chosen of None \<Rightarrow> None
      | Some es \<Rightarrow>
          if length (g_tbs c) > FROST_MAX_PAYLOAD then None
          else Some \<lparr>cb_entries = es, cb_tbs = bundle_tbs c\<rparr>)"

definition join_session :: "u32 \<Rightarrow> bytes \<Rightarrow> csigner \<Rightarrow> csigner" where
  "join_session sid wire s =
     send_plain FROST_MSG_RELAY_COMMIT wire (s\<lparr>sg_phase := SPHASE_IN_SESSION, sg_session_id := sid\<rparr>)"

definition new_session :: "cenv \<Rightarrow> u32 \<Rightarrow> u16 list \<Rightarrow> bytes \<Rightarrow> roast_session" where
  "new_session env sid chosen spkg =
     \<lparr>rs_id = sid, rs_state = RSESS_AWAITING_SHARES,
      rs_deadline = e_form_time env sid + ROAST_SESSION_TIMEOUT_SEC, rs_signer_ids = chosen,
      rs_signing_pkg = spkg, rs_shares = replicate FROST_MAX_SIGNERS [], rs_n_shares = 0\<rparr>"

definition start_session :: "cenv \<Rightarrow> nat \<Rightarrow> u16 list \<Rightarrow> bytes \<Rightarrow> bytes \<Rightarrow> coord \<Rightarrow> coord" where
  "start_session env slot chosen spkg wire c =
     (let sid = g_next_session_id c;
          c1 = c\<lparr>g_next_session_id := sid + 1,
                 g_sessions := (g_sessions c)[slot := new_session env sid chosen spkg]\<rparr>
      in fold (\<lambda>i. upd_signer i (join_session sid wire)) chosen c1)"

definition roast_try_form_session :: "cenv \<Rightarrow> coord \<Rightarrow> bool \<times> coord" where
  "roast_try_form_session env c =
     (if g_signing_done c then (False, c)
      else (case select_signers c of (chosen, num) \<Rightarrow>
        if num < unat (g_t c) then (False, c)
        else if length chosen < unat (g_t c) then (False, c)
        else (case roast_alloc (g_sessions c) of None \<Rightarrow> (False, c)
         | Some slot \<Rightarrow>
             (case make_bundle c chosen of None \<Rightarrow> (False, c)
              | Some b \<Rightarrow>
                  (case frost_assemble_signing_package (e_exec env) b of None \<Rightarrow> (False, c)
                   | Some spkg \<Rightarrow>
                       (case frost_pack_commit_bundle FROST_COMMIT_BUNDLE_WIRE_MAX b of None \<Rightarrow> (False, c)
                        | Some wire \<Rightarrow>
                            if length wire > FROST_MAX_PAYLOAD then (False, c)
                            else (True, start_session env slot chosen spkg wire c)))))))"

definition form_if_room :: "cenv \<Rightarrow> coord \<Rightarrow> coord" where
  "form_if_room env c =
     (if \<not> g_signing_done c \<and> roast_active_count (g_sessions c) < ROAST_MAX_SESSIONS
      then snd (roast_try_form_session env c) else c)"

section \<open>Identifiable abort\<close>

definition session_failed :: "nat \<Rightarrow> coord \<Rightarrow> coord" where
  "session_failed i c = upd_session i (rs_state_update (\<lambda>_. RSESS_FAILED)) c"

definition exclude :: "u16 \<Rightarrow> coord \<Rightarrow> coord" where
  "exclude sid c =
     upd_signer sid (sg_phase_update (\<lambda>_. SPHASE_BLACKLISTED))
       (c\<lparr>g_blacklist := blacklist_signer sid (g_blacklist c)\<rparr>)"

definition roast_fail_culprit :: "cenv \<Rightarrow> nat \<Rightarrow> u16 \<Rightarrow> coord \<Rightarrow> coord" where
  "roast_fail_culprit env i culprit c =
     (let members = rs_signer_ids (g_sessions c ! i);
          c1 = exclude culprit (session_failed i c);
          c2 = fold (\<lambda>sid. upd_signer sid (reset_signer (g_tbs c))) (filter (\<lambda>sid. sid \<noteq> culprit) members) c1;
          c3 = form_if_room env c2
      in c3\<lparr>g_roast_fail := roast_do_no_eligible_remain c3\<rparr>)"

section \<open>Aggregation\<close>

definition present_shares :: "roast_session \<Rightarrow> (u16 \<times> bytes) list" where
  "present_shares s = filter (\<lambda>(_, sh). sh \<noteq> []) (zip (rs_signer_ids s) (rs_shares s))"

definition aggregate_stdin :: "coord \<Rightarrow> roast_session \<Rightarrow> string" where
  "aggregate_stdin c s =
     bytes_to_hex (rs_signing_pkg s) @ [NL] @ bytes_to_hex (g_pub_key_pkg c) @ [NL]
     @ concat (map (\<lambda>(sid, sh). fmt_u (unat sid) @ '' '' @ bytes_to_hex sh @ [NL]) (present_shares s))"

definition aggregate_cmd :: "coord \<Rightarrow> string" where
  "aggregate_cmd c = FROST_CORE_BIN @ '' aggregate --t '' @ fmt_u (unat (g_t c))"

text \<open>The core did not name a culprit: everybody in the session is excluded.\<close>

definition roast_fail_unknown :: "nat \<Rightarrow> coord \<Rightarrow> coord" where
  "roast_fail_unknown i c =
     (let c1 = fold exclude (rs_signer_ids (g_sessions c ! i)) (session_failed i c);
          c2 = (if remaining c1 < unat (g_t c1) then c1\<lparr>g_signing_done := True\<rparr> else c1)
      in broadcast_sign_req c2)"

definition session_fail :: "cenv \<Rightarrow> nat \<Rightarrow> string \<Rightarrow> coord \<Rightarrow> coord" where
  "session_fail env i line c =
     (let culprit = of_int (atol (drop 8 line)) :: u16 in
      if starts_with ''CULPRIT:'' line \<and> unat culprit > 0 \<and> unat culprit \<le> FROST_MAX_SIGNERS
      then roast_fail_culprit env i culprit c
      else roast_fail_unknown i c)"

definition session_complete :: "cenv \<Rightarrow> nat \<Rightarrow> bytes \<Rightarrow> coord \<Rightarrow> coord outcome" where
  "session_complete env i sig64 c =
     (let c1 = (upd_session i (rs_state_update (\<lambda>_. RSESS_COMPLETE)) c)\<lparr>g_signing_done := True\<rparr> in
      case call_mint env sig64 c1 of
        Cont (ok, c2) \<Rightarrow> Cont (if ok then broadcast FROST_MSG_CERT_OUTPUT [] c2 else c2)
      | Exit rc (_, c2) \<Rightarrow> Exit rc c2
      | Undef \<Rightarrow> Undef)"

definition roast_try_aggregate :: "cenv \<Rightarrow> nat \<Rightarrow> coord \<Rightarrow> coord outcome" where
  "roast_try_aggregate env i c =
     (let s = g_sessions c ! i in
      if rs_n_shares s < unat (g_t c) \<or> g_signing_done c then Cont c
      else (case e_exec env (aggregate_cmd c) (aggregate_stdin c s) of None \<Rightarrow> Cont c
        | Some (out, code) \<Rightarrow>
            (case fgets 256 out of
               None \<Rightarrow> Cont (session_fail env i [] c)
             | Some (l, _) \<Rightarrow>
                 if code = 0 \<and> \<not> starts_with ''CULPRIT:'' l then
                   (case hex_to_bytes (cut_crlf l) 64 of
                      Some sig64 \<Rightarrow>
                        if length sig64 = 64 then session_complete env i sig64 c
                        else Cont (session_fail env i (cut_crlf l) c)
                    | None \<Rightarrow> Cont (session_fail env i (cut_crlf l) c))
                 else Cont (session_fail env i (cut_crlf l) c))))"

section \<open>Expiry\<close>

definition penalise :: "bytes \<Rightarrow> csigner \<Rightarrow> csigner" where
  "penalise tbs s =
     send_plain FROST_MSG_SIGN_REQ tbs
       (s\<lparr>sg_phase := SPHASE_SUSPECT, sg_commit := [], sg_sig_share := [], sg_session_id := 0\<rparr>)"

definition expire_member :: "u16 \<times> bytes \<Rightarrow> coord \<Rightarrow> coord" where
  "expire_member m c =
     (case m of (sid, share) \<Rightarrow>
        case find_signer sid c of None \<Rightarrow> c
        | Some _ \<Rightarrow>
            if share \<noteq> [] then upd_signer sid (reset_signer (g_tbs c)) c
            else (let c1 = c\<lparr>g_strikes := add_strike sid (g_strikes c)\<rparr> in
                  if get_strikes (g_strikes c1) sid \<ge> FROST_MAX_STRIKES then exclude sid c1
                  else upd_signer sid (penalise (g_tbs c1)) c1))"

definition session_members :: "roast_session \<Rightarrow> (u16 \<times> bytes) list" where
  "session_members s = zip (rs_signer_ids s) (rs_shares s)"

definition expire_slot :: "cenv \<Rightarrow> nat \<Rightarrow> coord \<Rightarrow> coord" where
  "expire_slot env i c =
     (let s = g_sessions c ! i in
      if rs_state s \<noteq> RSESS_AWAITING_SHARES then c
      else if e_now env < rs_deadline s then c
      else form_if_room env (fold expire_member (session_members s) (session_failed i c)))"

definition roast_expire_sessions :: "cenv \<Rightarrow> coord \<Rightarrow> coord" where
  "roast_expire_sessions env c = fold (expire_slot env) [0..<ROAST_MAX_SESSIONS] c"

section \<open>Selection is a prefix of the reliable signers followed by the suspects\<close>

lemma select_pass1_spec:
  "length chosen \<le> t \<Longrightarrow> select_pass1 c t chosen num ss = (chosen', num') \<Longrightarrow>
   chosen' = take t (chosen @ map sg_id (filter (reliable c) ss)) \<and> num' \<le> num + length ss \<and>
   (length chosen' < t \<longrightarrow> num' = num + length ss)"
proof (induction ss arbitrary: chosen num)
  case (Cons s ss)
  show ?case
  proof (cases "length chosen \<ge> t")
    case True
    with Cons.prems show ?thesis by auto
  next
    case False
    then show ?thesis
      using Cons.IH [of "chosen @ [sg_id s]" "num + 1"] Cons.IH [of chosen "num + 1"] Cons.prems
      by (cases "reliable c s") auto
  qed
qed simp

lemma reliable_not_suspect: "reliable c s \<Longrightarrow> suspect c s' \<Longrightarrow> sg_id s \<noteq> sg_id s'"
  by (auto simp: reliable_def suspect_def)

lemma select_pass2_spec:
  "length chosen \<le> t \<Longrightarrow> distinct (map sg_id ss) \<Longrightarrow>
   (\<forall>s \<in> set ss. suspect c s \<longrightarrow> sg_id s \<notin> set chosen) \<Longrightarrow>
   select_pass2 c t chosen ss = take t (chosen @ map sg_id (filter (suspect c) ss))"
proof (induction ss arbitrary: chosen)
  case (Cons s ss)
  show ?case
  proof (cases "length chosen \<ge> t")
    case False
    then show ?thesis
    proof (cases "suspect c s")
      case True
      have "select_pass2 c t (chosen @ [sg_id s]) ss
          = take t ((chosen @ [sg_id s]) @ map sg_id (filter (suspect c) ss))"
        by (rule Cons.IH) (use False Cons.prems in \<open>auto simp: image_iff\<close>)
      with True False Cons.prems show ?thesis by simp
    next
      case not: False
      with False Cons show ?thesis by simp
    qed
  qed (use Cons.prems in simp)
qed simp

lemma select_signers_spec:
  assumes "distinct (map sg_id (signers c))"
  shows "fst (select_signers c) =
    take (unat (g_t c)) (map sg_id (filter (reliable c) (signers c) @ filter (suspect c) (signers c)))"
proof -
  let ?t = "unat (g_t c)" and ?rel = "map sg_id (filter (reliable c) (signers c))"
  obtain ch num where p1: "select_pass1 c ?t [] 0 (signers c) = (ch, num)" by force
  have ch: "ch = take ?t ?rel" using select_pass1_spec [OF _ p1] by simp
  show ?thesis
  proof (cases "length ch < ?t")
    case True
    then have "ch = ?rel" using ch by (simp add: min_def split: if_splits)
    moreover have "select_pass2 c ?t ch (signers c) = take ?t (ch @ map sg_id (filter (suspect c) (signers c)))"
      using assms True \<open>ch = ?rel\<close> reliable_not_suspect by (intro select_pass2_spec) fastforce+
    ultimately show ?thesis using p1 True by (simp add: select_signers_def Let_def)
  next
    case False
    then show ?thesis using p1 ch by (simp add: select_signers_def Let_def)
  qed
qed

end
