(* ===== verification/Coord_Inv.thy ===== *)
theory Coord_Inv
  imports Coord_Roast
begin

text \<open>
  The coordinator's data invariant, and that the operations of the DKG relay and of ROAST
  session management keep it. It says that ids are unique and in range, that every array
  keeps its size and every stored message its bound, that the sessions have the size the
  threshold asks for, and that strikes and blacklist agree.
\<close>

section \<open>The invariant\<close>

definition signer_ok :: "csigner \<Rightarrow> bool" where
  "signer_ok s \<longleftrightarrow> id_ok (sg_id s) \<and> rx_ok (sg_rx s) \<and>
     length (sg_r1_sig s) = FROST_FRAME_SIG_SIZE \<and> length (sg_commit_sig s) = FROST_FRAME_SIG_SIZE \<and>
     length (sg_r1_pkg s) \<le> FROST_MAX_PAYLOAD \<and> length (sg_pub_key_pkg s) \<le> FROST_MAX_PAYLOAD \<and>
     length (sg_commit s) \<le> FROST_COMMIT_ENTRY_MAX"

definition signers_ok :: "csigner list \<Rightarrow> bool" where
  "signers_ok ss \<longleftrightarrow> distinct (map sg_id ss) \<and> list_all signer_ok ss"

definition staged_ok :: "staged_conn list \<Rightarrow> bool" where
  "staged_ok ss \<longleftrightarrow> distinct (map st_sock ss) \<and> list_all (\<lambda>s. rx_ok (st_rx s)) ss"

definition params_ok :: "u16 \<Rightarrow> u16 \<Rightarrow> bool" where
  "params_ok n t \<longleftrightarrow> 1 \<le> unat t \<and> unat t \<le> unat n \<and> 2 \<le> unat n \<and> unat n \<le> FROST_MAX_SIGNERS"

definition session_ok :: "u16 \<Rightarrow> roast_session \<Rightarrow> bool" where
  "session_ok t s \<longleftrightarrow> length (rs_shares s) = FROST_MAX_SIGNERS \<and> list_all (\<lambda>x. length x \<le> FROST_MAX_PAYLOAD) (rs_shares s) \<and>
     length (rs_signing_pkg s) \<le> FROST_MAX_PAYLOAD \<and> distinct (rs_signer_ids s) \<and> list_all id_ok (rs_signer_ids s) \<and>
     (rs_state s \<noteq> RSESS_EMPTY \<longrightarrow> length (rs_signer_ids s) = unat t \<and> 0 < unat t)"

definition sessions_ok :: "u16 \<Rightarrow> u16 \<Rightarrow> roast_session list \<Rightarrow> bool" where
  "sessions_ok n t ss \<longleftrightarrow> length ss = ROAST_MAX_SESSIONS \<and> list_all (session_ok t) ss \<and>
     (n = 0 \<longrightarrow> list_all (\<lambda>s. rs_state s = RSESS_EMPTY) ss)"

definition penalties_ok :: "nat list \<Rightarrow> u16 list \<Rightarrow> bool" where
  "penalties_ok tab bl \<longleftrightarrow> strikes_ok tab \<and> blacklist_ok bl \<and> list_all id_ok bl \<and>
     (\<forall>sid. get_strikes tab sid \<ge> FROST_MAX_STRIKES \<longrightarrow> is_blacklisted bl sid)"

definition buffers_ok :: "coord \<Rightarrow> bool" where
  "buffers_ok c \<longleftrightarrow> length (g_tbs c) \<le> FROST_MAX_PAYLOAD \<and> length (g_pub_key_pkg c) \<le> FROST_MAX_PAYLOAD \<and>
     length (g_tracking_bytes_sent c) = FROST_MAX_SIGNERS + 1 \<and> length (g_tracking_bytes_rcvd c) = FROST_MAX_SIGNERS + 1 \<and>
     cache_ok (key_cache c)"

definition coord_inv :: "coord \<Rightarrow> bool" where
  "coord_inv c \<longleftrightarrow> signers_ok (signers c) \<and> staged_ok (staged c) \<and>
     (signers c \<noteq> [] \<longrightarrow> params_ok (g_n c) (g_t c)) \<and>
     sessions_ok (g_n c) (g_t c) (g_sessions c) \<and> penalties_ok (g_strikes c) (g_blacklist c) \<and> buffers_ok c"

lemma coord_invD:
  assumes "coord_inv c"
  shows "signers_ok (signers c)" "staged_ok (staged c)" "signers c \<noteq> [] \<Longrightarrow> params_ok (g_n c) (g_t c)"
    "sessions_ok (g_n c) (g_t c) (g_sessions c)" "penalties_ok (g_strikes c) (g_blacklist c)" "buffers_ok c"
  using assms by (auto simp: coord_inv_def)

text \<open>An operation that only changes parts which are fine again keeps the invariant.\<close>

lemma coord_inv_signers:
  "coord_inv c \<Longrightarrow> signers_ok ss \<Longrightarrow> (ss \<noteq> [] \<Longrightarrow> signers c \<noteq> []) \<Longrightarrow> coord_inv (c\<lparr>signers := ss\<rparr>)"
  by (auto simp: coord_inv_def buffers_ok_def)

lemma coord_inv_sessions:
  "coord_inv c \<Longrightarrow> sessions_ok (g_n c) (g_t c) ss \<Longrightarrow> coord_inv (c\<lparr>g_sessions := ss\<rparr>)"
  by (auto simp: coord_inv_def buffers_ok_def)

lemma coord_inv_penalties:
  "coord_inv c \<Longrightarrow> penalties_ok tab bl \<Longrightarrow> coord_inv (c\<lparr>g_strikes := tab, g_blacklist := bl\<rparr>)"
  by (auto simp: coord_inv_def buffers_ok_def)

lemma coord_inv_flags [simp]:
  "coord_inv (c\<lparr>g_signing_done := b\<rparr>) = coord_inv c" "coord_inv (c\<lparr>g_roast_fail := b\<rparr>) = coord_inv c"
  "coord_inv (c\<lparr>g_dkg_state := d\<rparr>) = coord_inv c" "coord_inv (c\<lparr>g_next_session_id := k\<rparr>) = coord_inv c"
  "coord_inv (c\<lparr>g_refresh_complete_count := r\<rparr>) = coord_inv c" "coord_inv (c\<lparr>files_written := fs\<rparr>) = coord_inv c"
  "coord_inv (c\<lparr>g_num_minted := m\<rparr>) = coord_inv c" "coord_inv (c\<lparr>g_to_mint := m\<rparr>) = coord_inv c"
  "coord_inv (c\<lparr>g_serial := m\<rparr>) = coord_inv c" "coord_inv (c\<lparr>g_output_file := txt\<rparr>) = coord_inv c"
  "coord_inv (c\<lparr>g_dummy_cert := txt\<rparr>) = coord_inv c" "coord_inv (c\<lparr>g_tbs_hex := txt\<rparr>) = coord_inv c"
  by (simp_all add: coord_inv_def buffers_ok_def)

section \<open>Updating signers\<close>

definition keeps_signer :: "(csigner \<Rightarrow> csigner) \<Rightarrow> bool" where
  "keeps_signer f \<longleftrightarrow> (\<forall>s. sg_id (f s) = sg_id s \<and> (signer_ok s \<longrightarrow> signer_ok (f s)))"

lemma keeps_signerD: "keeps_signer f \<Longrightarrow> sg_id (f s) = sg_id s" "keeps_signer f \<Longrightarrow> signer_ok s \<Longrightarrow> signer_ok (f s)"
  by (auto simp: keeps_signer_def)

lemma keeps_signer_send [simp]:
  "sg_id (signer_send ty sig sl p pl s) = sg_id s" "signer_ok (signer_send ty sig sl p pl s) = signer_ok s"
  "sg_id (send_plain ty p s) = sg_id s" "signer_ok (send_plain ty p s) = signer_ok s"
  by (simp_all add: signer_send_def send_plain_def signer_ok_def)

lemma keeps_signer_ops [simp]:
  "keeps_signer (signer_send ty sig sl p pl)" "keeps_signer (send_plain ty p)"
  "keeps_signer (reset_signer tbs)" "keeps_signer (penalise tbs)" "keeps_signer (join_session sid w)"
  "keeps_signer (sg_phase_update g)" "keeps_signer (sg_want_write_update h)"
  by (simp_all add: keeps_signer_def reset_signer_def penalise_def join_session_def) (simp_all add: signer_ok_def)

lemma map_signers_ok:
  "signers_ok ss \<Longrightarrow> keeps_signer f \<Longrightarrow> signers_ok (map (\<lambda>s. if P s then f s else s) ss)"
  by (auto simp: signers_ok_def list_all_iff keeps_signerD comp_def if_distrib [of sg_id] cong: if_cong)

lemma update_first_as_map:
  "signers_ok ss \<Longrightarrow> update_first (\<lambda>s. sg_id s = i) f ss = map (\<lambda>s. if sg_id s = i then f s else s) ss"
  by (simp add: signers_ok_def update_first_distinct)

lemma upd_signer_inv: "coord_inv c \<Longrightarrow> keeps_signer f \<Longrightarrow> coord_inv (upd_signer i f c)"
  unfolding upd_signer_def
  by (rule coord_inv_signers) (auto simp: update_first_as_map map_signers_ok dest: coord_invD)

lemma map_signers_inv:
  "coord_inv c \<Longrightarrow> keeps_signer f \<Longrightarrow> coord_inv (c\<lparr>signers := map (\<lambda>s. if P s then f s else s) (signers c)\<rparr>)"
  by (rule coord_inv_signers) (auto simp: map_signers_ok dest: coord_invD)

lemma broadcast_inv: "coord_inv c \<Longrightarrow> coord_inv (broadcast ty p c)"
  using map_signers_inv [of c "send_plain ty p" "\<lambda>_. True"] by (simp add: broadcast_def)

lemma fold_inv: "(\<And>x c. x \<in> set xs \<Longrightarrow> P c \<Longrightarrow> P (f x c)) \<Longrightarrow> P c \<Longrightarrow> P (fold f xs c)"
  by (induction xs arbitrary: c) auto

lemma fold_upd_signer:
  "fold (\<lambda>i. upd_signer i f) is c
     = c\<lparr>signers := fold (\<lambda>i. update_first (\<lambda>s. sg_id s = i) f) is (signers c)\<rparr>"
  by (induction "is" arbitrary: c) (auto simp: upd_signer_def)

lemma fold_update_first:
  "signers_ok ss \<Longrightarrow> keeps_signer f \<Longrightarrow> distinct is \<Longrightarrow>
   fold (\<lambda>i. update_first (\<lambda>s. sg_id s = i) f) is ss = map (\<lambda>s. if sg_id s \<in> set is then f s else s) ss"
proof (induction "is" arbitrary: ss)
  case (Cons i "is")
  have "signers_ok (map (\<lambda>s. if sg_id s = i then f s else s) ss)"
    using Cons.prems by (intro map_signers_ok)
  with Cons show ?case
    by (auto simp: update_first_as_map keeps_signerD)
qed simp

section \<open>DKG relay\<close>

lemma relay_to_all_inv: "coord_inv c \<Longrightarrow> coord_inv (relay_to_all ty p c)"
  unfolding relay_to_all_def by (rule map_signers_inv) simp_all

lemma relays_inv: "coord_inv c \<Longrightarrow> coord_inv (fold (relay_to_all ty) ps c)"
  by (rule fold_inv) (auto intro: relay_to_all_inv)

lemma dkg_ops_inv:
  assumes "coord_inv c"
  shows "coord_inv (maybe_start_dkg c)" "coord_inv (check_r1_complete c)" "coord_inv (check_r2_complete c)"
    "coord_inv (maybe_start_refresh c)" "coord_inv (check_refresh_r1_complete c)"
    "coord_inv (check_refresh_r2_complete c)" "coord_inv (check_refresh_all_confirmed c)"
  using assms
  by (auto simp: maybe_start_dkg_def check_r1_complete_def check_r2_complete_def maybe_start_refresh_def
      check_refresh_r1_complete_def check_refresh_r2_complete_def check_refresh_all_confirmed_def
      relay_r1_to_all_def relay_refresh_r1_to_all_def intro!: broadcast_inv relays_inv)

section \<open>Penalties\<close>

lemma penalties_blacklist:
  "penalties_ok tab bl \<Longrightarrow> id_ok sid \<Longrightarrow> penalties_ok tab (blacklist_signer sid bl)"
  using excluded.member_mono
  by (auto simp: penalties_ok_def blacklist_signer_ok) (auto simp: blacklist_signer_def)

lemma penalties_strike:
  assumes "penalties_ok tab bl" "id_ok sid"
  shows "get_strikes (add_strike sid tab) sid < FROST_MAX_STRIKES \<Longrightarrow> penalties_ok (add_strike sid tab) bl"
    and "penalties_ok (add_strike sid tab) (blacklist_signer sid bl)"
proof -
  have p: "strikes_ok tab" "blacklist_ok bl" "list_all id_ok bl"
    "\<And>s. get_strikes tab s \<ge> FROST_MAX_STRIKES \<Longrightarrow> is_blacklisted bl s"
    using assms(1) by (auto simp: penalties_ok_def)
  note g = strikes.get_bump [OF p(1), of sid]
  show "get_strikes (add_strike sid tab) sid < FROST_MAX_STRIKES \<Longrightarrow> penalties_ok (add_strike sid tab) bl"
    using p g by (auto simp: penalties_ok_def strikes.bump_wf split: if_splits)
  have "is_blacklisted (blacklist_signer sid bl) sid"
    using p assms(2) by (intro blacklist_takes_effect) (auto simp: list_all_iff)
  then show "penalties_ok (add_strike sid tab) (blacklist_signer sid bl)"
    using p g penalties_blacklist [OF assms] excluded.member_mono
    by (auto simp: penalties_ok_def strikes.bump_wf split: if_splits)
qed

lemma exclude_inv: "coord_inv c \<Longrightarrow> id_ok sid \<Longrightarrow> coord_inv (exclude sid c)"
proof -
  assume c: "coord_inv c" and i: "id_ok sid"
  have "coord_inv (c\<lparr>g_strikes := g_strikes c, g_blacklist := blacklist_signer sid (g_blacklist c)\<rparr>)"
    using c i by (intro coord_inv_penalties penalties_blacklist) (auto dest: coord_invD)
  then show ?thesis unfolding exclude_def by (intro upd_signer_inv) simp_all
qed

section \<open>Sessions\<close>

lemma sessions_ok_update:
  "sessions_ok n t ss \<Longrightarrow> session_ok t s \<Longrightarrow> (n = 0 \<Longrightarrow> rs_state s = RSESS_EMPTY) \<Longrightarrow> sessions_ok n t (ss[i := s])"
  by (cases "i < length ss") (auto simp: sessions_ok_def list_all_length nth_list_update)

lemma sessions_ok_nth: "sessions_ok n t ss \<Longrightarrow> i < ROAST_MAX_SESSIONS \<Longrightarrow> session_ok t (ss ! i)"
  by (auto simp: sessions_ok_def list_all_length)

lemma upd_session_inv:
  assumes "coord_inv c" "i < ROAST_MAX_SESSIONS" "rs_state (g_sessions c ! i) \<noteq> RSESS_EMPTY"
    and "\<And>s. session_ok (g_t c) s \<Longrightarrow> rs_state s \<noteq> RSESS_EMPTY \<Longrightarrow> session_ok (g_t c) (f s)"
  shows "coord_inv (upd_session i f c)"
proof -
  have s: "sessions_ok (g_n c) (g_t c) (g_sessions c)" using assms(1) by (rule coord_invD)
  have "g_n c \<noteq> 0"
    using s assms(2,3) by (auto simp: sessions_ok_def list_all_length)
  then show ?thesis
    unfolding upd_session_def using assms s sessions_ok_nth [OF s assms(2)]
    by (intro coord_inv_sessions sessions_ok_update) auto
qed

lemma session_failed_inv:
  assumes "coord_inv c" "i < ROAST_MAX_SESSIONS" "rs_state (g_sessions c ! i) \<noteq> RSESS_EMPTY"
  shows "coord_inv (session_failed i c)"
  unfolding session_failed_def using assms by (intro upd_session_inv) (auto simp: session_ok_def)

lemma select_signers_sound:
  assumes "coord_inv c" "select_signers c = (chosen, num)"
  shows "distinct chosen" "length chosen \<le> unat (g_t c)"
    "\<And>i. i \<in> set chosen \<Longrightarrow> \<exists>s \<in> set (signers c). sg_id s = i \<and> (reliable c s \<or> suspect c s)"
proof -
  have d: "distinct (map sg_id (signers c))" using coord_invD(1) [OF assms(1)] by (simp add: signers_ok_def)
  have ch: "chosen = take (unat (g_t c)) (map sg_id (filter (reliable c) (signers c) @ filter (suspect c) (signers c)))"
    using select_signers_spec [OF d] assms(2) by simp
  have "distinct (map sg_id (filter (reliable c) (signers c) @ filter (suspect c) (signers c)))"
    using d by (auto simp: distinct_map_filter dest: reliable_not_suspect)
  then show "distinct chosen" unfolding ch by (rule distinct_take)
  show "length chosen \<le> unat (g_t c)" by (simp add: ch)
  show "\<And>i. i \<in> set chosen \<Longrightarrow> \<exists>s \<in> set (signers c). sg_id s = i \<and> (reliable c s \<or> suspect c s)"
    unfolding ch by (drule in_set_takeD) auto
qed

definition formed :: "cenv \<Rightarrow> coord \<Rightarrow> coord \<Rightarrow> u16 list \<Rightarrow> nat \<Rightarrow> frost_commit_bundle \<Rightarrow> bytes \<Rightarrow> bytes \<Rightarrow> bool" where
  "formed env c c' chosen slot b spkg wire \<longleftrightarrow>
     \<not> g_signing_done c \<and> chosen = fst (select_signers c) \<and> unat (g_t c) \<le> length chosen \<and>
     roast_alloc (g_sessions c) = Some slot \<and> make_bundle c chosen = Some b \<and>
     frost_assemble_signing_package (e_exec env) b = Some spkg \<and>
     frost_pack_commit_bundle FROST_COMMIT_BUNDLE_WIRE_MAX b = Some wire \<and> length wire \<le> FROST_MAX_PAYLOAD \<and>
     c' = start_session env slot chosen spkg wire c"

lemma roast_try_form_session_cases:
  assumes "roast_try_form_session env c = (ok, c')"
  shows "(\<not> ok \<and> c' = c) \<or> (ok \<and> (\<exists>chosen slot b spkg wire. formed env c c' chosen slot b spkg wire))"
proof (cases ok)
  case True
  obtain chosen num where sel: "select_signers c = (chosen, num)" by force
  with assms True have g: "\<not> g_signing_done c" "\<not> num < unat (g_t c)" "\<not> length chosen < unat (g_t c)"
    by (auto simp: roast_try_form_session_def split: if_split_asm)
  with assms True sel obtain slot where slot: "roast_alloc (g_sessions c) = Some slot"
    by (auto simp: roast_try_form_session_def split: option.split_asm)
  with assms True sel g obtain b where b: "make_bundle c chosen = Some b"
    by (auto simp: roast_try_form_session_def split: option.split_asm)
  with assms True sel g slot obtain spkg where spkg: "frost_assemble_signing_package (e_exec env) b = Some spkg"
    by (auto simp: roast_try_form_session_def split: option.split_asm)
  with assms True sel g slot b obtain wire where
    wire: "frost_pack_commit_bundle FROST_COMMIT_BUNDLE_WIRE_MAX b = Some wire" "length wire \<le> FROST_MAX_PAYLOAD"
    by (auto simp: roast_try_form_session_def split: option.split_asm if_split_asm)
  have "formed env c c' chosen slot b spkg wire"
    using assms True sel g slot b spkg wire by (simp add: formed_def roast_try_form_session_def)
  with True show ?thesis by blast
next
  case False
  with assms show ?thesis
    by (simp add: roast_try_form_session_def split: if_split_asm option.split_asm prod.split_asm)
qed

lemma session_ok_new:
  "distinct chosen \<Longrightarrow> list_all id_ok chosen \<Longrightarrow> length chosen = unat t \<Longrightarrow> 0 < unat t \<Longrightarrow> length spkg \<le> FROST_MAX_PAYLOAD \<Longrightarrow>
   session_ok t (new_session env sid chosen spkg)"
  by (simp add: session_ok_def new_session_def list_all_iff)

lemma form_session_inv:
  assumes "coord_inv c" "roast_try_form_session env c = (ok, c')" "signers c \<noteq> [] \<or> unat (g_t c) > 0"
  shows "coord_inv c'"
  using roast_try_form_session_cases [OF assms(2)]
proof
  assume "ok \<and> (\<exists>chosen slot b spkg wire. formed env c c' chosen slot b spkg wire)"
  then obtain chosen slot b spkg wire where f: "formed env c c' chosen slot b spkg wire" by blast
  obtain num where sel: "select_signers c = (chosen, num)" using f by (metis formed_def prod.collapse)
  note s = select_signers_sound [OF assms(1) sel]
  have ids: "list_all id_ok chosen"
    using s(3) coord_invD(1) [OF assms(1)] by (fastforce simp: list_all_iff signers_ok_def signer_ok_def)
  have len: "length chosen = unat (g_t c)" using f s(2) by (simp add: formed_def)
  have ne: "signers c \<noteq> []"
  proof
    assume "signers c = []"
    with s(3) have "chosen = []" by (cases chosen) auto
    with len assms(3) \<open>signers c = []\<close> show False by simp
  qed
  then have "g_n c \<noteq> 0" "0 < unat (g_t c)" using coord_invD(3) [OF assms(1)] by (auto simp: params_ok_def)
  moreover have "length spkg \<le> FROST_MAX_PAYLOAD" using f frost_assemble_bound by (auto simp: formed_def)
  ultimately have "sessions_ok (g_n c) (g_t c) ((g_sessions c)[slot := new_session env (g_next_session_id c) chosen spkg])"
    using s(1) ids len coord_invD(4) [OF assms(1)] by (intro sessions_ok_update session_ok_new) auto
  then have "coord_inv (c\<lparr>g_next_session_id := g_next_session_id c + 1,
       g_sessions := (g_sessions c)[slot := new_session env (g_next_session_id c) chosen spkg]\<rparr>)"
    using assms(1) by (intro coord_inv_sessions) simp_all
  then show ?thesis
    using f by (auto simp: formed_def start_session_def Let_def intro!: fold_inv [where P = coord_inv] upd_signer_inv)
qed (use assms in simp)

lemma form_if_room_inv: "coord_inv c \<Longrightarrow> signers c \<noteq> [] \<or> unat (g_t c) > 0 \<Longrightarrow> coord_inv (form_if_room env c)"
  using form_session_inv [of c env] by (cases "roast_try_form_session env c") (auto simp: form_if_room_def)

section \<open>Abort, aggregation and expiry\<close>

text \<open>What the composite operations leave alone; used to see that later steps find what they need.\<close>

lemma upd_signer_keeps [simp]:
  "g_t (upd_signer i f c) = g_t c" "g_n (upd_signer i f c) = g_n c" "g_sessions (upd_signer i f c) = g_sessions c"
  "g_strikes (upd_signer i f c) = g_strikes c" "g_blacklist (upd_signer i f c) = g_blacklist c"
  "g_tbs (upd_signer i f c) = g_tbs c" "g_signing_done (upd_signer i f c) = g_signing_done c"
  "length (signers (upd_signer i f c)) = length (signers c)"
  by (simp_all add: upd_signer_def)

lemma exclude_keeps [simp]:
  "g_t (exclude i c) = g_t c" "g_n (exclude i c) = g_n c" "g_sessions (exclude i c) = g_sessions c"
  "g_strikes (exclude i c) = g_strikes c" "g_tbs (exclude i c) = g_tbs c" "g_signing_done (exclude i c) = g_signing_done c"
  "g_blacklist (exclude i c) = blacklist_signer i (g_blacklist c)"
  by (simp_all add: exclude_def)

lemma session_failed_keeps [simp]:
  "g_t (session_failed i c) = g_t c" "g_n (session_failed i c) = g_n c" "signers (session_failed i c) = signers c"
  "g_strikes (session_failed i c) = g_strikes c" "g_blacklist (session_failed i c) = g_blacklist c"
  "g_tbs (session_failed i c) = g_tbs c" "g_signing_done (session_failed i c) = g_signing_done c"
  by (simp_all add: session_failed_def upd_session_def)

lemma fold_keeps: "(\<And>x c. F (f x c) = F c) \<Longrightarrow> F (fold f xs c) = F c"
  by (induction xs arbitrary: c) auto

lemma live_session:
  assumes "coord_inv c" "i < ROAST_MAX_SESSIONS" "rs_state (g_sessions c ! i) \<noteq> RSESS_EMPTY"
  shows "session_ok (g_t c) (g_sessions c ! i)" "0 < unat (g_t c)" "list_all id_ok (rs_signer_ids (g_sessions c ! i))"
    "distinct (rs_signer_ids (g_sessions c ! i))"
  using sessions_ok_nth [OF coord_invD(4) [OF assms(1)] assms(2)] assms(3) by (auto simp: session_ok_def)

lemma roast_fail_culprit_inv:
  assumes "coord_inv c" "i < ROAST_MAX_SESSIONS" "rs_state (g_sessions c ! i) \<noteq> RSESS_EMPTY" "id_ok culprit"
  shows "coord_inv (roast_fail_culprit env i culprit c)"
proof -
  let ?f = "\<lambda>sid. upd_signer sid (reset_signer (g_tbs c))"
  let ?c2 = "fold ?f (filter (\<lambda>sid. sid \<noteq> culprit) (rs_signer_ids (g_sessions c ! i))) (exclude culprit (session_failed i c))"
  have "coord_inv ?c2"
    using session_failed_inv [OF assms(1-3)] assms(4)
    by (intro fold_inv [where P = coord_inv]) (auto intro: upd_signer_inv exclude_inv)
  moreover have "g_t ?c2 = g_t c" by (subst fold_keeps [where F = g_t]) simp_all
  ultimately have "coord_inv (form_if_room env ?c2)"
    using live_session(2) [OF assms(1-3)] by (intro form_if_room_inv) simp_all
  then show ?thesis by (simp add: roast_fail_culprit_def Let_def)
qed

lemma broadcast_sign_req_inv: "coord_inv c \<Longrightarrow> coord_inv (broadcast_sign_req c)"
  unfolding broadcast_sign_req_def by (rule map_signers_inv) simp_all

lemma roast_fail_unknown_inv:
  assumes "coord_inv c" "i < ROAST_MAX_SESSIONS" "rs_state (g_sessions c ! i) \<noteq> RSESS_EMPTY"
  shows "coord_inv (roast_fail_unknown i c)"
proof -
  have "coord_inv (fold exclude (rs_signer_ids (g_sessions c ! i)) (session_failed i c))"
    using session_failed_inv [OF assms] live_session(3) [OF assms]
    by (intro fold_inv [where P = coord_inv]) (auto intro: exclude_inv simp: list_all_iff)
  then show ?thesis by (simp add: roast_fail_unknown_def Let_def broadcast_sign_req_inv)
qed

lemma session_fail_inv:
  assumes "coord_inv c" "i < ROAST_MAX_SESSIONS" "rs_state (g_sessions c ! i) \<noteq> RSESS_EMPTY"
  shows "coord_inv (session_fail env i line c)"
  using roast_fail_culprit_inv [OF assms] roast_fail_unknown_inv [OF assms]
  by (auto simp: session_fail_def Let_def id_ok_def)

lemma minted_inv: "coord_inv c \<Longrightarrow> coord_inv (minted cert c)"
  by (simp add: minted_def)

lemma session_complete_inv:
  assumes "coord_inv c" "i < ROAST_MAX_SESSIONS" "rs_state (g_sessions c ! i) \<noteq> RSESS_EMPTY"
    and "session_complete env i sig64 c = Cont c'"
  shows "coord_inv c'"
proof -
  let ?c1 = "(upd_session i (rs_state_update (\<lambda>_. RSESS_COMPLETE)) c)\<lparr>g_signing_done := True\<rparr>"
  have "coord_inv (upd_session i (rs_state_update (\<lambda>_. RSESS_COMPLETE)) c)"
    using assms(1-3) by (intro upd_session_inv) (auto simp: session_ok_def)
  then have c1: "coord_inv ?c1" by simp
  from assms(4) obtain ok c2 where m: "call_mint env sig64 ?c1 = Cont (ok, c2)"
    and c': "c' = (if ok then broadcast FROST_MSG_CERT_OUTPUT [] c2 else c2)"
    by (auto simp: session_complete_def Let_def split: outcome.split_asm prod.split_asm)
  have "coord_inv c2" using call_mint_cases [OF m] c1 minted_inv by auto
  then show ?thesis using c' broadcast_inv by simp
qed

lemma roast_try_aggregate_inv:
  assumes "coord_inv c" "i < ROAST_MAX_SESSIONS" "rs_state (g_sessions c ! i) \<noteq> RSESS_EMPTY"
    and "roast_try_aggregate env i c = Cont c'"
  shows "coord_inv c'"
  using assms(4) session_fail_inv [OF assms(1-3)] session_complete_inv [OF assms(1-3)] assms(1)
  unfolding roast_try_aggregate_def Let_def
  by (force split: if_split_asm option.split_asm prod.split_asm)

lemma expire_member_inv:
  assumes "coord_inv c" "id_ok (fst m)"
  shows "coord_inv (expire_member m c)"
proof -
  obtain sid share where m: "m = (sid, share)" by force
  let ?tab = "add_strike sid (g_strikes c)"
  note pen = penalties_strike [OF coord_invD(5) [OF assms(1)] assms(2)]
  have "coord_inv (exclude sid (c\<lparr>g_strikes := ?tab\<rparr>))"
  proof -
    have "coord_inv (c\<lparr>g_strikes := ?tab, g_blacklist := blacklist_signer sid (g_blacklist c)\<rparr>)"
      using assms pen(2) m by (intro coord_inv_penalties) simp_all
    then show ?thesis unfolding exclude_def by (intro upd_signer_inv) simp_all
  qed
  moreover have "coord_inv (upd_signer sid (penalise (g_tbs c)) (c\<lparr>g_strikes := ?tab\<rparr>))"
    if "get_strikes ?tab sid < FROST_MAX_STRIKES"
  proof -
    have "coord_inv (c\<lparr>g_strikes := ?tab, g_blacklist := g_blacklist c\<rparr>)"
      using assms pen(1) m that by (intro coord_inv_penalties) simp_all
    then show ?thesis by (intro upd_signer_inv) simp_all
  qed
  ultimately show ?thesis
    using assms m by (auto simp: expire_member_def Let_def upd_signer_inv split: option.splits)
qed

lemma expire_member_keeps [simp]: "g_t (expire_member m c) = g_t c" "g_sessions (expire_member m c) = g_sessions c"
  "g_tbs (expire_member m c) = g_tbs c" "g_signing_done (expire_member m c) = g_signing_done c"
  by (auto simp: expire_member_def Let_def split: prod.splits option.splits)

lemma expire_slot_inv:
  assumes "coord_inv c" "i < ROAST_MAX_SESSIONS"
  shows "coord_inv (expire_slot env i c)"
proof (cases "rs_state (g_sessions c ! i) \<noteq> RSESS_AWAITING_SHARES \<or> e_now env < rs_deadline (g_sessions c ! i)")
  case True
  then show ?thesis using assms by (auto simp: expire_slot_def Let_def)
next
  case False
  let ?ms = "session_members (g_sessions c ! i)"
  let ?c1 = "fold expire_member ?ms (session_failed i c)"
  have live: "rs_state (g_sessions c ! i) \<noteq> RSESS_EMPTY" using False by auto
  have ids: "id_ok (fst m)" if "m \<in> set ?ms" for m
    using that live_session(3) [OF assms live] set_zip_leftD [of "fst m" "snd m"]
    unfolding session_members_def list_all_iff by fastforce
  have "coord_inv ?c1"
    using session_failed_inv [OF assms live] ids by (intro fold_inv [where P = coord_inv] expire_member_inv)
  moreover have "g_t ?c1 = g_t c" by (subst fold_keeps [where F = g_t]) simp_all
  ultimately have "coord_inv (form_if_room env ?c1)"
    using live_session(2) [OF assms live] by (intro form_if_room_inv) simp_all
  then show ?thesis using False by (simp add: expire_slot_def Let_def)
qed

lemma roast_expire_sessions_inv: "coord_inv c \<Longrightarrow> coord_inv (roast_expire_sessions env c)"
  unfolding roast_expire_sessions_def by (intro fold_inv [where P = coord_inv]) (auto intro: expire_slot_inv)

end
