(* ===== verification/Coord_Dispatch.thy ===== *)
theory Coord_Dispatch
  imports Coord_Inv
begin

text \<open>
  The coordinator's frame dispatcher (\<^verbatim>\<open>process_signer_frame\<close> of
  \<^verbatim>\<open>frost_coordinator.c\<close>), one definition per case. \<open>sid\<close> is the id of the connection the
  frame came from, \<open>sig\<close> the memory from the signature pointer to the end of that
  connection's receive buffer, \<open>slen\<close> the signature length the peer announced, and
  \<open>payload\<close> the \<^verbatim>\<open>plen\<close> payload bytes.
\<close>

section \<open>Key generation and refresh\<close>

text \<open>
  \<^verbatim>\<open>memcpy(sg->r1_sig, sig, slen)\<close> into 256 bytes, with the peer's \<open>slen\<close>; then the package.
\<close>

definition store_r1 :: "bytes \<Rightarrow> u16 \<Rightarrow> bytes \<Rightarrow> csigner \<Rightarrow> csigner" where
  "store_r1 sig slen payload s =
     s\<lparr>sg_r1_sig := overwrite (sg_r1_sig s) (take (unat slen) sig), sg_r1_pkg := payload\<rparr>"

definition r1_guarded :: "u16 \<Rightarrow> bytes \<Rightarrow> u16 \<Rightarrow> bytes \<Rightarrow> (coord \<Rightarrow> coord) \<Rightarrow> coord \<Rightarrow> coord outcome" where
  "r1_guarded sid sig slen payload check c =
     (if length payload > FROST_MAX_PAYLOAD then Cont c
      else if unat slen > FROST_FRAME_SIG_SIZE then Undef
      else Cont (check (upd_signer sid (store_r1 sig slen payload) c)))"

definition on_round1_pkg :: "u16 \<Rightarrow> bytes \<Rightarrow> u16 \<Rightarrow> bytes \<Rightarrow> coord \<Rightarrow> coord outcome" where
  "on_round1_pkg sid sig slen payload c =
     (if g_dkg_state c \<noteq> DKG_COLLECTING_R1 then Cont c
      else r1_guarded sid sig slen payload check_r1_complete c)"

definition r2_target :: "bytes \<Rightarrow> u16" where
  "r2_target payload = be16 (payload ! 2) (payload ! 3)"

text \<open>The payload is printed before it is routed.\<close>

definition route_r2 :: "frost_msg_t \<Rightarrow> bytes \<Rightarrow> u16 \<Rightarrow> bytes \<Rightarrow> coord \<Rightarrow> coord outcome" where
  "route_r2 ty sig slen payload c =
     (if length payload < 4 then Cont c
      else (case print_bytes_as_hex payload of
              Cont _ \<Rightarrow> relay_r2 ty (r2_target payload) sig slen payload (of_nat (length payload)) c
            | _ \<Rightarrow> Undef))"

definition on_round2_pkg :: "bytes \<Rightarrow> u16 \<Rightarrow> bytes \<Rightarrow> coord \<Rightarrow> coord outcome" where
  "on_round2_pkg sig slen payload c = route_r2 FROST_MSG_RELAY_R2 sig slen payload c"

definition r2_done :: "u16 \<Rightarrow> coord \<Rightarrow> bool" where
  "r2_done sid c = (case find_signer sid c of Some s \<Rightarrow> sg_r2_complete s | None \<Rightarrow> True)"

definition on_r2_complete :: "u16 \<Rightarrow> coord \<Rightarrow> coord outcome" where
  "on_r2_complete sid c =
     (if r2_done sid c then Cont c
      else Cont (check_r2_complete (upd_signer sid (sg_r2_complete_update (\<lambda>_. True)) c)))"

definition on_refresh_r1 :: "u16 \<Rightarrow> bytes \<Rightarrow> u16 \<Rightarrow> bytes \<Rightarrow> coord \<Rightarrow> coord outcome" where
  "on_refresh_r1 sid sig slen payload c =
     (if g_mode c \<noteq> COORD_MODE_REFRESH \<or> g_dkg_state c \<noteq> DKG_COLLECTING_R1 then Cont c
      else r1_guarded sid sig slen payload check_refresh_r1_complete c)"

definition on_refresh_r2 :: "bytes \<Rightarrow> u16 \<Rightarrow> bytes \<Rightarrow> coord \<Rightarrow> coord outcome" where
  "on_refresh_r2 sig slen payload c =
     (if g_mode c \<noteq> COORD_MODE_REFRESH then Cont c
      else route_r2 FROST_MSG_RELAY_REFRESH_R2 sig slen payload c)"

definition on_refresh_r2_complete :: "u16 \<Rightarrow> coord \<Rightarrow> coord outcome" where
  "on_refresh_r2_complete sid c =
     (if g_mode c \<noteq> COORD_MODE_REFRESH \<or> r2_done sid c then Cont c
      else Cont (check_refresh_r2_complete (upd_signer sid (sg_r2_complete_update (\<lambda>_. True)) c)))"

section \<open>Public key packages\<close>

definition report_pub_key :: "u16 \<Rightarrow> bytes \<Rightarrow> coord \<Rightarrow> coord" where
  "report_pub_key sid payload c =
     (upd_signer sid (sg_pub_key_pkg_update (\<lambda>_. payload)) c)
       \<lparr>g_refresh_complete_count := g_refresh_complete_count c + 1\<rparr>"

text \<open>
  The scan that compares each connection's package with the one before it. Its outcome is
  printed; neither case of the dispatcher acts on it.
\<close>

fun pub_keys_agree :: "csigner list \<Rightarrow> bool" where
  "pub_keys_agree (p # s # ss) \<longleftrightarrow>
     sg_pub_key_pkg s \<noteq> [] \<and> sg_pub_key_pkg p = sg_pub_key_pkg s \<and> pub_keys_agree (s # ss)"
| "pub_keys_agree _ \<longleftrightarrow> True"

definition store_pub_key :: "cenv \<Rightarrow> bytes \<Rightarrow> coord \<Rightarrow> coord" where
  "store_pub_key env payload c =
     c\<lparr>g_pub_key_pkg := payload,
       files_written := (if e_can_write env FROST_PUB_PKG_HEX
                         then files_written c @ [(FROST_PUB_PKG_HEX, bytes_to_hex payload @ [NL])]
                         else files_written c)\<rparr>"

definition on_refresh_complete :: "cenv \<Rightarrow> u16 \<Rightarrow> bytes \<Rightarrow> coord \<Rightarrow> coord outcome" where
  "on_refresh_complete env sid payload c =
     (let c1 = report_pub_key sid payload c in
      if g_refresh_complete_count c1 < unat (g_n c1) then Cont c1
      else (let c2 = (if g_pub_key_pkg c1 = [] \<and> payload \<noteq> [] then store_pub_key env payload c1 else c1)
            in Cont (check_refresh_all_confirmed c2)))"

definition on_pub_key_pkg :: "cenv \<Rightarrow> u16 \<Rightarrow> bytes \<Rightarrow> coord \<Rightarrow> coord outcome" where
  "on_pub_key_pkg env sid payload c =
     (let c1 = report_pub_key sid payload c in
      if g_refresh_complete_count c1 < unat (g_n c1) then Cont c1
      else if length payload > FROST_MAX_PAYLOAD then Cont c1
      else Cont ((store_pub_key env payload c1)\<lparr>g_signing_done := True\<rparr>))"

section \<open>Signing\<close>

definition on_share_load_fail :: "u16 \<Rightarrow> coord \<Rightarrow> coord outcome" where
  "on_share_load_fail sid c = Cont (upd_signer sid (sg_phase_update (\<lambda>_. SPHASE_NO_KEY)) c)"

definition store_commit :: "bytes \<Rightarrow> bytes \<Rightarrow> csigner \<Rightarrow> csigner" where
  "store_commit sig payload s =
     s\<lparr>sg_commit := payload, sg_commit_sig := overwrite (sg_commit_sig s) (take FROST_FRAME_SIG_SIZE sig),
       sg_phase := SPHASE_COMMITTED\<rparr>"

definition on_commit :: "cenv \<Rightarrow> u16 \<Rightarrow> bytes \<Rightarrow> u16 \<Rightarrow> bytes \<Rightarrow> coord \<Rightarrow> coord outcome" where
  "on_commit env sid sig slen payload c =
     (if g_mode c \<noteq> COORD_MODE_SIGN then Cont c
      else (case find_signer sid c of None \<Rightarrow> Cont c
        | Some s \<Rightarrow>
            if sg_phase s \<noteq> SPHASE_INIT \<and> sg_phase s \<noteq> SPHASE_SUSPECT then Cont c
            else if length payload > FROST_MAX_PAYLOAD \<or> length payload > FROST_COMMIT_ENTRY_MAX then Cont c
            else if unat slen \<noteq> FROST_FRAME_SIG_SIZE then Cont c
            else Cont (form_if_room env (upd_signer sid (store_commit sig payload) c))))"

definition store_share :: "nat \<Rightarrow> bytes \<Rightarrow> roast_session \<Rightarrow> roast_session" where
  "store_share slot payload s =
     s\<lparr>rs_shares := (rs_shares s)[slot := payload], rs_n_shares := rs_n_shares s + 1\<rparr>"

definition on_sig_share :: "cenv \<Rightarrow> u16 \<Rightarrow> bytes \<Rightarrow> coord \<Rightarrow> coord outcome" where
  "on_sig_share env sid payload c =
     (if g_mode c \<noteq> COORD_MODE_SIGN then Cont c
      else if length payload > FROST_MAX_PAYLOAD then Cont c
      else (case find_signer sid c of None \<Rightarrow> Cont c
        | Some sg \<Rightarrow>
            (case roast_find (sg_session_id sg) (g_sessions c) of None \<Rightarrow> Cont c
             | Some i \<Rightarrow>
                 if rs_state (g_sessions c ! i) \<noteq> RSESS_AWAITING_SHARES then Cont c
                 else (case roast_signer_slot (g_sessions c ! i) sid of None \<Rightarrow> Cont c
                   | Some slot \<Rightarrow>
                       (let c1 = upd_signer sid (sg_phase_update (\<lambda>_. SPHASE_SHARED))
                                   (upd_session i (store_share slot payload) c)
                        in if rs_n_shares (g_sessions c1 ! i) \<ge> unat (g_t c1)
                           then roast_try_aggregate env i c1 else Cont c1)))))"

section \<open>Dispatch\<close>

fun process_signer_frame ::
  "cenv \<Rightarrow> u16 \<Rightarrow> frost_msg_t \<Rightarrow> bytes \<Rightarrow> u16 \<Rightarrow> bytes \<Rightarrow> coord \<Rightarrow> coord outcome" where
  "process_signer_frame env sid FROST_MSG_ROUND1_PKG sig slen payload c = on_round1_pkg sid sig slen payload c"
| "process_signer_frame env sid FROST_MSG_ROUND2_PKG sig slen payload c = on_round2_pkg sig slen payload c"
| "process_signer_frame env sid FROST_MSG_R2_COMPLETE sig slen payload c = on_r2_complete sid c"
| "process_signer_frame env sid FROST_MSG_REFRESH_R1 sig slen payload c = on_refresh_r1 sid sig slen payload c"
| "process_signer_frame env sid FROST_MSG_REFRESH_R2 sig slen payload c = on_refresh_r2 sig slen payload c"
| "process_signer_frame env sid FROST_MSG_REFRESH_R2_COMPLETE sig slen payload c = on_refresh_r2_complete sid c"
| "process_signer_frame env sid FROST_MSG_REFRESH_COMPLETE sig slen payload c = on_refresh_complete env sid payload c"
| "process_signer_frame env sid FROST_MSG_PUB_KEY_PKG sig slen payload c = on_pub_key_pkg env sid payload c"
| "process_signer_frame env sid FROST_MSG_SHARE_LOAD_FAIL sig slen payload c = on_share_load_fail sid c"
| "process_signer_frame env sid FROST_MSG_COMMIT sig slen payload c = on_commit env sid sig slen payload c"
| "process_signer_frame env sid FROST_MSG_SIG_SHARE sig slen payload c = on_sig_share env sid payload c"
| "process_signer_frame env sid _ sig slen payload c = Cont c"

section \<open>Every handler keeps the invariant\<close>

lemma keeps_store_r1:
  "unat slen \<le> FROST_FRAME_SIG_SIZE \<Longrightarrow> length payload \<le> FROST_MAX_PAYLOAD \<Longrightarrow> keeps_signer (store_r1 sig slen payload)"
  by (auto simp: keeps_signer_def store_r1_def signer_ok_def length_overwrite)

lemma keeps_store_commit:
  "length payload \<le> FROST_COMMIT_ENTRY_MAX \<Longrightarrow> keeps_signer (store_commit sig payload)"
  by (auto simp: keeps_signer_def store_commit_def signer_ok_def length_overwrite)

lemma keeps_misc:
  "keeps_signer (sg_r2_complete_update f)"
  "length payload \<le> FROST_MAX_PAYLOAD \<Longrightarrow> keeps_signer (sg_pub_key_pkg_update (\<lambda>_. payload))"
  by (auto simp: keeps_signer_def signer_ok_def)

lemma r1_guarded_inv:
  assumes "coord_inv c" "\<And>c. coord_inv c \<Longrightarrow> coord_inv (check c)" "r1_guarded sid sig slen payload check c = Cont c'"
  shows "coord_inv c'"
  using assms by (auto simp: r1_guarded_def not_less keeps_store_r1 upd_signer_inv split: if_split_asm)

lemma relay_r2_inv: "coord_inv c \<Longrightarrow> relay_r2 ty tg sig slen p pl c = Cont c' \<Longrightarrow> coord_inv c'"
  by (auto simp: relay_r2_def upd_signer_inv split: if_split_asm option.split_asm)

lemma route_r2_inv: "coord_inv c \<Longrightarrow> route_r2 ty sig slen p c = Cont c' \<Longrightarrow> coord_inv c'"
  by (auto simp: route_r2_def intro: relay_r2_inv split: if_split_asm outcome.split_asm)

lemma report_pub_key_inv: "coord_inv c \<Longrightarrow> length p \<le> FROST_MAX_PAYLOAD \<Longrightarrow> coord_inv (report_pub_key sid p c)"
  by (simp add: report_pub_key_def upd_signer_inv keeps_misc)

lemma store_pub_key_inv: "coord_inv c \<Longrightarrow> length p \<le> FROST_MAX_PAYLOAD \<Longrightarrow> coord_inv (store_pub_key env p c)"
  by (auto simp: store_pub_key_def coord_inv_def buffers_ok_def)

lemma find_signer_ne: "find_signer sid c = Some s \<Longrightarrow> signers c \<noteq> []"
  by (auto simp: find_signer_def)

lemma on_commit_inv:
  assumes "coord_inv c" "on_commit env sid sig slen payload c = Cont c'"
  shows "coord_inv c'"
proof -
  have "coord_inv (form_if_room env (upd_signer sid (store_commit sig payload) c))"
    if "find_signer sid c = Some s" "length payload \<le> FROST_COMMIT_ENTRY_MAX" for s
  proof (rule form_if_room_inv)
    show "coord_inv (upd_signer sid (store_commit sig payload) c)"
      using assms(1) that(2) by (simp add: upd_signer_inv keeps_store_commit)
    show "signers (upd_signer sid (store_commit sig payload) c) \<noteq> []
        \<or> 0 < unat (g_t (upd_signer sid (store_commit sig payload) c))"
      using find_signer_ne [OF that(1)] by (metis length_0_conv upd_signer_keeps(8))
  qed
  with assms show ?thesis
    by (auto simp: on_commit_def not_less split: if_split_asm option.split_asm)
qed

lemma roast_find_bound: "coord_inv c \<Longrightarrow> roast_find k (g_sessions c) = Some i \<Longrightarrow> i < ROAST_MAX_SESSIONS"
  using coord_invD(4) [of c] by (auto simp: roast_find_def sessions_ok_def dest: index_of_Some)

lemma store_share_ok:
  "session_ok t s \<Longrightarrow> length payload \<le> FROST_MAX_PAYLOAD \<Longrightarrow> session_ok t (store_share slot payload s)"
  by (cases "slot < length (rs_shares s)")
     (auto simp: session_ok_def store_share_def list_all_length nth_list_update)

lemma on_sig_share_inv:
  assumes "coord_inv c" "on_sig_share env sid payload c = Cont c'"
  shows "coord_inv c'"
proof -
  have "coord_inv c'" if i: "roast_find (sg_session_id sg) (g_sessions c) = Some i"
    and s: "rs_state (g_sessions c ! i) = RSESS_AWAITING_SHARES" and p: "length payload \<le> FROST_MAX_PAYLOAD"
    and c1: "c1 = upd_signer sid (sg_phase_update (\<lambda>_. SPHASE_SHARED)) (upd_session i (store_share slot payload) c)"
    and c': "c' = c1 \<or> roast_try_aggregate env i c1 = Cont c'" for sg i slot c1
  proof -
    have ib: "i < ROAST_MAX_SESSIONS" using roast_find_bound [OF assms(1) i] .
    have "coord_inv (upd_session i (store_share slot payload) c)"
      using assms(1) ib s p by (intro upd_session_inv store_share_ok) simp_all
    then have inv1: "coord_inv c1" unfolding c1 by (rule upd_signer_inv) simp
    have "i < length (g_sessions c)" using ib coord_invD(4) [OF assms(1)] by (simp add: sessions_ok_def)
    then have "rs_state (g_sessions c1 ! i) \<noteq> RSESS_EMPTY"
      using s unfolding c1 by (simp add: upd_session_def store_share_def)
    then show ?thesis using c' inv1 roast_try_aggregate_inv [OF inv1 ib] by auto
  qed
  then show ?thesis
    using assms unfolding on_sig_share_def
    by (auto simp: Let_def not_less split: if_split_asm option.split_asm)
qed

lemma process_signer_frame_inv:
  assumes "coord_inv c" "length payload \<le> FROST_MAX_PAYLOAD"
    "process_signer_frame env sid ty sig slen payload c = Cont c'"
  shows "coord_inv c'"
proof (cases ty)
  case FROST_MSG_ROUND1_PKG
  with assms show ?thesis
    by (auto simp: on_round1_pkg_def intro: r1_guarded_inv [OF _ dkg_ops_inv(2)] split: if_split_asm)
next
  case FROST_MSG_ROUND2_PKG
  with assms show ?thesis by (auto simp: on_round2_pkg_def intro: route_r2_inv)
next
  case FROST_MSG_R2_COMPLETE
  with assms show ?thesis
    by (auto simp: on_r2_complete_def dkg_ops_inv upd_signer_inv keeps_misc split: if_split_asm)
next
  case FROST_MSG_REFRESH_R1
  with assms show ?thesis
    by (auto simp: on_refresh_r1_def intro: r1_guarded_inv [OF _ dkg_ops_inv(5)] split: if_split_asm)
next
  case FROST_MSG_REFRESH_R2
  with assms show ?thesis by (auto simp: on_refresh_r2_def intro: route_r2_inv split: if_split_asm)
next
  case FROST_MSG_REFRESH_R2_COMPLETE
  with assms show ?thesis
    by (auto simp: on_refresh_r2_complete_def dkg_ops_inv upd_signer_inv keeps_misc split: if_split_asm)
next
  case FROST_MSG_REFRESH_COMPLETE
  with assms show ?thesis
    by (auto simp: on_refresh_complete_def Let_def report_pub_key_inv store_pub_key_inv dkg_ops_inv split: if_split_asm)
next
  case FROST_MSG_PUB_KEY_PKG
  with assms show ?thesis
    by (auto simp: on_pub_key_pkg_def Let_def report_pub_key_inv store_pub_key_inv split: if_split_asm)
next
  case FROST_MSG_SHARE_LOAD_FAIL
  with assms show ?thesis by (auto simp: on_share_load_fail_def upd_signer_inv)
next
  case FROST_MSG_COMMIT
  with assms show ?thesis using on_commit_inv by simp
next
  case FROST_MSG_SIG_SHARE
  with assms show ?thesis using on_sig_share_inv by simp
qed (use assms in simp_all)

end
