(* ===== verification/Coord_Main.thy ===== *)
theory Coord_Main
  imports Coord_Dispatch
begin

text \<open>
  The coordinator's \<^verbatim>\<open>main\<close> (\<^verbatim>\<open>frost_coordinator.c\<close>): command line, start-up of the three
  modes, admission of signers by their HELLO, service of the connections, the head of the
  event loop with its exit and mass-mint logic, and one iteration of the loop. The step
  relation at the end lets the pieces happen in any order; its invariant is the data
  invariant.
\<close>

section \<open>Command line\<close>

definition coord_boot :: coord where
  "coord_boot = \<lparr>g_mode = COORD_MODE_DKG, g_dkg_state = DKG_IDLE, g_n = 0, g_t = 0, g_pub_key_pkg = [],
     g_tbs = [], g_tbs_hex = [], g_dummy_cert = [], g_sessions = replicate ROAST_MAX_SESSIONS empty_session,
     g_next_session_id = 1, g_signing_done = False, g_roast_fail = False, g_blacklist = [],
     g_user_key_file = ''user_key.pub'', g_principal = [], g_output_file = ''./output/user_key-cert.pub'',
     g_serial = 1, g_validity_secs = 86400, g_num_minted = 0, g_to_mint = 1, g_refresh_complete_count = 0,
     g_strikes = replicate FROST_MAX_SIGNERS 0, g_fault = False,
     g_tracking_bytes_sent = replicate (FROST_MAX_SIGNERS + 1) 0,
     g_tracking_bytes_rcvd = replicate (FROST_MAX_SIGNERS + 1) 0,
     signers = [], staged = [], key_cache = empty_cache, files_written = []\<rparr>"

definition parse_mode :: "string \<Rightarrow> coord_mode_t option" where
  "parse_mode s = (if s = ''dkg'' then Some COORD_MODE_DKG else if s = ''sign'' then Some COORD_MODE_SIGN
     else if s = ''refresh'' then Some COORD_MODE_REFRESH else None)"

text \<open>\<^verbatim>\<open>sscanf(s, "%hu", &x)\<close> leaves \<open>x\<close> alone when nothing matches.\<close>

definition scan_into :: "string \<Rightarrow> u16 \<Rightarrow> u16" where
  "scan_into s x = (case scan_hu s of Some (v, _) \<Rightarrow> v | None \<Rightarrow> x)"

definition apply_opt :: "string \<Rightarrow> string \<Rightarrow> coord \<Rightarrow> coord option" where
  "apply_opt a v c =
     (if a = ''--n'' then Some (c\<lparr>g_n := scan_into v (g_n c)\<rparr>)
      else if a = ''--t'' then Some (c\<lparr>g_t := scan_into v (g_t c)\<rparr>)
      else if a = ''--user-key'' then Some (c\<lparr>g_user_key_file := take 255 v\<rparr>)
      else if a = ''--principal'' then Some (c\<lparr>g_principal := take 127 v\<rparr>)
      else if a = ''--output'' then Some (c\<lparr>g_output_file := take 255 v\<rparr>)
      else if a = ''--serial'' then Some (c\<lparr>g_serial := word_of_int (atol v)\<rparr>)
      else if a = ''--validity'' then Some (c\<lparr>g_validity_secs := word_of_int (atol v)\<rparr>)
      else if a = ''--mass-mint'' then Some (c\<lparr>g_to_mint := word_of_int (atol v)\<rparr>)
      else if a = ''--fault'' then Some c
      else None)"

text \<open>Every option takes a value; one without is unknown, like any other word.\<close>

fun parse_opts :: "string list \<Rightarrow> coord \<Rightarrow> coord option" where
  "parse_opts [] c = Some c"
| "parse_opts [_] c = None"
| "parse_opts (a # v # rest) c =
     (case apply_opt a v c of None \<Rightarrow> None | Some c' \<Rightarrow> parse_opts rest c')"

fun parse_fault :: "string list \<Rightarrow> coord \<Rightarrow> coord option" where
  "parse_fault (a # v # rest) c =
     (if a = ''--fault'' then
        (if v = ''replace-tbs'' then parse_fault rest (c\<lparr>g_fault := True\<rparr>) else None)
      else parse_fault (v # rest) c)"
| "parse_fault _ c = Some c"

section \<open>Start-up\<close>

text \<open>\<open>file\<close> is the contents of \<^verbatim>\<open>pub_key_pkg.hex\<close>, \<open>None\<close> when it cannot be read.\<close>

definition init_sign :: "cenv \<Rightarrow> string option \<Rightarrow> coord \<Rightarrow> coord outcome" where
  "init_sign env file c =
     (let c1 = c\<lparr>g_sessions := replicate ROAST_MAX_SESSIONS empty_session\<rparr> in
      if g_principal c1 = [] then Exit 1 c1
      else (case file of None \<Rightarrow> Exit 1 c1
        | Some txt \<Rightarrow>
            (case fgets (FROST_MAX_PAYLOAD * 2 + 4) txt of None \<Rightarrow> Exit 1 c1
             | Some (hex, _) \<Rightarrow>
                 (case hex_to_bytes hex FROST_MAX_PAYLOAD of None \<Rightarrow> Exit 1 c1
                  | Some pkg \<Rightarrow>
                      if pkg = [] then Exit 1 c1
                      else (case prepare_tbs env (c1\<lparr>g_pub_key_pkg := pkg\<rparr>) of
                              (ok, c2) \<Rightarrow> if ok then Cont c2 else Exit 1 c2)))))"

text \<open>The old package is read and then forgotten; only a missing file ends the program.\<close>

definition init_refresh :: "string option \<Rightarrow> coord \<Rightarrow> coord outcome" where
  "init_refresh file c = (case file of None \<Rightarrow> Exit 1 c | Some _ \<Rightarrow> Cont (c\<lparr>g_pub_key_pkg := []\<rparr>))"

definition coord_start :: "cenv \<Rightarrow> string option \<Rightarrow> string list \<Rightarrow> coord outcome" where
  "coord_start env file args =
     (case args of [] \<Rightarrow> Exit 1 coord_boot
      | m # opts \<Rightarrow>
          (case parse_mode m of None \<Rightarrow> Exit 1 coord_boot
           | Some mode \<Rightarrow>
               (case parse_opts opts (coord_boot\<lparr>g_mode := mode\<rparr>) of None \<Rightarrow> Exit 1 coord_boot
                | Some c1 \<Rightarrow>
                    (case parse_fault opts c1 of None \<Rightarrow> Exit 1 c1
                     | Some c2 \<Rightarrow>
                         (case mode of
                            COORD_MODE_SIGN \<Rightarrow> init_sign env file c2
                          | COORD_MODE_REFRESH \<Rightarrow> init_refresh file c2
                          | COORD_MODE_DKG \<Rightarrow> Cont c2)))))"

section \<open>Admission\<close>

text \<open>\<^verbatim>\<open>sscanf(hellobuf, "SIGNER %hu %hu %hu", ...) == 3\<close> on at most 63 characters.\<close>

definition parse_hello :: "string \<Rightarrow> (u16 \<times> u16 \<times> u16) option" where
  "parse_hello s =
     Option.bind (scan_lit ''SIGNER '' s) (\<lambda>s1.
     Option.bind (scan_hu s1) (\<lambda>(pid, s2).
     Option.bind (scan_lit '' '' s2) (\<lambda>s3.
     Option.bind (scan_hu s3) (\<lambda>(pn, s4).
     Option.bind (scan_lit '' '' s4) (\<lambda>s5.
     Option.bind (scan_hu s5) (\<lambda>(pt, _). Some (pid, pn, pt)))))))"

definition hello_text :: "bytes \<Rightarrow> string" where
  "hello_text payload = c_string (bytes_str (take 63 payload))"

definition hello_ok :: "u16 \<Rightarrow> u16 \<Rightarrow> u16 \<Rightarrow> bool" where
  "hello_ok pid pn pt \<longleftrightarrow> 1 \<le> unat pid \<and> unat pid \<le> FROST_MAX_SIGNERS \<and> 2 \<le> unat pn \<and> 1 \<le> unat pt \<and>
     unat pt \<le> unat pn \<and> unat pn \<le> FROST_MAX_SIGNERS \<and> unat pid \<le> unat pn"

definition hello_error :: "nat \<Rightarrow> string \<Rightarrow> coord \<Rightarrow> coord" where
  "hello_error sock msg c = upd_staged sock (staged_send FROST_MSG_ERROR (str_bytes msg)) c"

definition new_signer :: "cenv \<Rightarrow> nat \<Rightarrow> u16 \<Rightarrow> coord \<Rightarrow> csigner" where
  "new_signer env sock pid c =
     \<lparr>sg_sock = sock, sg_id = pid, sg_n = g_n c, sg_t = g_t c, sg_rx = rx_init (e_heap_inbuf env), sg_msgq = [],
      sg_want_write = False, sg_r1_sig = e_heap_r1_sig env, sg_r1_pkg = [], sg_r2_complete = False,
      sg_pub_key_pkg = [], sg_commit = [], sg_commit_sig = e_heap_commit_sig env, sg_sig_share = [],
      sg_phase = SPHASE_INIT, sg_session_id = 0\<rparr>"

definition mode_char :: "coord_mode_t \<Rightarrow> char" where
  "mode_char m = (case m of COORD_MODE_DKG \<Rightarrow> CHR ''D'' | COORD_MODE_SIGN \<Rightarrow> CHR ''S'' | COORD_MODE_REFRESH \<Rightarrow> CHR ''R'')"

definition ack_text :: "u16 \<Rightarrow> coord \<Rightarrow> bytes" where
  "ack_text pid c = str_bytes (''ACK '' @ fmt_u (unat pid) @ '' '' @ [mode_char (g_mode c)] @ [NL])"

definition promote :: "cenv \<Rightarrow> nat \<Rightarrow> u16 \<Rightarrow> coord \<Rightarrow> coord" where
  "promote env sock pid c =
     (let sg = send_plain FROST_MSG_HELLO_ACK (ack_text pid c) (new_signer env sock pid c);
          c1 = (remove_staged sock c)\<lparr>signers := sg # signers c\<rparr>
      in case g_mode c of
           COORD_MODE_DKG \<Rightarrow> maybe_start_dkg c1
         | COORD_MODE_REFRESH \<Rightarrow> maybe_start_refresh c1
         | COORD_MODE_SIGN \<Rightarrow> upd_signer pid (send_plain FROST_MSG_SIGN_REQ (g_tbs c)) c1)"

text \<open>The identity checks, once the text and the group parameters are accepted.\<close>

definition admit :: "cenv \<Rightarrow> nat \<Rightarrow> u16 \<Rightarrow> coord \<Rightarrow> coord" where
  "admit env sock pid c =
     (case ensure_signer_pubkey_cached (e_x509 env) pid (key_cache c) of
        None \<Rightarrow> hello_error sock (''no certs/signer'' @ fmt_u (unat pid) @ ''.crt on coordinator'') c
      | Some kc \<Rightarrow>
          (let c1 = c\<lparr>key_cache := kc\<rparr> in
           if \<not> verify_peer_tls_identity (e_x509 env) kc (e_peer env sock) pid
           then hello_error sock ''TLS certificate does not match claimed id'' c1
           else if find_signer pid c1 \<noteq> None
           then hello_error sock (''ID '' @ fmt_u (unat pid) @ '' already registered'') c1
           else promote env sock pid c1))"

definition handle_hello :: "cenv \<Rightarrow> nat \<Rightarrow> bytes \<Rightarrow> coord \<Rightarrow> coord" where
  "handle_hello env sock payload c =
     (case parse_hello (hello_text payload) of None \<Rightarrow> hello_error sock ''bad HELLO'' c
      | Some (pid, pn, pt) \<Rightarrow>
          if \<not> hello_ok pid pn pt then hello_error sock ''bad HELLO'' c
          else if g_n c = 0 then admit env sock pid (c\<lparr>g_n := pn, g_t := pt\<rparr>)
          else if pn \<noteq> g_n c \<or> pt \<noteq> g_t c then hello_error sock ''n/t mismatch'' c
          else admit env sock pid c)"

section \<open>Service of the connections\<close>

text \<open>
  What \<^verbatim>\<open>gnutls_record_recv\<close> finds: nothing yet (with the direction it then waits for), the end or
  an error, or waiting data. It hands over at most the room it was offered, and fails when
  offered none.
\<close>

datatype recv_result = RecvAgain bool | RecvClosed | Recv bytes

definition accept_conn :: "cenv \<Rightarrow> nat \<Rightarrow> coord \<Rightarrow> coord" where
  "accept_conn env sock c =
     c\<lparr>staged := \<lparr>st_sock = sock, st_rx = rx_init (e_heap_inbuf env), st_msgq = [], st_want_write = False\<rparr> # staged c\<rparr>"

definition staged_read :: "cenv \<Rightarrow> nat \<Rightarrow> recv_result \<Rightarrow> coord \<Rightarrow> coord" where
  "staged_read env sock res c =
     (case find (\<lambda>s. st_sock s = sock) (staged c) of None \<Rightarrow> c
      | Some st \<Rightarrow>
          (case res of
             RecvAgain w \<Rightarrow> upd_staged sock (st_want_write_update (\<lambda>_. w)) c
           | RecvClosed \<Rightarrow> remove_staged sock c
           | Recv chunk \<Rightarrow>
               (let got = take (rx_room (st_rx st)) chunk; rx = rx_recv (st_rx st) got in
                if got = [] then remove_staged sock c
                else (case coord_frame_ready rx of
                  None \<Rightarrow> upd_staged sock (st_rx_update (\<lambda>_. rx)) c
                | Some (ty, slen, plen) \<Rightarrow>
                    (let c1 = upd_staged sock (st_rx_update (\<lambda>_. rx\<lparr>rx_off := 0\<rparr>)) c in
                     if ty \<noteq> FROST_MSG_HELLO then remove_staged sock c1
                     else handle_hello env sock (frame_payload FROST_FRAME_SIG_SIZE plen rx) c1)))))"

definition signer_read :: "cenv \<Rightarrow> u16 \<Rightarrow> recv_result \<Rightarrow> coord \<Rightarrow> coord outcome" where
  "signer_read env sid res c =
     (case find_signer sid c of None \<Rightarrow> Cont c
      | Some sg \<Rightarrow>
          (case res of
             RecvAgain w \<Rightarrow> Cont (upd_signer sid (sg_want_write_update (\<lambda>_. w)) c)
           | RecvClosed \<Rightarrow> Cont (remove_signer sid c)
           | Recv chunk \<Rightarrow>
               (let got = take (rx_room (sg_rx sg)) chunk; rx = rx_recv (sg_rx sg) got;
                    c1 = c\<lparr>g_tracking_bytes_rcvd := (g_tracking_bytes_rcvd c)[unat sid := of_nat (length got)]\<rparr> in
                if got = [] then Cont (remove_signer sid c)
                else (case coord_frame_ready rx of
                  None \<Rightarrow> Cont (upd_signer sid (sg_rx_update (\<lambda>_. rx)) c1)
                | Some (ty, slen, plen) \<Rightarrow>
                    process_signer_frame env sid ty (frame_sig_area rx) slen
                      (frame_payload FROST_FRAME_SIG_SIZE plen rx)
                      (upd_signer sid (sg_rx_update (\<lambda>_. rx\<lparr>rx_off := 0\<rparr>)) c1)))))"

section \<open>The event loop\<close>

definition all_quiet :: "coord \<Rightarrow> bool" where
  "all_quiet c = list_all (\<lambda>s. sg_msgq s = []) (signers c)"

definition next_cert :: "cenv \<Rightarrow> coord \<Rightarrow> coord" where
  "next_cert env c =
     (let k = g_serial c + 1;
          c1 = c\<lparr>g_serial := k,
                 g_output_file := snprintf 256 (''./output/user_key-cert-'' @ fmt_u (unat k) @ ''.pub'')\<rparr>;
          c2 = snd (prepare_tbs env c1)
      in broadcast_sign_req (c2\<lparr>g_signing_done := False\<rparr>))"

text \<open>The first block: give up, mint the next certificate, or leave when all is sent.\<close>

definition head_sign :: "cenv \<Rightarrow> coord \<Rightarrow> coord outcome" where
  "head_sign env c =
     (if g_roast_fail c then (if all_quiet c then Exit 0 c else Cont c)
      else if g_signing_done c \<and> g_mode c = COORD_MODE_SIGN then
        (if g_to_mint c > 0 then Cont (next_cert env c)
         else if all_quiet c then Exit 0 c else Cont c)
      else Cont c)"

definition head_dkg :: "coord \<Rightarrow> coord outcome" where
  "head_dkg c =
     (if g_dkg_state c = DKG_COMPLETE \<and> g_signing_done c \<and>
         (g_mode c = COORD_MODE_DKG \<or> g_mode c = COORD_MODE_REFRESH) \<and> all_quiet c
      then Exit 0 (c\<lparr>signers := []\<rparr>) else Cont c)"

definition loop_head :: "cenv \<Rightarrow> coord \<Rightarrow> coord outcome" where
  "loop_head env c = obind (head_sign env c) head_dkg (\<lambda>c. c)"

definition maybe_expire :: "cenv \<Rightarrow> coord \<Rightarrow> coord" where
  "maybe_expire env c =
     (if g_mode c = COORD_MODE_SIGN \<and> \<not> g_signing_done c then roast_expire_sessions env c else c)"

text \<open>
  One iteration: the descriptor sets are fixed before \<^verbatim>\<open>select\<close>; a connection is then
  written to or read from as they say. \<open>io\<close> supplies what each ready socket delivers, to
  the scan of the staged connections and, for those that have become signers meanwhile too,
  to the scan of the signers.
\<close>

datatype conn_io = IoNone | IoWrite send_result | IoRead recv_result

datatype select_result = SelFail | SelIntr | SelTimeout | SelReady

record loop_io =
  io_sel :: select_result
  io_accept :: "nat option"
  io_head :: cenv
  io_expire :: cenv
  io_staged :: "nat \<Rightarrow> cenv \<times> conn_io"
  io_signer :: "nat \<Rightarrow> cenv \<times> conn_io"

definition write_set :: "coord \<Rightarrow> nat list" where
  "write_set c =
     map sg_sock (filter (\<lambda>s. sg_want_write s \<or> sg_msgq s \<noteq> []) (signers c))
     @ map st_sock (filter (\<lambda>s. st_want_write s \<or> st_msgq s \<noteq> []) (staged c))"

definition read_set :: "coord \<Rightarrow> nat list" where
  "read_set c =
     map sg_sock (filter (\<lambda>s. \<not> (sg_want_write s \<or> sg_msgq s \<noteq> [])) (signers c))
     @ map st_sock (filter (\<lambda>s. \<not> (st_want_write s \<or> st_msgq s \<noteq> [])) (staged c))"

definition serve_staged :: "loop_io \<Rightarrow> nat list \<Rightarrow> nat list \<Rightarrow> nat \<Rightarrow> coord \<Rightarrow> coord" where
  "serve_staged io ws rs sock c =
     (case io_staged io sock of
        (_, IoWrite r) \<Rightarrow> if sock \<in> set ws then drain_staged_write r sock c else c
      | (env, IoRead r) \<Rightarrow> if sock \<in> set rs then staged_read env sock r c else c
      | (_, IoNone) \<Rightarrow> c)"

definition serve_signer :: "loop_io \<Rightarrow> nat list \<Rightarrow> nat list \<Rightarrow> csigner \<Rightarrow> coord \<Rightarrow> coord outcome" where
  "serve_signer io ws rs sg c =
     (case io_signer io (sg_sock sg) of
        (_, IoWrite r) \<Rightarrow> if sg_sock sg \<in> set ws then Cont (drain_signer_write r (sg_id sg) c) else Cont c
      | (env, IoRead r) \<Rightarrow> if sg_sock sg \<in> set rs then signer_read env (sg_id sg) r c else Cont c
      | (_, IoNone) \<Rightarrow> Cont c)"

fun serve_signers :: "loop_io \<Rightarrow> nat list \<Rightarrow> nat list \<Rightarrow> csigner list \<Rightarrow> coord \<Rightarrow> coord outcome" where
  "serve_signers io ws rs [] c = Cont c"
| "serve_signers io ws rs (sg # sgs) c =
     obind (serve_signer io ws rs sg c) (serve_signers io ws rs sgs) (\<lambda>c. c)"

definition loop_body :: "loop_io \<Rightarrow> coord \<Rightarrow> coord outcome" where
  "loop_body io c =
     obind (loop_head (io_head io) c)
       (\<lambda>c1. let ws = write_set c1; rs = read_set c1 in
          case io_sel io of
            SelIntr \<Rightarrow> Cont c1
          | SelFail \<Rightarrow> Exit 0 c1
          | SelTimeout \<Rightarrow> Cont (maybe_expire (io_expire io) c1)
          | SelReady \<Rightarrow>
              (let c2 = maybe_expire (io_expire io) c1;
                   c3 = (case io_accept io of Some sock \<Rightarrow> accept_conn (fst (io_staged io sock)) sock c2 | None \<Rightarrow> c2);
                   c4 = fold (serve_staged io ws rs) (map st_sock (staged c3)) c3
               in serve_signers io ws rs (signers c4) c4))
       (\<lambda>c. c)"

section \<open>Step relation\<close>

text \<open>What a step assumes of the outside: the sizes of fresh arrays, and fresh descriptors.\<close>

definition env_ok :: "cenv \<Rightarrow> bool" where
  "env_ok env \<longleftrightarrow> length (e_heap_r1_sig env) = FROST_FRAME_SIG_SIZE \<and>
     length (e_heap_commit_sig env) = FROST_FRAME_SIG_SIZE \<and> length (e_heap_inbuf env) = FROST_FRAME_MAX"

inductive coord_step :: "coord \<Rightarrow> coord \<Rightarrow> bool" where
  step_head: "loop_head env c = Cont c' \<Longrightarrow> coord_step c c'"
| step_expire: "coord_step c (maybe_expire env c)"
| step_accept: "env_ok env \<Longrightarrow> sock \<notin> set (map st_sock (staged c)) \<Longrightarrow> coord_step c (accept_conn env sock c)"
| step_staged_write: "coord_step c (drain_staged_write r sock c)"
| step_staged_read: "env_ok env \<Longrightarrow> coord_step c (staged_read env sock r c)"
| step_signer_write: "coord_step c (drain_signer_write r sid c)"
| step_signer_read: "signer_read env sid r c = Cont c' \<Longrightarrow> coord_step c c'"

inductive_cases coord_stepE: "coord_step c c'"

definition coord_init :: "coord \<Rightarrow> bool" where
  "coord_init c \<longleftrightarrow> (\<exists>env file args. coord_start env file args = Cont c)"

section \<open>The invariant holds from the start\<close>

definition idle :: "coord \<Rightarrow> bool" where
  "idle c \<longleftrightarrow> signers c = [] \<and> staged c = [] \<and> g_sessions c = replicate ROAST_MAX_SESSIONS empty_session \<and>
     penalties_ok (g_strikes c) (g_blacklist c) \<and> buffers_ok c"

lemma empty_session_ok: "session_ok t empty_session"
  by (simp add: session_ok_def empty_session_def list_all_iff)

lemma empty_sessions_ok: "sessions_ok n t (replicate ROAST_MAX_SESSIONS empty_session)"
  by (simp add: sessions_ok_def list_all_iff empty_session_ok) (simp add: empty_session_def)

lemma idle_inv: "idle c \<Longrightarrow> coord_inv c"
  by (simp add: idle_def coord_inv_def signers_ok_def staged_ok_def empty_sessions_ok)

lemma coord_boot_idle: "idle coord_boot"
proof -
  have "get_strikes (replicate FROST_MAX_SIGNERS 0) sid = 0" for sid by (simp add: get_strikes_def)
  then show ?thesis
    by (simp add: idle_def coord_boot_def penalties_ok_def strikes_ok_def blacklist_ok_def FROST_MAX_STRIKES_def
        buffers_ok_def cache_ok_def empty_cache_def)
qed

lemma idle_params [simp]:
  "idle (c\<lparr>g_n := x\<rparr>) = idle c" "idle (c\<lparr>g_t := x\<rparr>) = idle c" "idle (c\<lparr>g_user_key_file := s\<rparr>) = idle c"
  "idle (c\<lparr>g_principal := s\<rparr>) = idle c" "idle (c\<lparr>g_output_file := s\<rparr>) = idle c" "idle (c\<lparr>g_serial := k\<rparr>) = idle c"
  "idle (c\<lparr>g_validity_secs := k\<rparr>) = idle c" "idle (c\<lparr>g_to_mint := k\<rparr>) = idle c" "idle (c\<lparr>g_fault := f\<rparr>) = idle c"
  "idle (c\<lparr>g_mode := m\<rparr>) = idle c"
  by (simp_all add: idle_def buffers_ok_def)

lemma apply_opt_idle: "idle c \<Longrightarrow> apply_opt a v c = Some c' \<Longrightarrow> idle c'"
  by (simp add: apply_opt_def split: if_split_asm) auto

lemma parse_opts_idle: "idle c \<Longrightarrow> parse_opts as c = Some c' \<Longrightarrow> idle c'"
  by (induction as c rule: parse_opts.induct) (auto dest: apply_opt_idle split: option.split_asm)

lemma parse_fault_idle: "idle c \<Longrightarrow> parse_fault as c = Some c' \<Longrightarrow> idle c'"
proof (induction as c rule: parse_fault.induct)
  case (1 a v rest c)
  then show ?case by (simp split: if_split_asm)
qed auto

lemma call_tbs_bound:
  "call_tbs env a b c = (ok, c1) \<Longrightarrow> length (g_tbs c) \<le> FROST_MAX_PAYLOAD \<Longrightarrow> length (g_tbs c1) \<le> FROST_MAX_PAYLOAD"
  unfolding call_tbs_def Let_def
  by (auto simp: clobber_def dest!: hex_to_bytes_bound split: if_split_asm option.split_asm prod.split_asm)

lemma prepare_tbs_inv:
  assumes "coord_inv c" "prepare_tbs env c = (ok, c1)"
  shows "coord_inv c1"
proof -
  obtain ok0 c0 where ct: "call_tbs env (word_of_int (e_now env)) (word_of_int (e_now env) + g_validity_secs c) c = (ok0, c0)"
    by (metis surj_pair)
  have b: "length (g_tbs c0) \<le> FROST_MAX_PAYLOAD"
    using call_tbs_bound [OF ct] coord_invD(6) [OF assms(1)] by (simp add: buffers_ok_def)
  obtain d t h where c0: "c0 = c\<lparr>g_dummy_cert := d, g_tbs := t, g_tbs_hex := h\<rparr>"
    using call_tbs_keeps [OF ct] by blast
  have inv0: "coord_inv c0"
    using assms(1) b unfolding c0 by (simp add: coord_inv_def buffers_ok_def)
  show ?thesis
  proof (cases ok)
    case False
    with assms ct have "c1 = c0"
      by (auto simp: prepare_tbs_def Let_def split: if_splits bool.splits option.splits)
    with inv0 show ?thesis by simp
  next
    case True
    from assms(2) show ?thesis
    proof (cases rule: prepare_tbs_cases)
      case (patched d' t' h' key)
      then have "c0 = c\<lparr>g_dummy_cert := d', g_tbs := t', g_tbs_hex := h'\<rparr>" using ct by simp
      then have "length (take (length t' - 32) t' @ key) \<le> FROST_MAX_PAYLOAD" using b patched(2,3) by simp
      then show ?thesis
        using assms(1) unfolding patched(4) by (simp add: coord_inv_def buffers_ok_def empty_sessions_ok)
    qed (use True in simp)
  qed
qed

lemma init_sign_inv:
  assumes "idle c" "init_sign env file c = Cont c'"
  shows "coord_inv c'"
proof -
  let ?c1 = "c\<lparr>g_sessions := replicate ROAST_MAX_SESSIONS empty_session\<rparr>"
  from assms(2) obtain hex pkg where pkg: "hex_to_bytes hex FROST_MAX_PAYLOAD = Some pkg"
    and p: "prepare_tbs env (?c1\<lparr>g_pub_key_pkg := pkg\<rparr>) = (True, c')"
    by (auto simp: init_sign_def Let_def split: if_split_asm option.split_asm prod.split_asm)
  have "idle (?c1\<lparr>g_pub_key_pkg := pkg\<rparr>)"
    using assms(1) hex_to_bytes_bound [OF pkg] by (simp add: idle_def buffers_ok_def)
  then show ?thesis using prepare_tbs_inv [OF idle_inv p] by blast
qed

lemma coord_init_inv: "coord_init c \<Longrightarrow> coord_inv c"
proof -
  assume "coord_init c"
  then obtain env fl args where st: "coord_start env fl args = Cont c" by (auto simp: coord_init_def)
  then obtain m opts mode c1 c2 where
    "parse_opts opts (coord_boot\<lparr>g_mode := mode\<rparr>) = Some c1" "parse_fault opts c1 = Some c2"
    and c: "(case mode of COORD_MODE_SIGN \<Rightarrow> init_sign env fl c2 | COORD_MODE_REFRESH \<Rightarrow> init_refresh fl c2
             | COORD_MODE_DKG \<Rightarrow> Cont c2) = Cont c"
    by (auto simp: coord_start_def split: list.split_asm option.split_asm)
  moreover have "idle (coord_boot\<lparr>g_mode := mode\<rparr>)"
    using coord_boot_idle by simp
  ultimately have "idle c2" using parse_opts_idle parse_fault_idle by blast
  then show ?thesis
    using c init_sign_inv
    by (cases mode) (auto simp: init_refresh_def idle_def buffers_ok_def intro!: idle_inv split: option.split_asm)
qed

section \<open>Every step keeps it\<close>

lemma next_cert_inv: "coord_inv c \<Longrightarrow> coord_inv (next_cert env c)"
proof -
  assume c: "coord_inv c"
  let ?c1 = "c\<lparr>g_serial := g_serial c + 1,
     g_output_file := snprintf 256 (''./output/user_key-cert-'' @ fmt_u (unat (g_serial c + 1)) @ ''.pub'')\<rparr>"
  obtain ok c2 where p: "prepare_tbs env ?c1 = (ok, c2)" by (metis surj_pair)
  have "coord_inv c2" using c by (intro prepare_tbs_inv [OF _ p]) simp
  then show ?thesis using p by (simp add: next_cert_def Let_def broadcast_sign_req_inv)
qed

lemma loop_head_inv: "coord_inv c \<Longrightarrow> loop_head env c = Cont c' \<Longrightarrow> coord_inv c'"
  by (auto simp: loop_head_def head_sign_def head_dkg_def next_cert_inv split: if_split_asm)

lemma coord_inv_staged: "coord_inv c \<Longrightarrow> staged_ok ss \<Longrightarrow> coord_inv (c\<lparr>staged := ss\<rparr>)"
  by (auto simp: coord_inv_def buffers_ok_def)

lemma upd_staged_inv:
  assumes "coord_inv c" "\<And>s. st_sock (f s) = st_sock s" "\<And>s. rx_ok (st_rx s) \<Longrightarrow> rx_ok (st_rx (f s))"
  shows "coord_inv (upd_staged sock f c)"
proof -
  have "map st_sock (update_first (\<lambda>s. st_sock s = sock) f (staged c)) = map st_sock (staged c)"
    using assms(2) by (rule map_update_first_same)
  then have "staged_ok (update_first (\<lambda>s. st_sock s = sock) f (staged c))"
    using coord_invD(2) [OF assms(1)] assms(3)
    by (auto simp: staged_ok_def list_all_iff dest!: set_update_first)
  then show ?thesis unfolding upd_staged_def using assms(1) by (intro coord_inv_staged)
qed

lemma remove_staged_inv: "coord_inv c \<Longrightarrow> coord_inv (remove_staged sock c)"
  unfolding remove_staged_def
  using coord_invD(2) by (intro coord_inv_staged) (auto simp: staged_ok_def list_all_iff distinct_map_filter)

lemma remove_signer_inv: "coord_inv c \<Longrightarrow> coord_inv (remove_signer sid c)"
  unfolding remove_signer_def
  using coord_invD(1) by (intro coord_inv_signers) (auto simp: signers_ok_def list_all_iff distinct_map_filter)

lemma tracking_inv:
  "coord_inv c \<Longrightarrow> coord_inv (c\<lparr>g_tracking_bytes_sent := track (g_tracking_bytes_sent c) i r\<rparr>)"
  "coord_inv c \<Longrightarrow> coord_inv (c\<lparr>g_tracking_bytes_rcvd := (g_tracking_bytes_rcvd c)[i := x]\<rparr>)"
  by (auto simp: coord_inv_def buffers_ok_def track_def)

lemma accept_conn_inv:
  "coord_inv c \<Longrightarrow> env_ok env \<Longrightarrow> sock \<notin> set (map st_sock (staged c)) \<Longrightarrow> coord_inv (accept_conn env sock c)"
  unfolding accept_conn_def
  using coord_invD(2) by (intro coord_inv_staged) (auto simp: staged_ok_def rx_ok_def rx_init_def env_ok_def)

lemma drain_staged_write_inv:
  assumes "coord_inv c"
  shows "coord_inv (drain_staged_write r sock c)"
proof -
  let ?f = "\<lambda>k s. s\<lparr>st_want_write := False, st_msgq := advance_queue k (st_msgq s)\<rparr>"
  have "coord_inv ((upd_staged sock (?f k) c)\<lparr>g_tracking_bytes_sent := track (g_tracking_bytes_sent c) 0 k\<rparr>)" for k
  proof -
    have "coord_inv (upd_staged sock (?f k) c)" using assms by (rule upd_staged_inv) simp_all
    from tracking_inv(1) [OF this, of 0 k] show ?thesis by (simp add: upd_staged_def)
  qed
  then show ?thesis
    using assms unfolding drain_staged_write_def Let_def
    by (auto intro: remove_staged_inv upd_staged_inv split: option.splits list.splits send_result.splits)
qed

lemma drain_signer_write_inv:
  assumes "coord_inv c"
  shows "coord_inv (drain_signer_write r sid c)"
proof -
  let ?f = "\<lambda>k s. s\<lparr>sg_want_write := False, sg_msgq := advance_queue k (sg_msgq s)\<rparr>"
  have "coord_inv ((upd_signer sid (?f k) c)\<lparr>g_tracking_bytes_sent := track (g_tracking_bytes_sent c) (unat sid) k\<rparr>)" for k
  proof -
    have "coord_inv (upd_signer sid (?f k) c)"
      using assms by (rule upd_signer_inv) (simp add: keeps_signer_def signer_ok_def)
    from tracking_inv(1) [OF this, of "unat sid" k] show ?thesis by (simp add: upd_signer_def)
  qed
  then show ?thesis
    using assms unfolding drain_signer_write_def
    by (auto intro: remove_signer_inv upd_signer_inv split: option.splits send_result.splits)
qed

lemma hello_error_inv: "coord_inv c \<Longrightarrow> coord_inv (hello_error sock msg c)"
  unfolding hello_error_def by (rule upd_staged_inv) (simp_all add: staged_send_def)

lemma promote_inv:
  assumes "coord_inv c" "env_ok env" "id_ok pid" "find_signer pid c = None" "params_ok (g_n c) (g_t c)"
  shows "coord_inv (promote env sock pid c)"
proof -
  let ?sg = "send_plain FROST_MSG_HELLO_ACK (ack_text pid c) (new_signer env sock pid c)"
  let ?c1 = "(remove_staged sock c)\<lparr>signers := ?sg # signers c\<rparr>"
  have "signer_ok (new_signer env sock pid c)"
    using assms(2,3) by (simp add: new_signer_def signer_ok_def env_ok_def rx_ok_def rx_init_def)
  then have "signer_ok ?sg" by simp
  moreover have "pid \<notin> sg_id ` set (signers c)"
    using assms(4) by (auto simp: find_signer_def find_None_conv)
  ultimately have "signers_ok (?sg # signers c)"
    using coord_invD(1) [OF assms(1)] by (auto simp: signers_ok_def new_signer_def)
  then have "coord_inv ?c1"
    using remove_staged_inv [OF assms(1), of sock] assms(5)
    by (simp add: coord_inv_def buffers_ok_def remove_staged_def)
  then show ?thesis
    unfolding promote_def Let_def
    by (cases "g_mode c") (simp_all add: dkg_ops_inv upd_signer_inv)
qed

lemma admit_inv:
  assumes "coord_inv c" "env_ok env" "id_ok pid" "params_ok (g_n c) (g_t c)"
  shows "coord_inv (admit env sock pid c)"
proof (cases "ensure_signer_pubkey_cached (e_x509 env) pid (key_cache c)")
  case None
  then show ?thesis using assms by (simp add: admit_def hello_error_inv)
next
  case (Some kc)
  have "coord_inv (c\<lparr>key_cache := kc\<rparr>)"
    using assms(1) idcache.ensure_wf [OF _ Some] by (auto simp: coord_inv_def buffers_ok_def)
  then show ?thesis
    using Some assms by (auto simp: admit_def Let_def hello_error_inv intro!: promote_inv)
qed

lemma first_hello_inv:
  assumes "coord_inv c" "g_n c = 0" "hello_ok pid pn pt"
  shows "coord_inv (c\<lparr>g_n := pn, g_t := pt\<rparr>)"
proof -
  have "signers c = []" using assms coord_invD(3) [OF assms(1)] by (auto simp: params_ok_def)
  moreover have "sessions_ok pn pt (g_sessions c)"
    using assms coord_invD(4) [OF assms(1)] by (auto simp: sessions_ok_def session_ok_def list_all_iff hello_ok_def)
  ultimately show ?thesis using assms(1) by (simp add: coord_inv_def buffers_ok_def)
qed

lemma handle_hello_inv:
  assumes "coord_inv c" "env_ok env"
  shows "coord_inv (handle_hello env sock payload c)"
proof -
  have z: "\<not> hello_ok pid 0 pt" for pid pt by (simp add: hello_ok_def)
  have "id_ok pid" "params_ok pn pt" if "hello_ok pid pn pt" for pid pn pt
    using that by (auto simp: hello_ok_def id_ok_def params_ok_def)
  then show ?thesis
    using assms unfolding handle_hello_def
    by (auto simp: hello_error_inv first_hello_inv z intro!: admit_inv split: option.splits)
qed

lemma staged_read_inv:
  assumes "coord_inv c" "env_ok env"
  shows "coord_inv (staged_read env sock r c)"
proof (cases "find (\<lambda>s. st_sock s = sock) (staged c)")
  case None
  then show ?thesis using assms by (simp add: staged_read_def)
next
  case (Some st)
  then have st: "st \<in> set (staged c)" "st_sock st = sock" by (auto dest: find_Some_conv)
  have "rx_ok (st_rx st)" using st coord_invD(2) [OF assms(1)] by (auto simp: staged_ok_def list_all_iff)
  then have rx: "rx_ok (rx_recv (st_rx st) (take (rx_room (st_rx st)) chunk))" for chunk
    by (intro rx_recv_ok) auto
  have rx0: "rx_ok (x\<lparr>rx_off := 0\<rparr>)" if "rx_ok x" for x using that by (simp add: rx_ok_def)
  have u: "coord_inv (upd_staged sock (st_rx_update (\<lambda>_. x)) c)" if "rx_ok x" for x
    using assms(1) that by (intro upd_staged_inv) simp_all
  show ?thesis
    using assms Some u rx rx0 unfolding staged_read_def Let_def
    by (auto intro!: remove_staged_inv handle_hello_inv intro: upd_staged_inv
        split: recv_result.splits option.splits)
qed

lemma keeps_rx: "rx_ok x \<Longrightarrow> keeps_signer (sg_rx_update (\<lambda>_. x))"
  by (simp add: keeps_signer_def signer_ok_def)

lemma signer_read_inv:
  assumes "coord_inv c" "signer_read env sid r c = Cont c'"
  shows "coord_inv c'"
proof (cases "find_signer sid c")
  case None
  then show ?thesis using assms by (simp add: signer_read_def)
next
  case (Some sg)
  then have sg: "sg \<in> set (signers c)" "sg_id sg = sid" by (auto simp: find_signer_def dest: find_Some_conv)
  show ?thesis
  proof (cases r)
    case (Recv chunk)
    let ?got = "take (rx_room (sg_rx sg)) chunk"
    let ?rx = "rx_recv (sg_rx sg) ?got"
    let ?c1 = "c\<lparr>g_tracking_bytes_rcvd := (g_tracking_bytes_rcvd c)[unat sid := of_nat (length ?got)]\<rparr>"
    have "rx_ok (sg_rx sg)" using sg coord_invD(1) [OF assms(1)] by (auto simp: signers_ok_def signer_ok_def list_all_iff)
    then have rx: "rx_ok ?rx" by (intro rx_recv_ok) auto
    then have rx0: "rx_ok (?rx\<lparr>rx_off := 0\<rparr>)" by (simp add: rx_ok_def)
    have c1: "coord_inv ?c1" using assms(1) by (rule tracking_inv)
    have pl: "length (frame_payload FROST_FRAME_SIG_SIZE plen ?rx) \<le> FROST_MAX_PAYLOAD"
      if "coord_frame_ready ?rx = Some (ty, slen, plen)" for ty slen plen
      using coord_frame_ready_bound [OF rx that] by (simp add: frame_payload_def)
    show ?thesis
      using assms(1,2) Some Recv rx rx0 c1 pl unfolding signer_read_def Let_def
      by (auto intro: upd_signer_inv keeps_rx remove_signer_inv
          process_signer_frame_inv [OF upd_signer_inv [OF c1 keeps_rx [OF rx0]] pl] split: option.split_asm if_split_asm)
  qed (use assms Some in \<open>auto simp: signer_read_def intro: remove_signer_inv upd_signer_inv\<close>)
qed

lemma coord_step_inv: "coord_inv c \<Longrightarrow> coord_step c c' \<Longrightarrow> coord_inv c'"
proof (erule coord_stepE, goal_cases)
  case (2 env)
  then show ?case by (simp add: maybe_expire_def roast_expire_sessions_inv)
qed (auto intro: loop_head_inv accept_conn_inv drain_staged_write_inv staged_read_inv
      drain_signer_write_inv signer_read_inv)

interpretation coordsys: invariant_system coord_init coord_step coord_inv
  by unfold_locales (auto intro: coord_init_inv coord_step_inv)

end
