(* ===== verification/Coord_Props.thy ===== *)
theory Coord_Props
  imports Coord_Main
begin

text \<open>
  What the coordinator guarantees, and where it does not: the properties of ROAST session
  management, admission, the DKG relay, minting and memory safety.
\<close>

section \<open>A formed session\<close>

lemma bundle_entries_spec:
  "list_all (\<lambda>i. \<exists>s \<in> set (signers c). sg_id s = i) is \<Longrightarrow> bundle_entries c is = Some es \<Longrightarrow>
   map ce_id es = is \<and>
   (\<forall>e \<in> set es. \<exists>s \<in> set (signers c). sg_id s = ce_id e \<and> ce_commit e = sg_commit s \<and> ce_commit_sig e = sg_commit_sig s)"
proof (induction "is" arbitrary: es)
  case (Cons i "is")
  from Cons.prems(1) have "find_signer i c \<noteq> None" by (auto simp: find_signer_def find_None_conv)
  then obtain s where s: "find_signer i c = Some s" by blast
  have s': "s \<in> set (signers c)" "sg_id s = i" using s by (auto simp: find_signer_def dest: find_Some_conv)
  from Cons.prems(2) s obtain es' where rec: "bundle_entries c is = Some es'"
    and es: "es = \<lparr>ce_id = sg_id s, ce_commit = sg_commit s, ce_commit_sig = sg_commit_sig s\<rparr> # es'"
    by (auto split: if_split_asm)
  show ?case using Cons.IH [OF _ rec] Cons.prems(1) s' es by auto
qed simp

lemma bundle_entries_ok:
  "signers_ok (signers c) \<Longrightarrow> bundle_entries c is = Some es \<Longrightarrow> length es = length is \<and> list_all entry_ok es"
proof (induction "is" arbitrary: es)
  case (Cons i "is")
  then show ?case
    by (fastforce simp: entry_ok_def zero_entry_def signers_ok_def signer_ok_def list_all_iff find_signer_def
        dest: find_Some_conv split: option.split_asm if_split_asm)
qed simp

lemma length_bundle_tbs [simp]: "length (bundle_tbs c) = length (g_tbs c)"
  by (simp add: bundle_tbs_def Let_def)

lemma make_bundle_ok:
  assumes "signers_ok (signers c)" "make_bundle c chosen = Some b" "length chosen \<le> FROST_MAX_SIGNERS"
  shows "bundle_ok b"
  using assms bundle_entries_ok [OF assms(1)]
  by (auto simp: make_bundle_def bundle_ok_def split: option.split_asm if_split_asm)

lemma start_session_signers:
  assumes "signers_ok (signers c)" "distinct chosen"
  shows "signers (start_session env slot chosen spkg wire c)
    = map (\<lambda>s. if sg_id s \<in> set chosen then join_session (g_next_session_id c) wire s else s) (signers c)"
  using fold_update_first [OF assms(1) keeps_signer_ops(5) assms(2)]
  by (simp add: start_session_def Let_def fold_upd_signer)

lemma start_session_fields:
  "g_sessions (start_session env slot chosen spkg wire c)
     = (g_sessions c)[slot := new_session env (g_next_session_id c) chosen spkg]"
  "g_blacklist (start_session env slot chosen spkg wire c) = g_blacklist c"
  "g_strikes (start_session env slot chosen spkg wire c) = g_strikes c"
  "g_to_mint (start_session env slot chosen spkg wire c) = g_to_mint c"
  "g_num_minted (start_session env slot chosen spkg wire c) = g_num_minted c"
  by (simp_all add: start_session_def Let_def fold_upd_signer)

lemma length_signers_bound: "signers_ok ss \<Longrightarrow> length ss \<le> FROST_MAX_SIGNERS"
proof -
  assume s: "signers_ok ss"
  then have "length ss = card (sg_id ` set ss)" by (metis distinct_card length_map list.set_map signers_ok_def)
  also have "\<dots> \<le> card {sid. id_ok sid}"
    using s by (intro card_mono finite_ids) (auto simp: signers_ok_def signer_ok_def list_all_iff)
  finally show ?thesis by (simp add: card_ids)
qed

lemma formed_facts:
  assumes "coord_inv c" "formed env c c' chosen slot b spkg wire"
  shows "distinct chosen" "length chosen = unat (g_t c)"
    "chosen = take (unat (g_t c)) (map sg_id (filter (reliable c) (signers c) @ filter (suspect c) (signers c)))"
    "\<forall>i \<in> set chosen. \<exists>s \<in> set (signers c). sg_id s = i \<and> (reliable c s \<or> suspect c s)"
    "bundle_ok b" "wire = bundle_wire b" "map ce_id (cb_entries b) = chosen" "cb_tbs b = bundle_tbs c"
    "slot < length (g_sessions c)" "rs_state (g_sessions c ! slot) = RSESS_EMPTY"
    "\<forall>e \<in> set (cb_entries b). \<exists>s \<in> set (signers c). sg_id s = ce_id e \<and> ce_commit e = sg_commit s \<and> ce_commit_sig e = sg_commit_sig s"
proof -
  obtain num where sel: "select_signers c = (chosen, num)" using assms(2) by (metis formed_def prod.collapse)
  note s = select_signers_sound [OF assms(1) sel]
  have ok: "signers_ok (signers c)" using assms(1) by (rule coord_invD)
  show d: "distinct chosen" by (rule s)
  show len: "length chosen = unat (g_t c)" using assms(2) s(2) by (simp add: formed_def)
  show "chosen = take (unat (g_t c)) (map sg_id (filter (reliable c) (signers c) @ filter (suspect c) (signers c)))"
    using select_signers_spec [of c] sel ok by (simp add: signers_ok_def)
  show mem: "\<forall>i \<in> set chosen. \<exists>s \<in> set (signers c). sg_id s = i \<and> (reliable c s \<or> suspect c s)" using s(3) by blast
  have "set chosen \<subseteq> sg_id ` set (signers c)" using mem by (auto simp: image_iff)
  then have "card (set chosen) \<le> card (sg_id ` set (signers c))" by (intro card_mono) simp_all
  also have "\<dots> \<le> length (signers c)" by (metis card_length length_map list.set_map)
  finally have "length chosen \<le> FROST_MAX_SIGNERS"
    using length_signers_bound [OF ok] d by (simp add: distinct_card)
  then show b: "bundle_ok b" using assms(2) make_bundle_ok [OF ok] unfolding formed_def by blast
  show "wire = bundle_wire b"
    using assms(2) pack_bundle_spec [OF b bundle_wire_fits [OF b]] by (simp add: formed_def)
  obtain es where es: "bundle_entries c chosen = Some es" "b = \<lparr>cb_entries = es, cb_tbs = bundle_tbs c\<rparr>"
    using assms(2) by (auto simp: formed_def make_bundle_def split: option.split_asm if_split_asm)
  have known: "list_all (\<lambda>i. \<exists>s \<in> set (signers c). sg_id s = i) chosen" using mem unfolding list_all_iff by blast
  show "map ce_id (cb_entries b) = chosen" "cb_tbs b = bundle_tbs c"
    "\<forall>e \<in> set (cb_entries b). \<exists>s \<in> set (signers c). sg_id s = ce_id e \<and> ce_commit e = sg_commit s \<and> ce_commit_sig e = sg_commit_sig s"
    using bundle_entries_spec [OF known es(1)] es(2) by simp_all
  show "slot < length (g_sessions c)" "rs_state (g_sessions c ! slot) = RSESS_EMPTY"
    using assms(2) by (auto simp: formed_def roast_alloc_def dest: index_of_Some)
qed

text \<open>When a session can be formed, it is.\<close>

lemma select_num: "length (fst (select_signers c)) \<le> snd (select_signers c) \<or> length (signers c) = snd (select_signers c)"
proof -
  have "length chosen \<le> num \<Longrightarrow> select_pass1 c t chosen num ss = (ch, k) \<Longrightarrow> length ch \<le> k" for chosen num t ss ch k
  proof (induction ss arbitrary: chosen num)
    case (Cons s ss)
    then show ?case
      using Cons.IH [of "chosen @ [sg_id s]" "num + 1"] Cons.IH [of chosen "num + 1"] by (auto split: if_split_asm)
  qed simp
  moreover obtain ch k where p: "select_pass1 c (unat (g_t c)) [] 0 (signers c) = (ch, k)" by force
  ultimately have "length ch \<le> k" by blast
  then show ?thesis
    using p select_pass1_spec [OF _ p] by (auto simp: select_signers_def Let_def)
qed

lemma select_count:
  assumes "coord_inv c" "unat (g_t c) \<le> length (filter (reliable c) (signers c)) + length (filter (suspect c) (signers c))"
  shows "length (fst (select_signers c)) = unat (g_t c)" "unat (g_t c) \<le> snd (select_signers c)"
proof -
  have d: "distinct (map sg_id (signers c))" using coord_invD(1) [OF assms(1)] by (simp add: signers_ok_def)
  show len: "length (fst (select_signers c)) = unat (g_t c)"
    using assms(2) by (simp add: select_signers_spec [OF d])
  have "length (fst (select_signers c)) \<le> length (signers c)"
  proof -
    have "distinct (fst (select_signers c))" "set (fst (select_signers c)) \<subseteq> sg_id ` set (signers c)"
      using select_signers_sound [OF assms(1)] by (metis prod.collapse, auto) (metis image_eqI prod.collapse)
    then have "length (fst (select_signers c)) \<le> card (sg_id ` set (signers c))"
      by (metis card_mono distinct_card finite_imageI finite_set)
    also have "\<dots> \<le> length (signers c)" by (metis card_length length_map list.set_map)
    finally show ?thesis .
  qed
  then show "unat (g_t c) \<le> snd (select_signers c)" using select_num [of c] len by auto
qed

lemma bundle_entries_defined:
  "signers_ok (signers c) \<Longrightarrow> \<exists>es. bundle_entries c is = Some es"
proof (induction "is")
  case (Cons i "is")
  then show ?case
    by (fastforce simp: signers_ok_def signer_ok_def list_all_iff find_signer_def dest: find_Some_conv split: option.split)
qed simp

lemma form_succeeds:
  assumes inv: "coord_inv c" and nd: "\<not> g_signing_done c"
    and cnt: "unat (g_t c) \<le> length (filter (reliable c) (signers c)) + length (filter (suspect c) (signers c))"
    and slot: "list_ex (\<lambda>s. rs_state s = RSESS_EMPTY) (g_sessions c)"
    and fits: "4 + 516 * unat (g_t c) + length (g_tbs c) \<le> FROST_MAX_PAYLOAD" and t: "unat (g_t c) \<le> FROST_MAX_SIGNERS"
    and asm: "\<And>b. frost_assemble_signing_package (e_exec env) b \<noteq> None"
  shows "\<exists>c'. roast_try_form_session env c = (True, c')"
proof -
  have ok: "signers_ok (signers c)" using inv by (rule coord_invD)
  obtain chosen num where sel: "select_signers c = (chosen, num)" by force
  have len: "length chosen = unat (g_t c)" "unat (g_t c) \<le> num" using select_count [OF inv cnt] sel by auto
  obtain s where s: "roast_alloc (g_sessions c) = Some s"
    using slot index_of_None [of "\<lambda>s. rs_state s = RSESS_EMPTY" "g_sessions c"]
    by (auto simp: roast_alloc_def list_ex_iff)
  obtain es where es: "bundle_entries c chosen = Some es" using bundle_entries_defined [OF ok] by blast
  let ?b = "\<lparr>cb_entries = es, cb_tbs = bundle_tbs c\<rparr>"
  have b: "make_bundle c chosen = Some ?b" using es fits by (simp add: make_bundle_def)
  have bok: "bundle_ok ?b" using make_bundle_ok [OF ok b] len t by simp
  have "length (bundle_wire ?b) \<le> FROST_MAX_PAYLOAD"
    using entries_wire_le [of es] bundle_entries_ok [OF ok es] fits len by (simp add: bundle_wire_def)
  moreover have "frost_pack_commit_bundle FROST_COMMIT_BUNDLE_WIRE_MAX ?b = Some (bundle_wire ?b)"
    using pack_bundle_spec [OF bok bundle_wire_fits [OF bok]] .
  ultimately show ?thesis
    using nd sel len s b asm [of ?b] by (auto simp: roast_try_form_session_def)
qed

section \<open>A small deployment\<close>

text \<open>Two of three: signers 3 and 1 have committed, signer 2 has not; any package is assembled.\<close>

definition demo_signer :: "u16 \<Rightarrow> sphase_t \<Rightarrow> bytes \<Rightarrow> csigner" where
  "demo_signer i ph cm =
     \<lparr>sg_sock = unat i, sg_id = i, sg_n = 3, sg_t = 2, sg_rx = rx_init (replicate FROST_FRAME_MAX 0), sg_msgq = [],
      sg_want_write = False, sg_r1_sig = replicate FROST_FRAME_SIG_SIZE 0, sg_r1_pkg = [], sg_r2_complete = False,
      sg_pub_key_pkg = [], sg_commit = cm, sg_commit_sig = replicate FROST_FRAME_SIG_SIZE (ucast i), sg_sig_share = [],
      sg_phase = ph, sg_session_id = 0\<rparr>"

definition demo_coord :: coord where
  "demo_coord = coord_boot\<lparr>g_mode := COORD_MODE_SIGN, g_n := 3, g_t := 2, g_tbs := [1, 2, 3],
     signers := [demo_signer 3 SPHASE_COMMITTED [9], demo_signer 1 SPHASE_COMMITTED [7], demo_signer 2 SPHASE_INIT []]\<rparr>"

definition demo_env :: "exec \<Rightarrow> cenv" where
  "demo_env ex = \<lparr>e_exec = ex, e_now = 100, e_form_time = (\<lambda>_. 100), e_can_write = (\<lambda>_. True), e_x509 = demo_x509,
     e_peer = (\<lambda>_. \<lparr>ts_is_x509 = True, ts_cert_list = [str_bytes ''certs/signer2.crt'']\<rparr>),
     e_heap_r1_sig = replicate FROST_FRAME_SIG_SIZE 0, e_heap_commit_sig = replicate FROST_FRAME_SIG_SIZE 0,
     e_heap_inbuf = replicate FROST_FRAME_MAX 0\<rparr>"

definition assemble_any :: exec where
  "assemble_any cmd input = Some (''ab'' @ [NL], 0)"

lemma demo_inv: "coord_inv demo_coord"
proof -
  have "idle (coord_boot\<lparr>g_mode := COORD_MODE_SIGN, g_n := 3, g_t := 2\<rparr>)" using coord_boot_idle by simp
  then show ?thesis
    by (simp add: idle_def demo_coord_def coord_inv_def signers_ok_def staged_ok_def demo_signer_def signer_ok_def
        id_ok_def rx_ok_def rx_init_def params_ok_def empty_sessions_ok buffers_ok_def FROST_MAX_SIGNERS_def
        FROST_COMMIT_ENTRY_MAX_def FROST_MAX_PAYLOAD_def)
qed

lemma demo_strikes [simp]: "get_strikes (replicate FROST_MAX_SIGNERS 0) i = 0"
  by (simp add: get_strikes_def)

lemma assemble_any_works: "frost_assemble_signing_package assemble_any b \<noteq> None"
proof -
  have "bytes_to_hex [171] = ''ab''" by (simp add: hi_nib_def lo_nib_def)
  then have h: "hex_to_bytes (''ab'' @ [NL]) FROST_MAX_PAYLOAD = Some [171]"
    using hex_to_bytes_to_hex [of "[NL]" "[171]" FROST_MAX_PAYLOAD] by (simp add: hex_blank_def frost_consts)
  have "fgets (FROST_MAX_PAYLOAD * 2 + 4) (''ab'' @ NL # []) = Some (''ab'' @ [NL], [])"
    by (rule fgets_line) simp_all
  with h show ?thesis by (simp add: frost_assemble_signing_package_def assemble_any_def)
qed

lemma demo_reliable:
  "filter (reliable demo_coord) (signers demo_coord) = [demo_signer 3 SPHASE_COMMITTED [9], demo_signer 1 SPHASE_COMMITTED [7]]"
  "filter (suspect demo_coord) (signers demo_coord) = []"
  by (simp_all add: demo_coord_def reliable_def suspect_def demo_signer_def coord_boot_def is_blacklisted_def)

lemma demo_forms: "\<exists>c'. roast_try_form_session (demo_env assemble_any) demo_coord = (True, c')"
proof (rule form_succeeds [OF demo_inv])
  show "list_ex (\<lambda>s. rs_state s = RSESS_EMPTY) (g_sessions demo_coord)"
    by (simp add: demo_coord_def coord_boot_def empty_session_def list_ex_iff ROAST_MAX_SESSIONS_def)
  show "frost_assemble_signing_package (e_exec (demo_env assemble_any)) b \<noteq> None" for b
    by (simp add: demo_env_def assemble_any_works)
qed (simp_all add: demo_reliable, simp_all add: demo_coord_def coord_boot_def frost_consts)

text \<open>The same deployment with a live session of signers 3 and 1; signer 1 has sent its share.\<close>

definition demo_session :: roast_session where
  "demo_session = (new_session (demo_env assemble_any) 1 [3, 1] [5])
     \<lparr>rs_shares := (replicate FROST_MAX_SIGNERS [])[1 := [8]], rs_n_shares := 1\<rparr>"

definition demo_live :: coord where
  "demo_live = demo_coord\<lparr>g_sessions := (g_sessions demo_coord)[0 := demo_session], g_next_session_id := 2,
     signers := [(demo_signer 3 SPHASE_IN_SESSION [9])\<lparr>sg_session_id := 1\<rparr>,
       (demo_signer 1 SPHASE_SHARED [7])\<lparr>sg_session_id := 1\<rparr>, demo_signer 2 SPHASE_INIT []]\<rparr>"

lemma demo_session_ok: "session_ok 2 demo_session"
proof -
  have "list_all id_ok [3, 1]" by (simp add: id_ok_def frost_consts)
  moreover have "list_all (\<lambda>x. length x \<le> FROST_MAX_PAYLOAD) ((replicate FROST_MAX_SIGNERS [])[1 := [8 :: u8]])"
    by (simp add: list_all_length nth_list_update frost_consts)
  ultimately show ?thesis
    unfolding session_ok_def demo_session_def new_session_def by (simp add: FROST_MAX_PAYLOAD_def)
qed

lemma demo_live_inv: "coord_inv demo_live"
proof -
  have "coord_inv (demo_coord\<lparr>g_sessions := (g_sessions demo_coord)[0 := demo_session]\<rparr>)"
    using demo_inv demo_session_ok coord_invD(4) [OF demo_inv]
    by (intro coord_inv_sessions sessions_ok_update) (simp_all add: demo_coord_def)
  then show ?thesis
    by (simp add: demo_live_def coord_inv_def signers_ok_def demo_signer_def signer_ok_def buffers_ok_def
        id_ok_def rx_ok_def rx_init_def FROST_MAX_SIGNERS_def FROST_COMMIT_ENTRY_MAX_def)
       (simp add: demo_coord_def)
qed

lemma demo_live_session [simp]: "g_sessions demo_live ! 0 = demo_session"
  by (simp add: demo_live_def demo_coord_def coord_boot_def ROAST_MAX_SESSIONS_def)

lemma demo_session_fields [simp]:
  "rs_state demo_session = RSESS_AWAITING_SHARES" "rs_signer_ids demo_session = [3, 1]" "rs_id demo_session = 1"
  "rs_deadline demo_session = 110"
  by (simp_all add: demo_session_def new_session_def demo_env_def ROAST_SESSION_TIMEOUT_SEC_def)

section \<open>Properties of sessions\<close>

text \<open>C4: A session the coordinator starts has exactly the threshold number of members, all different,
  connected, committed and not blacklisted: the first reliable signers in the order of the connections,
  then as many suspects as are missing. All of them, and nobody else, get the same relay, and it unpacks to
  one authenticated entry per member with that member's own commitment and signature.\<close>

theorem session_members_sound:
  assumes "coord_inv c" "roast_try_form_session env c = (True, c')"
  shows "\<exists>slot ids b. rs_state (g_sessions c ! slot) = RSESS_EMPTY
    \<and> rs_state (g_sessions c' ! slot) = RSESS_AWAITING_SHARES \<and> rs_signer_ids (g_sessions c' ! slot) = ids
    \<and> ids = take (unat (g_t c)) (map sg_id (filter (reliable c) (signers c) @ filter (suspect c) (signers c)))
    \<and> length ids = unat (g_t c) \<and> distinct ids
    \<and> (\<forall>i \<in> set ids. \<not> is_blacklisted (g_blacklist c) i)
    \<and> frost_unpack_commit_bundle (bundle_wire b) = Some (b, length (bundle_wire b))
    \<and> map ce_id (cb_entries b) = ids \<and> cb_tbs b = bundle_tbs c
    \<and> (\<forall>e \<in> set (cb_entries b). \<exists>s \<in> set (signers c). sg_id s = ce_id e \<and> sg_commit s \<noteq> []
         \<and> ce_commit e = sg_commit s \<and> ce_commit_sig e = sg_commit_sig s)
    \<and> signers c' = map (\<lambda>s. if sg_id s \<in> set ids then join_session (g_next_session_id c) (bundle_wire b) s else s) (signers c)"
proof -
  obtain chosen slot b spkg wire where f: "formed env c c' chosen slot b spkg wire"
    using roast_try_form_session_cases [OF assms(2)] by blast
  note ff = formed_facts [OF assms(1) f]
  have ok: "signers_ok (signers c)" using assms(1) by (rule coord_invD)
  have c': "c' = start_session env slot chosen spkg wire c" using f by (simp add: formed_def)
  have ent: "\<forall>e \<in> set (cb_entries b). \<exists>s \<in> set (signers c). sg_id s = ce_id e \<and> sg_commit s \<noteq> []
      \<and> ce_commit e = sg_commit s \<and> ce_commit_sig e = sg_commit_sig s"
  proof
    fix e assume e: "e \<in> set (cb_entries b)"
    then obtain s where s: "s \<in> set (signers c)" "sg_id s = ce_id e" "ce_commit e = sg_commit s" "ce_commit_sig e = sg_commit_sig s"
      using ff(11) by blast
    have "ce_id e \<in> set chosen" using e ff(7) by force
    then obtain s' where s': "s' \<in> set (signers c)" "sg_id s' = ce_id e" "sg_commit s' \<noteq> []"
      using ff(4) by (auto simp: reliable_def suspect_def)
    then have "s = s'" using s ok inj_onD [of sg_id "set (signers c)" s s'] by (simp add: signers_ok_def distinct_map)
    with s s' show "\<exists>s \<in> set (signers c). sg_id s = ce_id e \<and> sg_commit s \<noteq> []
      \<and> ce_commit e = sg_commit s \<and> ce_commit_sig e = sg_commit_sig s" by blast
  qed
  have "\<forall>i \<in> set chosen. \<not> is_blacklisted (g_blacklist c) i" using ff(4) by (auto simp: reliable_def suspect_def)
  moreover have "rs_state (g_sessions c' ! slot) = RSESS_AWAITING_SHARES" "rs_signer_ids (g_sessions c' ! slot) = chosen"
    using ff(9) by (simp_all add: c' start_session_fields new_session_def)
  moreover have "frost_unpack_commit_bundle (bundle_wire b) = Some (b, length (bundle_wire b))"
    using unpack_bundle_wire [OF ff(5), of "[]"] by simp
  moreover have "signers c' = map (\<lambda>s. if sg_id s \<in> set chosen then join_session (g_next_session_id c) (bundle_wire b) s else s) (signers c)"
    using start_session_signers [OF ok ff(1)] by (simp add: c' ff(6))
  ultimately show ?thesis using ff ent by blast
qed

theorem session_members_sound_witness:
  "\<exists>c' slot ids. roast_try_form_session (demo_env assemble_any) demo_coord = (True, c')
     \<and> rs_signer_ids (g_sessions c' ! slot) = ids \<and> ids = [3, 1]"
proof -
  obtain c' where c': "roast_try_form_session (demo_env assemble_any) demo_coord = (True, c')"
    using demo_forms by blast
  have "g_t demo_coord = 2" by (simp add: demo_coord_def)
  with session_members_sound [OF demo_inv c'] obtain slot where "rs_signer_ids (g_sessions c' ! slot) = [3, 1]"
    by (auto simp: demo_reliable demo_signer_def)
  with c' show ?thesis by blast
qed



section \<open>Blame\<close>

lemma join_only_committed:
  assumes "coord_inv c" "s \<in> set (signers c)" "sg_commit s = []"
  shows "s \<in> set (signers (form_if_room env c))"
proof (cases "\<exists>c'. roast_try_form_session env c = (True, c')")
  case True
  then obtain c' where f: "roast_try_form_session env c = (True, c')" by blast
  then obtain chosen slot b spkg wire where fm: "formed env c c' chosen slot b spkg wire"
    using roast_try_form_session_cases [OF f] by blast
  note ff = formed_facts [OF assms(1) fm]
  have ok: "signers_ok (signers c)" using assms(1) by (rule coord_invD)
  have "sg_id s \<notin> set chosen"
  proof
    assume "sg_id s \<in> set chosen"
    then obtain s' where "s' \<in> set (signers c)" "sg_id s' = sg_id s" "sg_commit s' \<noteq> []"
      using ff(4) by (auto simp: reliable_def suspect_def)
    then show False using assms(2,3) ok inj_onD [of sg_id "set (signers c)" s s'] by (auto simp: signers_ok_def distinct_map)
  qed
  then have "s \<in> set (signers c')"
    using start_session_signers [OF ok ff(1)] fm assms(2) by (force simp: formed_def)
  then show ?thesis using f assms(2) by (simp add: form_if_room_def)
next
  case False
  then obtain c' where "roast_try_form_session env c = (False, c')" by (metis (full_types) surj_pair)
  then show ?thesis using roast_try_form_session_cases assms(2) by (fastforce simp: form_if_room_def)
qed

lemma form_if_room_fields:
  "g_blacklist (form_if_room env c) = g_blacklist c" "g_strikes (form_if_room env c) = g_strikes c"
  "g_to_mint (form_if_room env c) = g_to_mint c" "g_num_minted (form_if_room env c) = g_num_minted c"
proof -
  obtain ok c' where f: "roast_try_form_session env c = (ok, c')" by (metis surj_pair)
  from roast_try_form_session_cases [OF f]
  show "g_blacklist (form_if_room env c) = g_blacklist c" "g_strikes (form_if_room env c) = g_strikes c"
    "g_to_mint (form_if_room env c) = g_to_mint c" "g_num_minted (form_if_room env c) = g_num_minted c"
    using f by (auto simp: form_if_room_def formed_def start_session_fields)
qed

lemma upd_signer_mem:
  "signers_ok (signers c) \<Longrightarrow> s \<in> set (signers c) \<Longrightarrow>
   (if sg_id s = i then f s else s) \<in> set (signers (upd_signer i f c))"
  by (auto simp: upd_signer_def update_first_as_map)

lemma fold_reset_mem:
  assumes "signers_ok (signers c)" "distinct is" "s \<in> set (signers c)" "sg_id s \<in> set is"
  shows "reset_signer tbs s \<in> set (signers (fold (\<lambda>i. upd_signer i (reset_signer tbs)) is c))"
  using assms fold_update_first [OF assms(1) keeps_signer_ops(3) assms(2), of tbs]
  by (force simp: fold_upd_signer)

lemma reset_signer_fields [simp]:
  "sg_phase (reset_signer tbs s) = SPHASE_INIT" "sg_commit (reset_signer tbs s) = []" "sg_session_id (reset_signer tbs s) = 0"
  "sg_msgq (reset_signer tbs s) = sg_msgq s @ [mk_outmsg FROST_MSG_SIGN_REQ [] 0 tbs (of_nat (length tbs))]"
  "sg_id (reset_signer tbs s) = sg_id s"
  by (simp_all add: reset_signer_def send_plain_def signer_send_def)

lemma culprit_innocents:
  assumes inv: "coord_inv c" and i: "i < ROAST_MAX_SESSIONS" "rs_state (g_sessions c ! i) \<noteq> RSESS_EMPTY" "id_ok culprit"
    and s: "s \<in> set (signers c)" "sg_id s \<in> set (rs_signer_ids (g_sessions c ! i))" "sg_id s \<noteq> culprit"
  shows "reset_signer (g_tbs c) s \<in> set (signers (roast_fail_culprit env i culprit c))"
proof -
  let ?ids = "filter (\<lambda>sid. sid \<noteq> culprit) (rs_signer_ids (g_sessions c ! i))"
  let ?c1 = "exclude culprit (session_failed i c)"
  let ?c2 = "fold (\<lambda>sid. upd_signer sid (reset_signer (g_tbs c))) ?ids ?c1"
  have inv1: "coord_inv ?c1" using session_failed_inv [OF inv i(1,2)] i(3) by (rule exclude_inv)
  have "s \<in> set (signers ?c1)"
    using upd_signer_mem [of "(session_failed i c)\<lparr>g_blacklist := blacklist_signer culprit (g_blacklist c)\<rparr>" s culprit]
      s(1,3) coord_invD(1) [OF inv] by (simp add: exclude_def)
  then have m: "reset_signer (g_tbs c) s \<in> set (signers ?c2)"
    using s(2,3) live_session(4) [OF inv i(1,2)] coord_invD(1) [OF inv1] by (intro fold_reset_mem) auto
  have "coord_inv ?c2" using inv1 by (intro fold_inv [where P = coord_inv]) (auto intro: upd_signer_inv)
  then have "reset_signer (g_tbs c) s \<in> set (signers (form_if_room env ?c2))"
    using m by (rule join_only_committed) simp
  then show ?thesis by (simp add: roast_fail_culprit_def Let_def)
qed

lemma culprit_blacklist:
  "g_blacklist (roast_fail_culprit env i culprit c) = blacklist_signer culprit (g_blacklist c)"
  "g_strikes (roast_fail_culprit env i culprit c) = g_strikes c"
  by (simp_all add: roast_fail_culprit_def Let_def form_if_room_fields
      fold_keeps [where F = g_blacklist] fold_keeps [where F = g_strikes])



section \<open>Timeouts\<close>

lemma expire_member_ids: "coord_inv c \<Longrightarrow> map sg_id (signers (expire_member m c)) = map sg_id (signers c)"
  by (auto simp: expire_member_def Let_def exclude_def upd_signer_def keeps_signerD
      intro!: map_update_first_same split: prod.splits option.splits)

lemma find_signer_None: "find_signer i c = None \<longleftrightarrow> i \<notin> sg_id ` set (signers c)"
  by (auto simp: find_signer_def find_None_conv)

definition connected :: "coord \<Rightarrow> u16 \<Rightarrow> bool" where
  "connected c i \<longleftrightarrow> i \<in> sg_id ` set (signers c)"

lemma connected_find: "connected c i \<longleftrightarrow> find_signer i c \<noteq> None"
  by (simp add: connected_def find_signer_None)

lemma expire_member_tables:
  "g_strikes (expire_member (sid, share) c)
     = (if share = [] \<and> connected c sid then add_strike sid (g_strikes c) else g_strikes c)"
  "g_blacklist (expire_member (sid, share) c)
     = (if share = [] \<and> connected c sid \<and> FROST_MAX_STRIKES \<le> get_strikes (add_strike sid (g_strikes c)) sid
        then blacklist_signer sid (g_blacklist c) else g_blacklist c)"
  by (auto simp: expire_member_def Let_def connected_find split: option.splits)

lemma expire_member_penalty:
  assumes "strikes_ok (g_strikes c)" "id_ok (fst m)"
  shows "get_strikes (g_strikes (expire_member m c)) j
      = get_strikes (g_strikes c) j + (if fst m = j \<and> snd m = [] \<and> connected c j then 1 else 0)"
    and "is_blacklisted (g_blacklist (expire_member m c)) j \<Longrightarrow>
      is_blacklisted (g_blacklist c) j \<or> fst m = j \<and> snd m = [] \<and> connected c j"
proof -
  obtain sid share where m: "m = (sid, share)" by force
  show "get_strikes (g_strikes (expire_member m c)) j
      = get_strikes (g_strikes c) j + (if fst m = j \<and> snd m = [] \<and> connected c j then 1 else 0)"
    using assms strikes.get_bump [OF assms(1), of sid j] by (auto simp: m expire_member_tables)
  show "is_blacklisted (g_blacklist c) j \<or> fst m = j \<and> snd m = [] \<and> connected c j"
    if "is_blacklisted (g_blacklist (expire_member m c)) j"
    using that excluded.member_only [of sid "g_blacklist c" j] by (auto simp: m expire_member_tables split: if_split_asm)
qed

text \<open>All members of one expired session, whose ids differ.\<close>

lemma expire_members_strikes:
  assumes "coord_inv c" "\<forall>m \<in> set ms. id_ok (fst m)" "distinct (map fst ms)"
  shows "get_strikes (g_strikes (fold expire_member ms c)) j
      = get_strikes (g_strikes c) j + (if (j, []) \<in> set ms \<and> connected c j then 1 else 0)"
  using assms
proof (induction ms arbitrary: c)
  case (Cons m ms)
  let ?c = "expire_member m c"
  have inv: "coord_inv ?c" using Cons.prems by (intro expire_member_inv) auto
  have con: "connected ?c j = connected c j"
    using arg_cong [OF expire_member_ids [OF Cons.prems(1), of m], of set] by (simp add: connected_def)
  have st: "strikes_ok (g_strikes c)" using coord_invD(5) [OF Cons.prems(1)] by (simp add: penalties_ok_def)
  have "fst m \<noteq> j" if "(j, []) \<in> set ms" using Cons.prems(3) that image_eqI [of j fst "(j, [])" "set ms"] by auto
  then show ?case
    using Cons.IH [OF inv] Cons.prems expire_member_penalty(1) [OF st, of m j] con
    by (cases m) auto
qed simp

lemma expire_members_blacklist:
  assumes "coord_inv c" "\<forall>m \<in> set ms. id_ok (fst m)" "is_blacklisted (g_blacklist (fold expire_member ms c)) j"
  shows "is_blacklisted (g_blacklist c) j \<or> (j, []) \<in> set ms \<and> connected c j"
  using assms
proof (induction ms arbitrary: c)
  case (Cons m ms)
  let ?c = "expire_member m c"
  have inv: "coord_inv ?c" using Cons.prems by (intro expire_member_inv) auto
  have con: "connected ?c j = connected c j"
    using arg_cong [OF expire_member_ids [OF Cons.prems(1), of m], of set] by (simp add: connected_def)
  have st: "strikes_ok (g_strikes c)" using coord_invD(5) [OF Cons.prems(1)] by (simp add: penalties_ok_def)
  from Cons.IH [OF inv] Cons.prems have "is_blacklisted (g_blacklist ?c) j \<or> (j, []) \<in> set ms \<and> connected ?c j" by simp
  then show ?case using con expire_member_penalty(2) [OF st, of m j] Cons.prems(2) by (cases m) auto
qed simp

lemma members_distinct: "distinct (rs_signer_ids s) \<Longrightarrow> distinct (map fst (session_members s))"
  by (metis session_members_def map_fst_zip_take distinct_take)



end
