(* ===== verification/Coord_Runs.thy ===== *)
theory Coord_Runs
  imports Coord_Props
begin

text \<open>
  Properties of whole runs of the coordinator: the blacklist only grows, the mint counters
  add up, and who is admitted.
\<close>

section \<open>What no step takes back\<close>

text \<open>
  From one state to a later one, blacklisted ids stay blacklisted, the mode stays, and
  certificates minted and still to mint add up to the same number (modulo \<open>2 ^ 64\<close>).
\<close>

definition frame :: "coord \<Rightarrow> coord \<Rightarrow> bool" where
  "frame c c' \<longleftrightarrow> set (g_blacklist c) \<subseteq> set (g_blacklist c') \<and> g_mode c' = g_mode c \<and>
     g_num_minted c' + g_to_mint c' = g_num_minted c + g_to_mint c"

lemma frame_refl [simp]: "frame c c"
  by (simp add: frame_def)

lemma frame_trans: "frame a b \<Longrightarrow> frame b c \<Longrightarrow> frame a c"
  unfolding frame_def by (metis order_trans)

lemma frame_fold: "(\<And>x c. frame c (f x c)) \<Longrightarrow> frame c (fold f xs c)"
  by (induction xs arbitrary: c) (auto intro: frame_trans)

text \<open>Operations that leave the three parts alone.\<close>

lemma frame_quiet [simp]:
  "frame a (upd_signer i f c) = frame a c" "frame a (upd_staged k g c) = frame a c"
  "frame a (upd_session j h c) = frame a c" "frame a (broadcast ty p c) = frame a c"
  "frame a (remove_signer i c) = frame a c" "frame a (remove_staged k c) = frame a c"
  "frame a (c\<lparr>g_signing_done := b\<rparr>) = frame a c" "frame a (c\<lparr>g_roast_fail := b\<rparr>) = frame a c"
  "frame a (c\<lparr>g_dkg_state := d\<rparr>) = frame a c" "frame a (c\<lparr>g_strikes := tab\<rparr>) = frame a c"
  "frame a (c\<lparr>signers := ss\<rparr>) = frame a c" "frame a (c\<lparr>staged := sts\<rparr>) = frame a c"
  "frame a (c\<lparr>g_refresh_complete_count := r\<rparr>) = frame a c" "frame a (c\<lparr>g_tracking_bytes_sent := tr\<rparr>) = frame a c"
  "frame a (c\<lparr>g_tracking_bytes_rcvd := tr\<rparr>) = frame a c" "frame a (c\<lparr>key_cache := kc\<rparr>) = frame a c"
  "frame a (c\<lparr>g_n := n, g_t := t\<rparr>) = frame a c" "frame a (c\<lparr>g_pub_key_pkg := bs, files_written := fs\<rparr>) = frame a c"
  "frame a (c\<lparr>g_pub_key_pkg := bs\<rparr>) = frame a c"
  "frame a (c\<lparr>g_serial := m, g_output_file := txt\<rparr>) = frame a c"
  "frame a (c\<lparr>g_dummy_cert := txt, g_tbs := bs, g_tbs_hex := txt'\<rparr>) = frame a c"
  "frame a (c\<lparr>g_next_session_id := k', g_sessions := rs\<rparr>) = frame a c"
  "frame a (c\<lparr>g_dummy_cert := txt, g_tbs := bs, g_tbs_hex := txt', g_sessions := rs\<rparr>) = frame a c"
  by (simp_all add: frame_def upd_signer_def upd_staged_def upd_session_def broadcast_def remove_signer_def remove_staged_def)

lemma frame_quiet_left [simp]:
  "frame (upd_signer i f c) b = frame c b" "frame (upd_session j h c) b = frame c b"
  "frame (c\<lparr>g_tracking_bytes_rcvd := tr\<rparr>) b = frame c b" "frame (c\<lparr>g_signing_done := d\<rparr>) b = frame c b"
  by (simp_all add: frame_def upd_signer_def upd_session_def)

lemma frame_exclude: "frame c (exclude i c)"
  using excluded.member_mono [of "g_blacklist c"]
  by (auto simp: exclude_def frame_def is_blacklisted_set upd_signer_def)

lemma frame_session_failed [simp]: "frame a (session_failed i c) = frame a c"
  by (simp add: session_failed_def)

lemma frame_start_session: "frame c (start_session env slot chosen spkg wire c)"
  unfolding start_session_def Let_def by (rule frame_trans [OF _ frame_fold]) simp_all

lemma frame_form: "frame c (form_if_room env c)"
proof -
  obtain ok c' where f: "roast_try_form_session env c = (ok, c')" by (metis surj_pair)
  have "frame c c'" using roast_try_form_session_cases [OF f] by (auto simp: formed_def frame_start_session)
  then show ?thesis using f by (simp add: form_if_room_def)
qed

lemma frame_culprit: "frame c (roast_fail_culprit env i k c)"
proof -
  let ?c1 = "exclude k (session_failed i c)"
  let ?c2 = "fold (\<lambda>sid. upd_signer sid (reset_signer (g_tbs c)))
    (filter (\<lambda>sid. sid \<noteq> k) (rs_signer_ids (g_sessions c ! i))) ?c1"
  have "frame c ?c1" by (rule frame_trans [OF _ frame_exclude]) simp
  moreover have "frame ?c1 ?c2" by (rule frame_fold) simp
  ultimately have "frame c (form_if_room env ?c2)" using frame_trans frame_form by blast
  then show ?thesis by (simp add: roast_fail_culprit_def Let_def)
qed

lemma frame_unknown: "frame c (roast_fail_unknown i c)"
proof -
  have "frame c (fold exclude (rs_signer_ids (g_sessions c ! i)) (session_failed i c))"
    by (rule frame_trans [OF _ frame_fold]) (simp_all add: frame_exclude)
  then show ?thesis by (simp add: roast_fail_unknown_def Let_def broadcast_sign_req_def)
qed

lemma frame_session_fail: "frame c (session_fail env i l c)"
  by (simp add: session_fail_def Let_def frame_culprit frame_unknown)

lemma frame_minted: "frame c (minted cert c)"
  by (simp add: frame_def minted_def)

lemma frame_complete: "session_complete env i s c = Cont c' \<Longrightarrow> frame c c'"
proof -
  let ?c1 = "(upd_session i (rs_state_update (\<lambda>_. RSESS_COMPLETE)) c)\<lparr>g_signing_done := True\<rparr>"
  assume "session_complete env i s c = Cont c'"
  then obtain ok c2 where m: "call_mint env s ?c1 = Cont (ok, c2)"
    and c': "c' = (if ok then broadcast FROST_MSG_CERT_OUTPUT [] c2 else c2)"
    by (auto simp: session_complete_def Let_def split: outcome.split_asm prod.split_asm)
  have "frame ?c1 c2" using call_mint_cases [OF m] frame_minted [of ?c1] by auto
  then show ?thesis using c' by simp
qed

lemma frame_aggregate: "roast_try_aggregate env i c = Cont c' \<Longrightarrow> frame c c'"
  unfolding roast_try_aggregate_def Let_def
  by (auto simp: frame_session_fail frame_complete split: if_split_asm option.split_asm prod.split_asm)

lemma frame_expire_member: "frame c (expire_member m c)"
  unfolding expire_member_def Let_def
  by (auto intro: frame_trans [OF _ frame_exclude] split: prod.splits option.splits)

lemma frame_expire: "frame c (roast_expire_sessions env c)"
proof -
  have "frame c (expire_slot env i c)" for i c
  proof -
    have "frame c (fold expire_member (session_members (g_sessions c ! i)) (session_failed i c))"
      by (rule frame_trans [OF _ frame_fold]) (simp_all add: frame_expire_member)
    then show ?thesis using frame_trans frame_form by (auto simp: expire_slot_def Let_def)
  qed
  then show ?thesis unfolding roast_expire_sessions_def by (rule frame_fold)
qed

lemma frame_relays: "frame c (fold (relay_to_all ty) ps c)"
  by (rule frame_fold) (simp add: relay_to_all_def)

lemma frame_dkg [simp]:
  "frame a c \<Longrightarrow> frame a (maybe_start_dkg c)" "frame a c \<Longrightarrow> frame a (check_r1_complete c)"
  "frame a c \<Longrightarrow> frame a (check_r2_complete c)" "frame a c \<Longrightarrow> frame a (maybe_start_refresh c)"
  "frame a c \<Longrightarrow> frame a (check_refresh_r1_complete c)" "frame a c \<Longrightarrow> frame a (check_refresh_r2_complete c)"
  "frame a c \<Longrightarrow> frame a (check_refresh_all_confirmed c)"
  by (auto simp: maybe_start_dkg_def check_r1_complete_def check_r2_complete_def maybe_start_refresh_def
      check_refresh_r1_complete_def check_refresh_r2_complete_def check_refresh_all_confirmed_def
      relay_r1_to_all_def relay_refresh_r1_to_all_def intro: frame_trans [OF _ frame_relays])

lemma frame_process: "process_signer_frame env sid ty sig slen payload c = Cont c' \<Longrightarrow> frame c c'"
proof (cases ty)
  case FROST_MSG_COMMIT
  then show "process_signer_frame env sid ty sig slen payload c = Cont c' \<Longrightarrow> ?thesis"
    by (auto simp: on_commit_def intro!: frame_trans [OF _ frame_form] split: if_split_asm option.split_asm)
next
  case FROST_MSG_SIG_SHARE
  then show "process_signer_frame env sid ty sig slen payload c = Cont c' \<Longrightarrow> ?thesis"
    by (auto simp: on_sig_share_def Let_def dest!: frame_aggregate split: if_split_asm option.split_asm)
qed (auto simp: on_round1_pkg_def r1_guarded_def on_round2_pkg_def route_r2_def relay_r2_def on_r2_complete_def
      on_refresh_r1_def on_refresh_r2_def on_refresh_r2_complete_def on_refresh_complete_def Let_def report_pub_key_def
      store_pub_key_def on_pub_key_pkg_def on_share_load_fail_def
      split: if_split_asm option.split_asm outcome.split_asm)

lemma frame_prepare_tbs: "prepare_tbs env c = (ok, c1) \<Longrightarrow> frame c c1"
  by (erule prepare_tbs_cases) simp_all

lemma frame_next_cert: "frame c (next_cert env c)"
proof -
  let ?c1 = "c\<lparr>g_serial := g_serial c + 1,
     g_output_file := snprintf 256 (''./output/user_key-cert-'' @ fmt_u (unat (g_serial c + 1)) @ ''.pub'')\<rparr>"
  obtain ok c2 where p: "prepare_tbs env ?c1 = (ok, c2)" by (metis surj_pair)
  have "frame c c2" using frame_trans [OF _ frame_prepare_tbs [OF p]] by simp
  then show ?thesis using p by (simp add: next_cert_def Let_def broadcast_sign_req_def)
qed

lemma frame_hello: "frame c (handle_hello env sock payload c)"
proof -
  have "frame a (promote env s pid c)" if "frame a c" for a c s pid
    using that by (cases "g_mode c") (simp_all add: promote_def Let_def)
  then have "frame a (admit env s pid c)" if "frame a c" for a c s pid
    using that by (auto simp: admit_def Let_def hello_error_def split: option.splits)
  then show ?thesis by (auto simp: handle_hello_def hello_error_def split: option.splits)
qed

lemma frame_step: "coord_step c c' \<Longrightarrow> frame c c'"
proof (erule coord_stepE, goal_cases)
  case (1 env)
  then show ?case by (auto simp: loop_head_def head_sign_def head_dkg_def frame_next_cert split: if_split_asm)
next
  case (5 env sock r)
  then show ?case
    by (auto simp: staged_read_def Let_def intro: frame_trans [OF _ frame_hello]
        split: option.splits recv_result.splits if_splits)
next
  case (7 env sid r)
  then show ?case
    by (auto simp: signer_read_def Let_def dest!: frame_process
        split: option.split_asm recv_result.split_asm if_split_asm)
qed (auto simp: maybe_expire_def frame_expire accept_conn_def drain_staged_write_def drain_signer_write_def Let_def
      split: option.splits list.splits send_result.splits)

lemma frame_run: "coord_step\<^sup>*\<^sup>* c c' \<Longrightarrow> frame c c'"
  by (induction rule: rtranclp_induct) (auto intro: frame_trans frame_step)

lemma run_inv: "coord_step\<^sup>*\<^sup>* c c' \<Longrightarrow> coord_inv c \<Longrightarrow> coord_inv c'"
  by (induction rule: rtranclp_induct) (auto intro: coord_step_inv)

section \<open>Start\<close>

lemma start_num_minted: "coord_init c \<Longrightarrow> g_num_minted c = 0"
proof -
  have ap: "apply_opt a v c = Some c' \<Longrightarrow> g_num_minted c' = g_num_minted c" for a v c c'
    by (simp add: apply_opt_def split: if_split_asm) auto
  have op: "parse_opts as c = Some c' \<Longrightarrow> g_num_minted c' = g_num_minted c" for as c c'
    by (induction as c rule: parse_opts.induct) (auto dest: ap split: option.split_asm)
  have fa: "parse_fault as c = Some c' \<Longrightarrow> g_num_minted c' = g_num_minted c" for as c c'
    by (induction as c rule: parse_fault.induct) (auto split: if_split_asm)
  have pt: "prepare_tbs env c = (ok, c1) \<Longrightarrow> g_num_minted c1 = g_num_minted c" for env c ok c1
    by (erule prepare_tbs_cases) simp_all
  have sg: "init_sign env fl c = Cont c' \<Longrightarrow> g_num_minted c' = g_num_minted c" for env fl c c'
    by (auto simp: init_sign_def Let_def dest!: pt split: if_split_asm option.split_asm prod.split_asm)
  assume "coord_init c"
  then obtain env fl args where "coord_start env fl args = Cont c" by (auto simp: coord_init_def)
  then obtain m opts mode c1 c2 where
    "parse_opts opts (coord_boot\<lparr>g_mode := mode\<rparr>) = Some c1" "parse_fault opts c1 = Some c2"
    and c: "(case mode of COORD_MODE_SIGN \<Rightarrow> init_sign env fl c2 | COORD_MODE_REFRESH \<Rightarrow> init_refresh fl c2
             | COORD_MODE_DKG \<Rightarrow> Cont c2) = Cont c"
    by (auto simp: coord_start_def split: list.split_asm option.split_asm)
  then have "g_num_minted c2 = 0" using op fa by (fastforce simp: coord_boot_def)
  then show "g_num_minted c = 0"
    using c sg by (cases mode) (auto simp: init_refresh_def split: option.split_asm)
qed

definition demo_boot :: coord where
  "demo_boot = coord_boot\<lparr>g_mode := COORD_MODE_DKG\<rparr>"

lemma demo_boot_init: "coord_init demo_boot"
proof -
  have "coord_start (demo_env assemble_any) None [''dkg''] = Cont demo_boot"
    by (simp add: coord_start_def parse_mode_def demo_boot_def)
  then show ?thesis unfolding coord_init_def by blast
qed

lemma demo_env_ok: "env_ok (demo_env ex)"
  by (simp add: env_ok_def demo_env_def)

section \<open>Properties of runs\<close>

text \<open>C8: In every state the coordinator can reach, whatever its peers send, no two connections hold the same id,
  every id is within range, the blacklist has no duplicates and fits its array, a signer with two strikes is on
  it, and every session that was ever started has exactly the threshold number of different members.\<close>

theorem coordinator_state_sound:
  assumes "reach coord_init coord_step c"
  shows "distinct (map sg_id (signers c)) \<and> (\<forall>s \<in> set (signers c). 1 \<le> unat (sg_id s) \<and> unat (sg_id s) \<le> FROST_MAX_SIGNERS)
    \<and> distinct (g_blacklist c) \<and> length (g_blacklist c) \<le> FROST_MAX_SIGNERS
    \<and> (\<forall>sid. FROST_MAX_STRIKES \<le> get_strikes (g_strikes c) sid \<longrightarrow> is_blacklisted (g_blacklist c) sid)
    \<and> (\<forall>s \<in> set (g_sessions c). rs_state s \<noteq> RSESS_EMPTY \<longrightarrow>
         length (rs_signer_ids s) = unat (g_t c) \<and> distinct (rs_signer_ids s))"
  using coordsys.reach_inv [OF assms]
  by (auto simp: coord_inv_def signers_ok_def signer_ok_def id_ok_def penalties_ok_def blacklist_ok_def
      sessions_ok_def session_ok_def list_all_iff)

theorem coordinator_state_sound_witness:
  "distinct (map sg_id (signers (accept_conn (demo_env assemble_any) 7 demo_boot)))
   \<and> distinct (g_blacklist (accept_conn (demo_env assemble_any) 7 demo_boot))"
proof -
  have "coord_step demo_boot (accept_conn (demo_env assemble_any) 7 demo_boot)"
    by (rule step_accept) (simp_all add: demo_env_ok demo_boot_def coord_boot_def)
  with demo_boot_init have "reach coord_init coord_step (accept_conn (demo_env assemble_any) 7 demo_boot)"
    by (blast intro: reach_init reach_step)
  from coordinator_state_sound [OF this] show ?thesis by blast
qed


definition demo_barred :: coord where
  "demo_barred = demo_coord\<lparr>g_blacklist := [2]\<rparr>"

lemma demo_barred_inv: "coord_inv demo_barred"
proof -
  have "coord_inv (demo_coord\<lparr>g_strikes := g_strikes demo_coord, g_blacklist := [2]\<rparr>)"
    using coord_invD(5) [OF demo_inv] demo_inv
    by (intro coord_inv_penalties)
       (auto simp: penalties_ok_def blacklist_ok_def id_ok_def frost_consts demo_coord_def coord_boot_def is_blacklisted_def)
  then show ?thesis by (simp add: demo_barred_def)
qed

lemma demo_barred_forms: "\<exists>c'. roast_try_form_session (demo_env assemble_any) demo_barred = (True, c')"
proof (rule form_succeeds [OF demo_barred_inv])
  show "list_ex (\<lambda>s. rs_state s = RSESS_EMPTY) (g_sessions demo_barred)"
    by (simp add: demo_barred_def demo_coord_def coord_boot_def empty_session_def list_ex_iff ROAST_MAX_SESSIONS_def)
  show "frost_assemble_signing_package (e_exec (demo_env assemble_any)) b \<noteq> None" for b
    by (simp add: demo_env_def assemble_any_works)
  show "unat (g_t demo_barred) \<le> length (filter (reliable demo_barred) (signers demo_barred))
      + length (filter (suspect demo_barred) (signers demo_barred))"
    by (simp add: demo_barred_def demo_coord_def reliable_def suspect_def demo_signer_def coord_boot_def is_blacklisted_def)
qed (simp_all add: demo_barred_def demo_coord_def coord_boot_def frost_consts)



definition demo_done :: coord where
  "demo_done = demo_coord\<lparr>g_num_minted := 3, g_to_mint := 0, g_signing_done := True\<rparr>"


end
