(* ===== verification/Coord_Loop.thy ===== *)
theory Coord_Loop
  imports Coord_Runs
begin

text \<open>
  The event loop refines the step relation: one iteration of the coordinator's loop, with
  everything it serves between two calls of \<^verbatim>\<open>select\<close>, is a run of single steps. Every
  property of runs therefore holds of the loop as it is written.
\<close>

section \<open>One iteration is a run of steps\<close>

text \<open>
  What the loop relies on: allocated memory has its size, and \<^verbatim>\<open>accept\<close> returns a descriptor
  that is not in use.
\<close>

definition accept_fresh :: "loop_io \<Rightarrow> coord \<Rightarrow> bool" where
  "accept_fresh io c \<longleftrightarrow>
     (case (loop_head (io_head io) c, io_accept io) of
        (Cont c1, Some sock) \<Rightarrow> sock \<notin> set (map st_sock (staged (maybe_expire (io_expire io) c1)))
      | _ \<Rightarrow> True)"

definition io_ok :: "loop_io \<Rightarrow> coord \<Rightarrow> bool" where
  "io_ok io c \<longleftrightarrow> (\<forall>sock. env_ok (fst (io_staged io sock))) \<and> accept_fresh io c"

inductive loop_step :: "coord \<Rightarrow> coord \<Rightarrow> bool" where
  iteration: "io_ok io c \<Longrightarrow> loop_body io c = Cont c' \<Longrightarrow> loop_step c c'"

inductive_cases loop_stepE: "loop_step c c'"

lemma serve_staged_steps:
  assumes "\<forall>sock. env_ok (fst (io_staged io sock))"
  shows "coord_step\<^sup>*\<^sup>* c (serve_staged io ws rs sock c)"
proof -
  obtain env e where io: "io_staged io sock = (env, e)" by (metis surj_pair)
  with assms have "env_ok env" by (metis fst_conv)
  then show ?thesis
    by (cases e) (auto simp: serve_staged_def io intro: step_staged_write step_staged_read)
qed

lemma fold_steps:
  "(\<And>x c. coord_step\<^sup>*\<^sup>* c (f x c)) \<Longrightarrow> coord_step\<^sup>*\<^sup>* c (fold f xs c)"
  by (induction xs arbitrary: c) (auto intro: rtranclp_trans)

lemma serve_signer_steps: "serve_signer io ws rs sg c = Cont c' \<Longrightarrow> coord_step\<^sup>*\<^sup>* c c'"
  unfolding serve_signer_def
  by (auto intro: step_signer_write step_signer_read split: prod.split_asm conn_io.split_asm if_split_asm)

lemma serve_signers_steps: "serve_signers io ws rs sgs c = Cont c' \<Longrightarrow> coord_step\<^sup>*\<^sup>* c c'"
proof (induction sgs arbitrary: c)
  case (Cons sg sgs)
  then obtain c1 where "serve_signer io ws rs sg c = Cont c1" "serve_signers io ws rs sgs c1 = Cont c'"
    by (cases "serve_signer io ws rs sg c") auto
  then show ?case using Cons.IH serve_signer_steps by (blast intro: rtranclp_trans)
qed simp

lemma loop_body_steps:
  assumes "io_ok io c" "loop_body io c = Cont c'"
  shows "coord_step\<^sup>*\<^sup>* c c'"
proof -
  obtain c1 where h: "loop_head (io_head io) c = Cont c1"
    using assms(2) by (cases "loop_head (io_head io) c") (auto simp: loop_body_def)
  then have s1: "coord_step\<^sup>*\<^sup>* c c1" by (blast intro: step_head)
  let ?c2 = "maybe_expire (io_expire io) c1"
  have s2: "coord_step\<^sup>*\<^sup>* c ?c2" using s1 by (meson rtranclp.rtrancl_into_rtrancl step_expire)
  show ?thesis
  proof (cases "io_sel io")
    case SelReady
    let ?c3 = "case io_accept io of Some sock \<Rightarrow> accept_conn (fst (io_staged io sock)) sock ?c2 | None \<Rightarrow> ?c2"
    let ?c4 = "fold (serve_staged io (write_set c1) (read_set c1)) (map st_sock (staged ?c3)) ?c3"
    have "coord_step\<^sup>*\<^sup>* ?c2 ?c3"
      using assms(1) h by (auto simp: io_ok_def accept_fresh_def intro!: r_into_rtranclp step_accept split: option.split)
    moreover have "coord_step\<^sup>*\<^sup>* ?c3 ?c4"
      using assms(1) by (intro fold_steps serve_staged_steps) (simp add: io_ok_def)
    moreover have "coord_step\<^sup>*\<^sup>* ?c4 c'"
      using assms(2) h SelReady by (intro serve_signers_steps) (simp add: loop_body_def Let_def)
    ultimately show ?thesis using s2 by (meson rtranclp_trans)
  qed (use assms(2) h s1 s2 in \<open>auto simp: loop_body_def Let_def\<close>)
qed

interpretation looprun: refinement "\<lambda>c. c" coord_step loop_step coord_inv
proof
  show "coord_step\<^sup>*\<^sup>* s t" if "loop_step s t" for s t
    using that by (auto elim!: loop_stepE intro: loop_body_steps)
  then show "coord_inv t" if "coord_inv s" "loop_step s t" for s t
    using that run_inv by blast
qed

section \<open>Property\<close>


definition demo_io :: loop_io where
  "demo_io = \<lparr>io_sel = SelReady, io_accept = Some 9, io_head = demo_env assemble_any, io_expire = demo_env assemble_any,
     io_staged = (\<lambda>_. (demo_env assemble_any, IoNone)), io_signer = (\<lambda>_. (demo_env assemble_any, IoNone))\<rparr>"


end
