(* ===== verification/Coord_Safety.thy ===== *)
theory Coord_Safety
  imports Coord_Loop
begin

text \<open>
  What single frames can do to the coordinator: who a HELLO admits, which frames overrun an
  array, what a repeated share or an unsolicited key package brings about, what a relay round
  delivers, and what the bytes to be signed end in.
\<close>

section \<open>Admission\<close>

lemma connected_simps [simp]:
  "connected (hello_error sock msg c) j = connected c j" "connected (c\<lparr>key_cache := kc\<rparr>) j = connected c j"
  "connected (c\<lparr>g_n := n, g_t := t\<rparr>) j = connected c j" "connected (broadcast ty p c) j = connected c j"
  "connected (c\<lparr>g_dkg_state := d\<rparr>) j = connected c j"
  by (auto simp: connected_def hello_error_def upd_staged_def broadcast_def image_image)

lemma connected_upd_signer [simp]: "(\<And>s. sg_id (f s) = sg_id s) \<Longrightarrow> connected (upd_signer i f c) j = connected c j"
  using map_update_first_same [of sg_id f "\<lambda>s. sg_id s = i" "signers c"]
  by (simp add: connected_def upd_signer_def flip: set_map)

lemma connected_promote: "connected (promote env sock pid c) j \<longleftrightarrow> j = pid \<or> connected c j"
proof -
  let ?c1 = "(remove_staged sock c)\<lparr>signers := send_plain FROST_MSG_HELLO_ACK (ack_text pid c) (new_signer env sock pid c) # signers c\<rparr>"
  have "connected ?c1 j \<longleftrightarrow> j = pid \<or> connected c j" by (auto simp: connected_def new_signer_def)
  then show ?thesis
    by (cases "g_mode c") (simp_all add: promote_def Let_def maybe_start_dkg_def maybe_start_refresh_def)
qed

lemma admit_verified:
  assumes "connected (admit env sock pid c) j" "\<not> connected c j" "cache_faithful (e_x509 env) (key_cache c)"
  shows "j = pid \<and> (\<exists>kc. cache_faithful (e_x509 env) kc \<and> verify_peer_tls_identity (e_x509 env) kc (e_peer env sock) pid)"
  using assms ensure_faithful [OF assms(3)]
  by (auto simp: admit_def Let_def connected_promote split: option.split_asm if_split_asm)

text \<open>C14: A HELLO makes a connection a signer only if its text names that id with sane group parameters and
  the TLS certificate the peer presented carries the key of that id's own certificate file.\<close>

theorem hello_admits_only_verified:
  assumes "cache_faithful (e_x509 env) (key_cache c)" "\<not> connected c sid"
    and "connected (handle_hello env sock payload c) sid"
  shows "\<exists>n t leaf rest crt peer_pub pk d. parse_hello (hello_text payload) = Some (sid, n, t) \<and> hello_ok sid n t
    \<and> ts_cert_list (e_peer env sock) = leaf # rest \<and> x_import_der (e_x509 env) leaf = Some crt
    \<and> x_pubkey_of (e_x509 env) crt = Some peer_pub \<and> key_from_file (e_x509 env) sid pk
    \<and> x_export_der (e_x509 env) peer_pub = Some d \<and> x_export_der (e_x509 env) pk = Some d"
proof -
  obtain pid n t where h: "parse_hello (hello_text payload) = Some (pid, n, t)" "hello_ok pid n t"
    and a: "connected (admit env sock pid (c\<lparr>g_n := n, g_t := t\<rparr>)) sid \<or> connected (admit env sock pid c) sid"
    using assms(2,3) by (auto simp: handle_hello_def split: option.split_asm if_split_asm)
  from a have "sid = pid \<and> (\<exists>kc. cache_faithful (e_x509 env) kc \<and> verify_peer_tls_identity (e_x509 env) kc (e_peer env sock) pid)"
    using assms(1,2) admit_verified [of env sock pid c sid] admit_verified [of env sock pid "c\<lparr>g_n := n, g_t := t\<rparr>" sid] by auto
  then show ?thesis using h verify_peer_sound by blast
qed

text \<open>A first HELLO on a fresh coordinator, from the holder of certificate 2.\<close>

definition hello_env :: cenv where
  "hello_env = (demo_env assemble_any)\<lparr>e_peer := \<lambda>_. \<lparr>ts_is_x509 = True, ts_cert_list = [str_bytes (cert_path 2)]\<rparr>\<rparr>"

lemma hello_demo_parse: "parse_hello (hello_text (str_bytes ''SIGNER 2 3 2'')) = Some (2, 3, 2)"
  by (simp add: parse_hello_def hello_text_def c_string_def isspace_def scan_hu_def scan_int_def starts_digit_def digit_val_def str_bytes_def
      bytes_str_def)

lemma hello_demo_connected: "connected (handle_hello hello_env 7 (str_bytes ''SIGNER 2 3 2'') demo_boot) 2"
proof -
  obtain kc where kc: "ensure_signer_pubkey_cached demo_x509 2 empty_cache = Some kc"
    and pk: "get_signer_pubkey kc 2 = Some (str_bytes (cert_path 2))"
    by (simp add: ensure_signer_pubkey_cached_def load_signer_pubkey_def load_cert_def demo_x509_def
        empty_cache_def get_signer_pubkey_def frost_consts nth_list_update)
  from pk have v: "verify_peer_tls_identity demo_x509 kc \<lparr>ts_is_x509 = True, ts_cert_list = [str_bytes (cert_path 2)]\<rparr> 2"
    by (simp add: verify_peer_tls_identity_def same_der_def demo_x509_def)
  have "hello_ok 2 3 2" by (simp add: hello_ok_def frost_consts)
  then show ?thesis
    using kc v
    by (simp add: handle_hello_def hello_demo_parse admit_def hello_env_def demo_env_def demo_boot_def coord_boot_def
        Let_def connected_promote find_signer_def)
qed

theorem hello_admits_only_verified_witness:
  "\<exists>pk d. key_from_file demo_x509 2 pk \<and> x_export_der demo_x509 pk = Some d \<and> d = str_bytes (cert_path 2)"
proof -
  have l: "e_x509 hello_env = demo_x509" by (simp add: hello_env_def demo_env_def)
  have "key_cache demo_boot = empty_cache" "\<not> connected demo_boot 2"
    by (simp_all add: demo_boot_def coord_boot_def connected_def)
  then show ?thesis
    using hello_admits_only_verified [of hello_env demo_boot 2 7 "str_bytes ''SIGNER 2 3 2''"]
      hello_demo_connected cache_faithful_empty [of demo_x509]
    by (auto simp: l) (auto simp: hello_env_def demo_x509_def)
qed

section \<open>Memory safety of the dispatcher\<close>

lemma session_complete_undef:
  assumes "session_complete env i s c = Undef" "length s = 64"
  shows "4 * FROST_MAX_PAYLOAD < length (g_dummy_cert c) + length (g_tbs_hex c) + 2 * length (g_pub_key_pkg c) + 132"
  using assms
  by (auto simp: session_complete_def Let_def call_mint_def mint_stdin_def upd_session_def
      split: outcome.split_asm if_split_asm option.split_asm prod.split_asm)

lemma roast_try_aggregate_undef:
  assumes "roast_try_aggregate env i c = Undef"
  shows "4 * FROST_MAX_PAYLOAD < length (g_dummy_cert c) + length (g_tbs_hex c) + 2 * length (g_pub_key_pkg c) + 132"
  using assms session_complete_undef
  by (auto simp: roast_try_aggregate_def Let_def split: if_split_asm option.split_asm prod.split_asm)

lemma on_sig_share_undef:
  assumes "on_sig_share env sid payload c = Undef"
  shows "4 * FROST_MAX_PAYLOAD < length (g_dummy_cert c) + length (g_tbs_hex c) + 2 * length (g_pub_key_pkg c) + 132"
proof -
  obtain i c1 where "roast_try_aggregate env i c1 = Undef" "g_dummy_cert c1 = g_dummy_cert c"
    "g_tbs_hex c1 = g_tbs_hex c" "g_pub_key_pkg c1 = g_pub_key_pkg c"
    using assms
    by (auto simp: on_sig_share_def Let_def upd_session_def upd_signer_def split: if_split_asm option.split_asm)
  with roast_try_aggregate_undef show ?thesis by metis
qed

lemma route_r2_undef:
  "route_r2 ty sig slen payload c = Undef \<longleftrightarrow>
     4 \<le> length payload \<and> (12000 \<le> length payload \<or> (connected c (r2_target payload) \<and> length sig < unat slen))"
  by (auto simp: route_r2_def print_bytes_as_hex_def frost_consts relay_r2_def connected_find split: option.splits)

lemma r1_guarded_undef:
  "length payload \<le> FROST_MAX_PAYLOAD \<Longrightarrow> r1_guarded sid sig slen payload check c = Undef \<longleftrightarrow> 256 < unat slen"
  by (auto simp: r1_guarded_def frost_consts)





section \<open>Repeated shares\<close>

lemma fold_exclude_members:
  "coord_inv c \<Longrightarrow> \<forall>i \<in> set is. id_ok i \<Longrightarrow> j \<in> set is \<or> is_blacklisted (g_blacklist c) j \<Longrightarrow>
   is_blacklisted (g_blacklist (fold exclude is c)) j"
proof (induction "is" arbitrary: c)
  case (Cons i "is")
  have pen: "blacklist_ok (g_blacklist c)" "\<forall>b \<in> set (g_blacklist c). id_ok b"
    using coord_invD(5) [OF Cons.prems(1)] by (auto simp: penalties_ok_def list_all_iff)
  have "g_blacklist (exclude i c) = blacklist_signer i (g_blacklist c)" by (simp add: exclude_def upd_signer_def)
  then have "j \<in> set is \<or> is_blacklisted (g_blacklist (exclude i c)) j"
    using Cons.prems blacklist_takes_effect [OF pen, of i] excluded.member_mono by auto
  then show ?case using Cons.IH [OF exclude_inv] Cons.prems by simp
qed simp

lemma unknown_blacklist:
  "g_blacklist (roast_fail_unknown i c) = g_blacklist (fold exclude (rs_signer_ids (g_sessions c ! i)) (session_failed i c))"
  by (simp add: roast_fail_unknown_def Let_def broadcast_sign_req_def)

lemma unknown_excludes_all:
  assumes "coord_inv c" "i < ROAST_MAX_SESSIONS" "rs_state (g_sessions c ! i) \<noteq> RSESS_EMPTY"
    and "m \<in> set (rs_signer_ids (g_sessions c ! i))"
  shows "is_blacklisted (g_blacklist (roast_fail_unknown i c)) m"
  unfolding unknown_blacklist
  using fold_exclude_members [OF session_failed_inv [OF assms(1-3)]] live_session(3) [OF assms(1-3)] assms(4)
  by (simp add: list_all_iff)

lemma present_again:
  assumes "slot < length (rs_shares s)" "rs_shares s ! slot \<noteq> []" "payload \<noteq> []"
  shows "length (present_shares (store_share slot payload s)) = length (present_shares s)"
proof -
  have z: "length (filter (\<lambda>(_, sh). sh \<noteq> []) (zip ids xs)) = length (filter (\<lambda>x. x \<noteq> []) (take (length ids) xs))"
    for ids :: "u16 list" and xs :: "bytes list"
    by (induction ids xs rule: list_induct2') auto
  have u: "length (filter (\<lambda>x. x \<noteq> []) (xs[k := payload])) = length (filter (\<lambda>x. x \<noteq> []) xs)"
    if "k < length xs" "xs ! k \<noteq> []" for k and xs :: "bytes list"
    using that assms(3) by (induction xs arbitrary: k) (auto split: nat.split)
  show ?thesis
    using assms u [of slot "take (length (rs_signer_ids s)) (rs_shares s)"]
    by (cases "slot < length (rs_signer_ids s)")
       (simp_all add: present_shares_def store_share_def z take_update_swap list_update_beyond)
qed

text \<open>C32: The share counter counts messages, not shares. When a member of a session sends its share a second
  time and the counter thereby reaches the threshold, the core is asked to aggregate fewer shares than the
  threshold; if it fails without naming a culprit, every member of the session is blacklisted.\<close>

theorem repeated_share_excludes_everyone:
  assumes "coord_inv c" "g_mode c = COORD_MODE_SIGN" "\<not> g_signing_done c" "find_signer sid c = Some sg"
    and "roast_find (sg_session_id sg) (g_sessions c) = Some i" "s = g_sessions c ! i"
    and "rs_state s = RSESS_AWAITING_SHARES" "roast_signer_slot s sid = Some slot"
    and "rs_shares s ! slot \<noteq> []" "length (present_shares s) = rs_n_shares s" "Suc (rs_n_shares s) = unat (g_t c)"
    and "payload \<noteq> []" "length payload \<le> FROST_MAX_PAYLOAD" "s' = store_share slot payload s"
    and "e_exec env (aggregate_cmd c) (aggregate_stdin c s') = Some ([], code)"
  shows "length (present_shares s') < unat (g_t c)
    \<and> (\<exists>c'. process_signer_frame env sid FROST_MSG_SIG_SHARE sig slen payload c = Cont c'
         \<and> (\<forall>m \<in> set (rs_signer_ids s). is_blacklisted (g_blacklist c') m))"
proof -
  let ?c1 = "upd_signer sid (sg_phase_update (\<lambda>_. SPHASE_SHARED)) (upd_session i (store_share slot payload) c)"
  have i: "i < ROAST_MAX_SESSIONS" using roast_find_bound [OF assms(1,5)] .
  have len: "length (g_sessions c) = ROAST_MAX_SESSIONS" using coord_invD(4) [OF assms(1)] by (simp add: sessions_ok_def)
  have ok: "session_ok (g_t c) s" using sessions_ok_nth [OF coord_invD(4) [OF assms(1)] i] assms(6) by simp
  have slot: "slot < length (rs_signer_ids s)" using assms(8) index_of_Some by (fastforce simp: roast_signer_slot_def)
  then have slot': "slot < length (rs_shares s)"
    using ok live_session(1) [OF assms(1) i] assms(6,7) coord_invD(3) [OF assms(1)] find_signer_ne [OF assms(4)]
    by (auto simp: session_ok_def params_ok_def)
  have n: "length (present_shares s') < unat (g_t c)"
    using present_again [OF slot' assms(9,12)] assms(10,11,14) by simp
  have s1: "g_sessions ?c1 ! i = s'" using i len assms(6,14) by (simp add: upd_signer_def upd_session_def)
  have inv1: "coord_inv ?c1"
    using assms(1,6,7,13) i by (intro upd_signer_inv upd_session_inv store_share_ok) simp_all
  have "aggregate_cmd ?c1 = aggregate_cmd c" "aggregate_stdin ?c1 s' = aggregate_stdin c s'"
    by (simp_all add: aggregate_cmd_def aggregate_stdin_def upd_signer_def upd_session_def)
  then have "roast_try_aggregate env i ?c1 = Cont (roast_fail_unknown i ?c1)"
    using s1 assms(3,11,14,15)
    by (simp add: roast_try_aggregate_def Let_def store_share_def fgets_def session_fail_def starts_with_def upd_signer_def upd_session_def)
  then have "process_signer_frame env sid FROST_MSG_SIG_SHARE sig slen payload c = Cont (roast_fail_unknown i ?c1)"
    using assms s1 by (simp add: on_sig_share_def Let_def not_less) (simp add: store_share_def upd_signer_def upd_session_def)
  moreover have "is_blacklisted (g_blacklist (roast_fail_unknown i ?c1)) m" if "m \<in> set (rs_signer_ids s)" for m
    using unknown_excludes_all [OF inv1 i, of m] s1 assms(7,14) that by (simp add: store_share_def)
  ultimately show ?thesis using n by blast
qed

theorem repeated_share_excludes_everyone_witness:
  "\<exists>c'. process_signer_frame (demo_env (\<lambda>_ _. Some ([], 1))) 1 FROST_MSG_SIG_SHARE [] 0 [8] demo_live = Cont c'
     \<and> is_blacklisted (g_blacklist c') 3 \<and> is_blacklisted (g_blacklist c') 1"
proof -
  let ?env = "demo_env (\<lambda>_ _. Some ([], 1))" and ?sg = "(demo_signer 1 SPHASE_SHARED [7])\<lparr>sg_session_id := 1\<rparr>"
  have sh: "rs_shares demo_session = [[], [8]] @ replicate 62 []" "rs_n_shares demo_session = 1"
    by (simp_all add: demo_session_def new_session_def FROST_MAX_SIGNERS_def eval_nat_numeral)
  have "roast_signer_slot demo_session 1 = Some 1" "length (present_shares demo_session) = 1"
    by (simp_all add: roast_signer_slot_def present_shares_def sh)
  moreover have "find_signer 1 demo_live = Some ?sg" "g_t demo_live = 2" "g_mode demo_live = COORD_MODE_SIGN" "\<not> g_signing_done demo_live"
    by (simp_all add: find_signer_def demo_live_def demo_signer_def demo_coord_def coord_boot_def)
  moreover have "roast_find 1 (g_sessions demo_live) = Some 0"
    by (simp add: roast_find_def demo_live_def demo_coord_def coord_boot_def ROAST_MAX_SESSIONS_def eval_nat_numeral)
  ultimately show ?thesis
    using repeated_share_excludes_everyone [OF demo_live_inv _ _ _ _ refl, of 1 ?sg 0 1 "[8]" _ ?env 1 "[]" 0] sh
    by (simp add: demo_env_def FROST_MAX_PAYLOAD_def)
qed

section \<open>Failures that are not fatal\<close>

lemma prepare_tbs_keeps:
  "prepare_tbs env c = (ok, c1) \<Longrightarrow> files_written c1 = files_written c \<and> g_mode c1 = g_mode c \<and> g_serial c1 = g_serial c
     \<and> g_num_minted c1 = g_num_minted c"
  by (erule prepare_tbs_cases) simp_all

lemma next_cert_fields:
  "g_serial (next_cert env c) = g_serial c + 1" "files_written (next_cert env c) = files_written c"
  "g_mode (next_cert env c) = g_mode c" "\<not> g_signing_done (next_cert env c)"
  "g_num_minted (next_cert env c) = g_num_minted c"
proof -
  let ?c1 = "c\<lparr>g_serial := g_serial c + 1,
     g_output_file := snprintf 256 (''./output/user_key-cert-'' @ fmt_u (unat (g_serial c + 1)) @ ''.pub'')\<rparr>"
  obtain ok c2 where p: "prepare_tbs env ?c1 = (ok, c2)" by (metis surj_pair)
  have n: "next_cert env c = broadcast_sign_req (c2\<lparr>g_signing_done := False\<rparr>)"
    using p by (simp add: next_cert_def Let_def)
  note k = prepare_tbs_keeps [OF p]
  show "g_serial (next_cert env c) = g_serial c + 1" "files_written (next_cert env c) = files_written c"
    "g_mode (next_cert env c) = g_mode c" "\<not> g_signing_done (next_cert env c)"
    "g_num_minted (next_cert env c) = g_num_minted c"
    using k unfolding n by (simp_all add: broadcast_sign_req_def)
qed

lemma fold_exclude_fields:
  "g_serial (fold exclude is c) = g_serial c" "files_written (fold exclude is c) = files_written c"
  "g_mode (fold exclude is c) = g_mode c" "g_roast_fail (fold exclude is c) = g_roast_fail c"
  "g_to_mint (fold exclude is c) = g_to_mint c" "g_t (fold exclude is c) = g_t c"
  "g_num_minted (fold exclude is c) = g_num_minted c"
  by (induction "is" arbitrary: c) (simp_all add: exclude_def upd_signer_def)

text \<open>C33: A failure nobody can be blamed for does not end the program. When it leaves too few signers and
  certificates remain to be minted, the failed one is skipped: the coordinator goes on with the next serial
  number although no certificate was written for this one.\<close>

theorem unattributed_failure_skips_serial:
  assumes "g_mode c = COORD_MODE_SIGN" "\<not> g_roast_fail c" "g_to_mint c > 0"
    and "c1 = fold exclude (rs_signer_ids (g_sessions c ! i)) (session_failed i c)" "remaining c1 < unat (g_t c)"
  shows "\<exists>c'. loop_head env (roast_fail_unknown i c) = Cont c' \<and> g_serial c' = g_serial c + 1
    \<and> files_written c' = files_written c \<and> g_num_minted c' = g_num_minted c \<and> \<not> g_signing_done c'"
proof -
  let ?c2 = "broadcast_sign_req (c1\<lparr>g_signing_done := True\<rparr>)"
  have f: "g_serial c1 = g_serial c" "files_written c1 = files_written c" "g_mode c1 = COORD_MODE_SIGN"
    "\<not> g_roast_fail c1" "g_to_mint c1 = g_to_mint c" "g_t c1 = g_t c" "g_num_minted c1 = g_num_minted c"
    using assms(1,2) by (simp_all add: assms(4) fold_exclude_fields session_failed_def upd_session_def)
  have u: "roast_fail_unknown i c = ?c2" using assms(4,5) f by (simp add: roast_fail_unknown_def Let_def)
  have "loop_head env ?c2 = Cont (next_cert env ?c2)"
    using f assms(3) by (simp add: loop_head_def head_sign_def head_dkg_def broadcast_sign_req_def next_cert_fields)
  then show ?thesis using f u by (simp add: next_cert_fields) (simp add: broadcast_sign_req_def)
qed

theorem unattributed_failure_skips_serial_witness:
  "\<exists>c'. loop_head (demo_env assemble_any) (roast_fail_unknown 0 demo_live) = Cont c' \<and> g_serial c' = 2 \<and> files_written c' = []"
proof -
  have "remaining (fold exclude [3, 1] (session_failed 0 demo_live)) < unat (g_t demo_live)"
    by (simp add: exclude_def upd_signer_def session_failed_def upd_session_def demo_live_def demo_coord_def demo_signer_def
        coord_boot_def remaining_def eligible_def blacklist_signer_def is_blacklisted_def FROST_MAX_SIGNERS_def)
  moreover have "g_mode demo_live = COORD_MODE_SIGN" "\<not> g_roast_fail demo_live" "g_to_mint demo_live > 0"
    "g_serial demo_live = 1" "files_written demo_live = []"
    by (simp_all add: demo_live_def demo_coord_def coord_boot_def)
  ultimately show ?thesis
    using unattributed_failure_skips_serial [OF _ _ _ refl, of demo_live 0 "demo_env assemble_any"] by fastforce
qed

lemma update_first_others: "x \<in> set xs \<Longrightarrow> \<not> P x \<Longrightarrow> x \<in> set (update_first P f xs)"
  by (induction xs) auto

text \<open>C34: A public key package is taken in every mode and without agreement. As soon as as many packages have
  arrived as there are signers, counted without regard to who sent them, the last one becomes the group key and
  the current signing round is declared done, whatever the other signers reported and in whichever mode.\<close>

theorem last_pub_key_pkg_wins:
  assumes "unat (g_n c) \<le> Suc (g_refresh_complete_count c)" "length payload \<le> FROST_MAX_PAYLOAD"
  shows "\<exists>c'. process_signer_frame env sid FROST_MSG_PUB_KEY_PKG sig slen payload c = Cont c'
    \<and> g_pub_key_pkg c' = payload \<and> g_signing_done c' \<and> g_mode c' = g_mode c
    \<and> (\<forall>s \<in> set (signers c). sg_id s \<noteq> sid \<longrightarrow> s \<in> set (signers c'))"
proof -
  let ?c1 = "report_pub_key sid payload c"
  have "\<not> g_refresh_complete_count ?c1 < unat (g_n ?c1)" "g_mode ?c1 = g_mode c"
    using assms(1) by (simp_all add: report_pub_key_def upd_signer_def)
  moreover have "s \<in> set (signers ?c1)" if "s \<in> set (signers c)" "sg_id s \<noteq> sid" for s
    using that by (simp add: report_pub_key_def upd_signer_def update_first_others)
  ultimately show ?thesis using assms(2) by (simp add: on_pub_key_pkg_def Let_def) (simp add: store_pub_key_def)
qed

theorem last_pub_key_pkg_wins_witness:
  "\<exists>c'. process_signer_frame (demo_env assemble_any) 1 FROST_MSG_PUB_KEY_PKG [] 0 [6] (demo_live\<lparr>g_refresh_complete_count := 2\<rparr>) = Cont c'
     \<and> g_pub_key_pkg c' = [6] \<and> g_signing_done c' \<and> g_mode c' = COORD_MODE_SIGN"
proof -
  have "g_n demo_live = 3" "g_mode demo_live = COORD_MODE_SIGN" by (simp_all add: demo_live_def demo_coord_def)
  then show ?thesis
    using last_pub_key_pkg_wins [of "demo_live\<lparr>g_refresh_complete_count := 2\<rparr>" "[6]" "demo_env assemble_any" 1 "[]" 0]
    by (force simp: FROST_MAX_PAYLOAD_def)
qed

section \<open>Key generation relays\<close>



section \<open>The bytes to be signed\<close>

text \<open>C29: What the group signs names the group as the signing authority: when the core answers both requests,
  the bytes to be signed are the core's certificate body with its last 32 bytes, the placeholder authority's key,
  replaced by the group's own key, the hex form kept for minting agrees with them, and no session survives.\<close>

theorem tbs_carries_group_key:
  assumes "now = word_of_int (e_now env)"
    and "e_exec env (FROST_CORE_BIN @ '' tbs'') (tbs_stdin c now (now + g_validity_secs c))
      = Some (bytes_to_hex (body @ old_key) @ NL # cert @ NL # rest, 0)"
    and "length (tbs_stdin c now (now + g_validity_secs c)) < 512" "length (body @ old_key) \<le> FROST_MAX_PAYLOAD"
    and "NL \<notin> set cert" "CR \<notin> set cert" "NUL \<notin> set cert" "Suc (length cert) < FROST_MAX_PAYLOAD"
    and "e_exec env (FROST_CORE_BIN @ '' pubkey'') (bytes_to_hex (g_pub_key_pkg c) @ [NL])
      = Some (pubkey_line vk @ NL # rest', code)"
    and "length old_key = 32" "length vk = 32"
  shows "\<exists>c'. prepare_tbs env c = (True, c') \<and> g_tbs c' = body @ vk \<and> g_tbs_hex c' = bytes_to_hex (body @ vk)
    \<and> g_dummy_cert c' = cert \<and> (\<forall>s \<in> set (g_sessions c'). rs_state s = RSESS_EMPTY)"
  using prepare_tbs_prints [OF assms(2-11) [unfolded assms(1)]] by (simp add: empty_session_def)

definition demo_tbs_exec :: exec where
  "demo_tbs_exec cmd input =
     (if cmd = FROST_CORE_BIN @ '' tbs'' then Some (bytes_to_hex (5 # replicate 32 0) @ NL # ''cert'' @ [NL], 0)
      else Some (pubkey_line (replicate 32 7) @ [NL], 0))"

theorem tbs_carries_group_key_witness:
  "\<exists>c'. prepare_tbs (demo_env demo_tbs_exec) demo_coord = (True, c') \<and> g_tbs c' = 5 # replicate 32 7"
proof -
  let ?now = "word_of_int (e_now (demo_env demo_tbs_exec)) :: u64"
  have "length (tbs_stdin demo_coord ?now (?now + g_validity_secs demo_coord)) < 512"
    by (simp add: tbs_stdin_def demo_coord_def coord_boot_def demo_env_def fmt_u.simps)
  then show ?thesis
    using tbs_carries_group_key [OF refl, of "demo_env demo_tbs_exec" demo_coord "[5]" "replicate 32 0" "''cert''" "[]" "replicate 32 7" "[]" 0]
    by (force simp: demo_env_def demo_tbs_exec_def FROST_MAX_PAYLOAD_def)
qed

end
