(* ===== verification/Signer_State.thy ===== *)
theory Signer_State
  imports Subprocess Keys
begin

text \<open>
  The signer's data (\<^verbatim>\<open>frost_signer.c\<close>): its globals as the record \<open>node\<close>, what it asks of the
  outside as the record \<open>nenv\<close>, persistence of the key share, the signed outbound queue, and
  the buffer a commitment's signature covers. An array with its length field is a byte list;
  the parallel arrays of peer packages with their counter are one list of pairs.
\<close>

section \<open>Data\<close>

datatype fault_mode_t = FAULT_NONE | FAULT_BAD_SHARE | FAULT_SILENT | FAULT_NO_COMMIT | FAULT_DROPOUT

record node =
  n_my_id :: u16
  n_id_confirmed :: bool
  n_n :: u16
  n_t :: u16
  n_state :: dkg_state_t
  n_coord_mode :: coord_mode_t
  n_r1_secret :: bytes
  n_r2_secret :: bytes
  n_key_pkg :: bytes
  n_pub_key_pkg :: bytes
  n_nonces :: bytes
  n_commit :: bytes
  n_commit_is_precomputed :: bool
  n_tbs :: bytes
  n_peer_r1 :: "(u16 \<times> bytes) list"
  n_peer_r2 :: "(u16 \<times> bytes) list"
  n_ref_r1_secret :: bytes
  n_ref_r2_secret :: bytes
  n_ref_r1_pkg :: bytes
  n_ref_peer_r1 :: "(u16 \<times> bytes) list"
  n_ref_peer_r2 :: "(u16 \<times> bytes) list"
  n_rx :: rxbuf
  n_want_write :: bool
  n_outq :: "outmsg list"
  n_fault :: fault_mode_t
  n_cache :: keycache
  n_files :: "(string \<times> string) list"

text \<open>
  The outside of one step: the Rust core, signing and decrypting with the node's private keys,
  verifying and encrypting with a peer's public key (the \<open>k\<close>-th encryption of a step; it is
  randomised), and the files. GnuTLS refuses a NULL key, so these only see a key that is there.
\<close>

record nenv =
  ne_exec :: exec
  ne_sign :: "bytes \<Rightarrow> bytes option"
  ne_verify :: "pubkey \<Rightarrow> bytes \<Rightarrow> bytes \<Rightarrow> bool"
  ne_encrypt :: "nat \<Rightarrow> pubkey \<Rightarrow> bytes \<Rightarrow> bytes option"
  ne_decrypt :: "bytes \<Rightarrow> bytes option"
  ne_read :: "string \<Rightarrow> string option"
  ne_can_write :: "string \<Rightarrow> bool"

definition verify_by :: "nenv \<Rightarrow> node \<Rightarrow> u16 \<Rightarrow> bytes \<Rightarrow> bytes \<Rightarrow> bool" where
  "verify_by env nd sid data sig =
     (case get_signer_pubkey (n_cache nd) sid of None \<Rightarrow> False | Some pk \<Rightarrow> ne_verify env pk data sig)"

section \<open>Key share persistence\<close>

definition keypkg_path :: "u16 \<Rightarrow> string" where
  "keypkg_path sid = snprintf 256 (''shares/signer_'' @ fmt_u (unat sid) @ ''.keypkg'')"

definition save_key_material :: "nenv \<Rightarrow> node \<Rightarrow> bool \<times> node" where
  "save_key_material env nd =
     (let path = keypkg_path (n_my_id nd) in
      if \<not> ne_can_write env path then (False, nd)
      else (let fs = n_files nd @ [(path, bytes_to_hex (n_key_pkg nd) @ [NL])] in
            (True, nd\<lparr>n_files := if ne_can_write env FROST_PUB_PKG_HEX
                       then fs @ [(FROST_PUB_PKG_HEX, bytes_to_hex (n_pub_key_pkg nd) @ [NL])] else fs\<rparr>)))"

text \<open>The first line of a file, as \<^verbatim>\<open>fgets\<close> into \<^verbatim>\<open>FROST_MAX_PAYLOAD * 2 + 4\<close> characters sees it.\<close>

definition first_line :: "string option \<Rightarrow> string option" where
  "first_line file = Option.bind file (\<lambda>txt. map_option fst (fgets (FROST_MAX_PAYLOAD * 2 + 4) txt))"

definition load_pub_pkg :: "nenv \<Rightarrow> node \<Rightarrow> node" where
  "load_pub_pkg env nd =
     (case first_line (ne_read env FROST_PUB_PKG_HEX) of None \<Rightarrow> nd
      | Some hex \<Rightarrow>
          (case hex_to_bytes hex FROST_MAX_PAYLOAD of
             None \<Rightarrow> nd\<lparr>n_pub_key_pkg := clobber (n_pub_key_pkg nd) (hex_written hex FROST_MAX_PAYLOAD)\<rparr>
           | Some pkg \<Rightarrow> if pkg = [] then nd else nd\<lparr>n_pub_key_pkg := pkg\<rparr>))"

definition load_key_material :: "nenv \<Rightarrow> node \<Rightarrow> bool \<times> node" where
  "load_key_material env nd =
     (case first_line (ne_read env (keypkg_path (n_my_id nd))) of None \<Rightarrow> (False, nd)
      | Some hex \<Rightarrow>
          (case hex_to_bytes hex FROST_MAX_PAYLOAD of
             None \<Rightarrow> (False, nd\<lparr>n_key_pkg := clobber (n_key_pkg nd) (hex_written hex FROST_MAX_PAYLOAD)\<rparr>)
           | Some key \<Rightarrow> if key = [] then (False, nd) else (True, load_pub_pkg env (nd\<lparr>n_key_pkg := key\<rparr>))))"

section \<open>The buffer a commitment's signature covers\<close>

definition build_commit_sign_buf :: "nat \<Rightarrow> bytes \<Rightarrow> bytes \<Rightarrow> bytes option" where
  "build_commit_sign_buf out_max tbs commit =
     (if 2 + length tbs + length commit > out_max then None
      else Some (be16_bytes (of_nat (length tbs)) @ tbs @ commit))"

definition SIGN_BUF_MAX :: nat where "SIGN_BUF_MAX = 2 * FROST_MAX_PAYLOAD + 4"

section \<open>The outbound queue\<close>

text \<open>
  The node is allocated for a signature of exactly \<^verbatim>\<open>FROST_FRAME_SIG_SIZE\<close> bytes. When signing
  fails, the datum used is uninitialised; a longer signature overruns the node, a shorter one
  leaves its end unwritten.
\<close>

definition queue_to_coord_signed :: "nenv \<Rightarrow> frost_msg_t \<Rightarrow> bytes \<Rightarrow> bytes \<Rightarrow> node \<Rightarrow> node outcome" where
  "queue_to_coord_signed env ty sign_buf payload nd =
     (let plen = of_nat (length payload) :: u16 in
      case ne_sign env sign_buf of None \<Rightarrow> Undef
      | Some s \<Rightarrow>
          (let slen = of_nat (length s) :: u16 in
           if unat plen \<le> FROST_MAX_PAYLOAD \<and> unat slen > FROST_FRAME_SIG_SIZE then Undef
           else Cont (nd\<lparr>n_outq := n_outq nd @
                  [\<lparr>om_len = FROST_FRAME_HDR + FROST_FRAME_SIG_SIZE + unat plen, om_sent = 0,
                    om_data = (if unat slen = FROST_FRAME_SIG_SIZE
                               then frost_encode_frame ty s slen payload plen else None)\<rparr>]\<rparr>)))"

definition queue_to_coord :: "nenv \<Rightarrow> frost_msg_t \<Rightarrow> bytes \<Rightarrow> node \<Rightarrow> node outcome" where
  "queue_to_coord env ty payload nd = queue_to_coord_signed env ty payload payload nd"

definition drain_outq :: "send_result \<Rightarrow> node \<Rightarrow> node outcome" where
  "drain_outq res nd =
     (if n_outq nd = [] then Cont nd
      else (case res of
              SendAgain w \<Rightarrow> Cont (nd\<lparr>n_want_write := w\<rparr>)
            | SendErr \<Rightarrow> Exit 0 nd
            | Sent r \<Rightarrow> Cont (nd\<lparr>n_want_write := False, n_outq := advance_queue r (n_outq nd)\<rparr>)))"

section \<open>Laws\<close>

text \<open>The signed buffer determines the message and the commitment it was built from.\<close>

definition split_commit_sign_buf :: "bytes \<Rightarrow> (bytes \<times> bytes) option" where
  "split_commit_sign_buf buf =
     (if length buf < 2 then None
      else let k = unat (be16 (buf ! 0) (buf ! 1)) in Some (take k (drop 2 buf), drop (2 + k) buf))"

interpretation signbuf: codec
  "\<lambda>(tbs, commit). be16_bytes (of_nat (length tbs)) @ tbs @ commit" split_commit_sign_buf
  "\<lambda>(tbs, commit). length tbs \<le> FROST_MAX_PAYLOAD"
  by unfold_locales (auto simp: split_commit_sign_buf_def frost_consts)

lemma build_commit_sign_buf_inject:
  assumes "build_commit_sign_buf m tbs commit = Some buf" "build_commit_sign_buf m' tbs' commit' = Some buf"
    and "length tbs \<le> FROST_MAX_PAYLOAD" "length tbs' \<le> FROST_MAX_PAYLOAD"
  shows "tbs = tbs' \<and> commit = commit'"
  using signbuf.enc_inject [of "(tbs, commit)" "(tbs', commit')"] assms
  by (auto simp: build_commit_sign_buf_def split: if_splits)

lemma build_commit_sign_buf_fits:
  "length tbs \<le> FROST_MAX_PAYLOAD \<Longrightarrow> length commit \<le> FROST_MAX_PAYLOAD \<Longrightarrow>
   build_commit_sign_buf SIGN_BUF_MAX tbs commit = Some (be16_bytes (of_nat (length tbs)) @ tbs @ commit)"
  by (simp add: build_commit_sign_buf_def SIGN_BUF_MAX_def)

text \<open>With signatures of the size of the key, queueing always succeeds and only appends.\<close>

definition signs_256 :: "nenv \<Rightarrow> bool" where
  "signs_256 env \<longleftrightarrow> (\<forall>m. \<exists>s. ne_sign env m = Some s \<and> length s = FROST_FRAME_SIG_SIZE)"

lemma queue_signed_256:
  assumes "signs_256 env" "length payload \<le> FROST_MAX_PAYLOAD"
  shows "\<exists>s fr. ne_sign env buf = Some s \<and> length s = FROST_FRAME_SIG_SIZE \<and>
     frost_encode_frame ty s (of_nat FROST_FRAME_SIG_SIZE) payload (of_nat (length payload)) = Some fr \<and>
     queue_to_coord_signed env ty buf payload nd =
       Cont (nd\<lparr>n_outq := n_outq nd @ [\<lparr>om_len = FROST_FRAME_HDR + FROST_FRAME_SIG_SIZE + length payload, om_sent = 0,
         om_data = Some fr\<rparr>]\<rparr>)"
proof -
  obtain s where s: "ne_sign env buf = Some s" "length s = FROST_FRAME_SIG_SIZE"
    using assms(1) by (auto simp: signs_256_def)
  have "length payload < 65536" using assms(2) by (simp add: frost_consts)
  then show ?thesis
    using s assms(2) by (simp add: queue_to_coord_signed_def Let_def frost_encode_frame_def frame_sig_size_256)
qed

lemma queue_signed_keeps:
  assumes "queue_to_coord_signed env ty buf payload nd = Cont nd'"
  shows "\<exists>m. nd' = nd\<lparr>n_outq := n_outq nd @ [m]\<rparr>"
  using assms by (auto simp: queue_to_coord_signed_def Let_def split: option.split_asm if_split_asm)

end
