(* ===== verification/Signer_Node.thy ===== *)
theory Signer_Node
  imports Signer_State
begin

text \<open>
  The signer's frame dispatcher (\<^verbatim>\<open>process_coord_frame\<close> of \<^verbatim>\<open>frost_signer.c\<close>), one definition
  per case, and the check of a session's commit bundle that guards the signature share.
  \<open>sig\<close> is the frame's signature field and \<open>payload\<close> its payload.
\<close>

abbreviation nbind :: "node outcome \<Rightarrow> (node \<Rightarrow> node outcome) \<Rightarrow> node outcome" where
  "nbind m k \<equiv> obind m k (\<lambda>nd. nd)"

section \<open>Registration\<close>

text \<open>Short texts are copied into 32 zeroed characters.\<close>

definition text31 :: "bytes \<Rightarrow> string" where
  "text31 payload = c_string (bytes_str (take 31 payload))"

text \<open>\<^verbatim>\<open>sscanf(buf, "ACK %hu %c", ...) >= 1\<close>; without a character the mode stays \<open>D\<close>.\<close>

definition parse_ack :: "string \<Rightarrow> (u16 \<times> char) option" where
  "parse_ack s =
     Option.bind (scan_lit ''ACK '' s) (\<lambda>s1.
     Option.bind (scan_hu s1) (\<lambda>(aid, s2).
       Some (aid, case dropWhile isspace s2 of [] \<Rightarrow> CHR ''D'' | ch # _ \<Rightarrow> ch)))"

definition ack_mode :: "char \<Rightarrow> coord_mode_t" where
  "ack_mode ch = (if ch = CHR ''S'' then COORD_MODE_SIGN else if ch = CHR ''R'' then COORD_MODE_REFRESH
     else COORD_MODE_DKG)"

definition on_hello_ack :: "nenv \<Rightarrow> bytes \<Rightarrow> node \<Rightarrow> node outcome" where
  "on_hello_ack env payload nd =
     (case parse_ack (text31 payload) of None \<Rightarrow> Cont nd
      | Some (aid, ch) \<Rightarrow>
          if aid \<noteq> n_my_id nd then Exit 1 nd
          else (let nd1 = nd\<lparr>n_id_confirmed := True, n_coord_mode := ack_mode ch\<rparr> in
                if n_coord_mode nd1 = COORD_MODE_SIGN \<or> n_coord_mode nd1 = COORD_MODE_REFRESH then
                  (case load_key_material env nd1 of
                     (True, nd2) \<Rightarrow> Cont nd2
                   | (False, nd2) \<Rightarrow> queue_to_coord env FROST_MSG_SHARE_LOAD_FAIL [] nd2)
                else Cont nd1))"

section \<open>Key generation\<close>

text \<open>\<^verbatim>\<open>sscanf(buf, "START_DKG %hu %hu", ...) == 2\<close>, and the same for a refresh.\<close>

definition parse_start :: "string \<Rightarrow> string \<Rightarrow> (u16 \<times> u16) option" where
  "parse_start cmd s =
     Option.bind (scan_lit (cmd @ '' '') s) (\<lambda>s1.
     Option.bind (scan_hu s1) (\<lambda>(pn, s2).
     Option.bind (scan_lit '' '' s2) (\<lambda>s3.
     Option.bind (scan_hu s3) (\<lambda>(pt, _). Some (pn, pt)))))"

definition on_start_dkg :: "nenv \<Rightarrow> bytes \<Rightarrow> node \<Rightarrow> node outcome" where
  "on_start_dkg env payload nd =
     (case parse_start ''START_DKG'' (text31 payload) of None \<Rightarrow> Cont nd
      | Some (pn, pt) \<Rightarrow>
          (let nd1 = nd\<lparr>n_n := pn, n_t := pt, n_state := DKG_COLLECTING_R1\<rparr> in
           case frost_dkg_part1 (ne_exec env) (n_my_id nd) pn pt of
             None \<Rightarrow> Cont (nd1\<lparr>n_r1_secret :=
                       fst (two_left (dkg_part1_run (ne_exec env) (n_my_id nd) pn pt) (n_r1_secret nd1, []))\<rparr>)
           | Some (secret, pkg) \<Rightarrow> queue_to_coord env FROST_MSG_ROUND1_PKG pkg (nd1\<lparr>n_r1_secret := secret\<rparr>)))"

text \<open>
  One round-two package per peer: sealed to the peer's OAEP key, addressed, signed and queued;
  a peer without a key, a failed encryption and an oversized ciphertext are skipped. The
  plaintext is printed.
\<close>

fun send_r2 :: "nenv \<Rightarrow> frost_msg_t \<Rightarrow> nat \<Rightarrow> (u16 \<times> bytes) list \<Rightarrow> node \<Rightarrow> node outcome" where
  "send_r2 env ty k [] nd = Cont nd"
| "send_r2 env ty k ((tid, pkg) # rest) nd =
     (case get_signer_pubkey_oaep (n_cache nd) tid of None \<Rightarrow> send_r2 env ty (k + 1) rest nd
      | Some pub \<Rightarrow>
          (case ne_encrypt env k pub pkg of None \<Rightarrow> send_r2 env ty (k + 1) rest nd
           | Some ct \<Rightarrow>
               if length ct > 256 then send_r2 env ty (k + 1) rest nd
               else nbind (queue_to_coord env ty (be16_bytes (n_my_id nd) @ be16_bytes tid @ ct) nd)
                      (\<lambda>nd1. case print_bytes_as_hex pkg of Cont _ \<Rightarrow> send_r2 env ty (k + 1) rest nd1 | _ \<Rightarrow> Undef)))"

definition r1_sender :: "bytes \<Rightarrow> u16" where
  "r1_sender payload = be16 (payload ! 0) (payload ! 1)"

definition on_relay_r1 :: "nenv \<Rightarrow> bytes \<Rightarrow> bytes \<Rightarrow> node \<Rightarrow> node outcome" where
  "on_relay_r1 env sig payload nd =
     (let sender = r1_sender payload; pkg = drop 2 payload in
      if length payload < 2 then Cont nd
      else if \<not> verify_by env nd sender pkg sig then Cont nd
      else if length (n_peer_r1 nd) \<ge> FROST_MAX_SIGNERS then Cont nd
      else if length pkg > FROST_MAX_PAYLOAD then Undef
      else (let nd1 = nd\<lparr>n_peer_r1 := n_peer_r1 nd @ [(sender, pkg)]\<rparr> in
            if length (n_peer_r1 nd1) < unat (n_n nd1) - 1 then Cont nd1
            else (let nd2 = nd1\<lparr>n_state := DKG_COLLECTING_R2, n_r2_secret :=
                        secret_left (dkg_part2_run (ne_exec env) (n_my_id nd1) (n_r1_secret nd1) (n_peer_r1 nd1)) (n_r2_secret nd1)\<rparr>
                  in case frost_dkg_part2 (ne_exec env) (n_my_id nd1) (n_r1_secret nd1) (n_peer_r1 nd1) of
                       None \<Rightarrow> Cont nd2
                     | Some (_, r2) \<Rightarrow> send_r2 env FROST_MSG_ROUND2_PKG 0 r2 nd2)))"

text \<open>
  Part three. When only the public key package does not decode, its length becomes 65535 and
  the package is then signed and sent with that length, from an array of 24000 bytes.
\<close>

definition finish_dkg :: "nenv \<Rightarrow> node \<Rightarrow> node outcome" where
  "finish_dkg env nd =
     (case frost_dkg_part3 (ne_exec env) (n_my_id nd) (n_r2_secret nd) (n_peer_r1 nd) (n_peer_r2 nd) of
        None \<Rightarrow> Cont (nd\<lparr>n_key_pkg := fst (two_left
                  (dkg_part3_run (ne_exec env) (n_my_id nd) (n_r2_secret nd) (n_peer_r1 nd) (n_peer_r2 nd)) (n_key_pkg nd, []))\<rparr>)
      | Some (key, None, _) \<Rightarrow> Undef
      | Some (key, Some pub, _) \<Rightarrow>
          nbind (queue_to_coord env FROST_MSG_R2_COMPLETE (be16_bytes (n_my_id nd))
                   (nd\<lparr>n_key_pkg := key, n_pub_key_pkg := pub, n_state := DKG_COMPLETE\<rparr>))
            (\<lambda>nd1. queue_to_coord env FROST_MSG_PUB_KEY_PKG pub (snd (save_key_material env nd1))))"

text \<open>
  A round-two package is counted before it is decrypted: when that fails, an entry with id 0
  and no bytes stays behind.
\<close>

definition take_r2 :: "nenv \<Rightarrow> bytes \<Rightarrow> (u16 \<times> bytes) option outcome" where
  "take_r2 env payload =
     (case ne_decrypt env (drop 4 payload) of None \<Rightarrow> Cont None
      | Some pt \<Rightarrow> (case print_bytes_as_hex pt of Cont _ \<Rightarrow> Cont (Some (r1_sender payload, pt)) | _ \<Rightarrow> Undef))"

definition on_relay_r2 :: "nenv \<Rightarrow> bytes \<Rightarrow> bytes \<Rightarrow> node \<Rightarrow> node outcome" where
  "on_relay_r2 env sig payload nd =
     (if length payload < 4 then Cont nd
      else if \<not> verify_by env nd (r1_sender payload) payload sig then Cont nd
      else if length (n_peer_r2 nd) \<ge> FROST_MAX_SIGNERS then Cont nd
      else (case take_r2 env payload of
              Cont (Some e) \<Rightarrow>
                (let nd1 = nd\<lparr>n_peer_r2 := n_peer_r2 nd @ [e]\<rparr> in
                 if length (n_peer_r2 nd1) < unat (n_n nd1) - 1 then Cont nd1 else finish_dkg env nd1)
            | Cont None \<Rightarrow> Cont (nd\<lparr>n_peer_r2 := n_peer_r2 nd @ [(0, [])]\<rparr>)
            | _ \<Rightarrow> Undef))"

section \<open>Share refresh\<close>

definition on_start_refresh :: "nenv \<Rightarrow> bytes \<Rightarrow> node \<Rightarrow> node outcome" where
  "on_start_refresh env payload nd =
     (case parse_start ''START_REFRESH'' (text31 payload) of None \<Rightarrow> Cont nd
      | Some (pn, pt) \<Rightarrow>
          (let nd1 = nd\<lparr>n_n := pn, n_t := pt\<rparr> in
           case frost_refresh_part1 (ne_exec env) (n_my_id nd) pn pt of
             None \<Rightarrow>
               (case two_left (refresh_part1_run (ne_exec env) (n_my_id nd) pn pt) (n_ref_r1_secret nd1, n_ref_r1_pkg nd1) of
                  (a, b) \<Rightarrow> Cont (nd1\<lparr>n_ref_r1_secret := a, n_ref_r1_pkg := b\<rparr>))
           | Some (secret, pkg) \<Rightarrow>
               queue_to_coord env FROST_MSG_REFRESH_R1 pkg (nd1\<lparr>n_ref_r1_secret := secret, n_ref_r1_pkg := pkg\<rparr>)))"

definition on_relay_refresh_r1 :: "nenv \<Rightarrow> bytes \<Rightarrow> bytes \<Rightarrow> node \<Rightarrow> node outcome" where
  "on_relay_refresh_r1 env sig payload nd =
     (let sender = r1_sender payload; pkg = drop 2 payload in
      if length payload < 2 then Cont nd
      else if \<not> verify_by env nd sender pkg sig then Cont nd
      else if length (n_ref_peer_r1 nd) \<ge> FROST_MAX_SIGNERS then Cont nd
      else if length pkg > FROST_MAX_PAYLOAD then Undef
      else (let nd1 = nd\<lparr>n_ref_peer_r1 := n_ref_peer_r1 nd @ [(sender, pkg)]\<rparr> in
            if length (n_ref_peer_r1 nd1) < unat (n_n nd1) - 1 then Cont nd1
            else (let nd2 = nd1\<lparr>n_ref_r2_secret := secret_left
                        (refresh_part2_run (ne_exec env) (n_my_id nd1) (n_ref_r1_secret nd1) (n_ref_peer_r1 nd1)) (n_ref_r2_secret nd1)\<rparr>
                  in case frost_refresh_part2 (ne_exec env) (n_my_id nd1) (n_ref_r1_secret nd1) (n_ref_peer_r1 nd1) of
                       None \<Rightarrow> Cont nd2
                     | Some (_, r2) \<Rightarrow>
                         nbind (send_r2 env FROST_MSG_REFRESH_R2 0 r2 nd2)
                           (queue_to_coord env FROST_MSG_REFRESH_R2_COMPLETE (be16_bytes (n_my_id nd))))))"

definition on_relay_refresh_r2 :: "nenv \<Rightarrow> bytes \<Rightarrow> bytes \<Rightarrow> node \<Rightarrow> node outcome" where
  "on_relay_refresh_r2 env sig payload nd =
     (if length payload < 4 then Cont nd
      else if \<not> verify_by env nd (r1_sender payload) payload sig then Cont nd
      else if length (n_ref_peer_r2 nd) \<ge> FROST_MAX_SIGNERS then Cont nd
      else (case take_r2 env payload of
              Cont (Some e) \<Rightarrow> Cont (nd\<lparr>n_ref_peer_r2 := n_ref_peer_r2 nd @ [e]\<rparr>)
            | Cont None \<Rightarrow> Cont (nd\<lparr>n_ref_peer_r2 := n_ref_peer_r2 nd @ [(0, [])]\<rparr>)
            | _ \<Rightarrow> Undef))"

definition on_refresh_finalize :: "nenv \<Rightarrow> node \<Rightarrow> node outcome" where
  "on_refresh_finalize env nd =
     (if int (length (n_ref_peer_r2 nd)) \<noteq> int (unat (n_n nd)) - 1 then Cont nd
      else (case frost_refresh_shares (ne_exec env) (n_n nd) (n_ref_r2_secret nd) (n_ref_peer_r1 nd)
                   (n_ref_peer_r2 nd) (n_key_pkg nd) (n_pub_key_pkg nd) of
              None \<Rightarrow> Cont nd
            | Some (key, pub) \<Rightarrow>
                (case save_key_material env (nd\<lparr>n_key_pkg := key, n_pub_key_pkg := pub\<rparr>) of
                   (False, nd1) \<Rightarrow> Cont nd1
                 | (True, nd1) \<Rightarrow> queue_to_coord env FROST_MSG_REFRESH_COMPLETE pub nd1)))"

section \<open>Committing\<close>

text \<open>Nonces are cleared, then the core is asked for fresh ones with their commitment.\<close>

definition fresh_commit :: "nenv \<Rightarrow> node \<Rightarrow> bool \<times> node" where
  "fresh_commit env nd =
     (let nd1 = nd\<lparr>n_nonces := []\<rparr> in
      case frost_commit (ne_exec env) (n_my_id nd) (n_key_pkg nd) of
        Some (nonces, commit) \<Rightarrow> (True, nd1\<lparr>n_nonces := nonces, n_commit := commit\<rparr>)
      | None \<Rightarrow>
          (case two_left (commit_run (ne_exec env) (n_my_id nd) (n_key_pkg nd)) ([], n_commit nd) of
             (nonces, commit) \<Rightarrow> (False, nd1\<lparr>n_nonces := nonces, n_commit := commit\<rparr>)))"

definition send_commit :: "nenv \<Rightarrow> node \<Rightarrow> node outcome" where
  "send_commit env nd =
     (case build_commit_sign_buf SIGN_BUF_MAX (n_tbs nd) (n_commit nd) of None \<Rightarrow> Cont nd
      | Some buf \<Rightarrow>
          nbind (queue_to_coord_signed env FROST_MSG_COMMIT buf (n_commit nd) nd)
            (\<lambda>nd1. Cont (nd1\<lparr>n_commit_is_precomputed := False\<rparr>)))"

definition sign_req_accepted :: "nenv \<Rightarrow> bytes \<Rightarrow> node \<Rightarrow> node outcome" where
  "sign_req_accepted env payload nd =
     (if length payload > FROST_MAX_PAYLOAD then Cont nd
      else (let nd1 = nd\<lparr>n_tbs := payload, n_state := DKG_SIGNING\<rparr> in
            if n_commit_is_precomputed nd1 then send_commit env nd1
            else (case fresh_commit env nd1 of
                    (True, nd2) \<Rightarrow> send_commit env nd2
                  | (False, nd2) \<Rightarrow> Cont nd2)))"

definition on_sign_req :: "nenv \<Rightarrow> bytes \<Rightarrow> node \<Rightarrow> node outcome" where
  "on_sign_req env payload nd =
     (if n_fault nd = FAULT_DROPOUT then Exit 0 nd
      else if n_fault nd = FAULT_NO_COMMIT then Cont nd
      else if n_key_pkg nd = [] then
        (case load_key_material env nd of
           (False, nd1) \<Rightarrow> queue_to_coord env FROST_MSG_SHARE_LOAD_FAIL [] nd1
         | (True, nd1) \<Rightarrow> sign_req_accepted env payload nd1)
      else sign_req_accepted env payload nd)"

section \<open>Signing\<close>

text \<open>Check (b) and (c): the entry's owner signed this commitment for this message; mine is mine.\<close>

definition entry_verified :: "nenv \<Rightarrow> node \<Rightarrow> bytes \<Rightarrow> frost_commit_entry \<Rightarrow> bool" where
  "entry_verified env nd tbs e =
     (case build_commit_sign_buf SIGN_BUF_MAX tbs (ce_commit e) of None \<Rightarrow> False
      | Some buf \<Rightarrow> verify_by env nd (ce_id e) buf (take FROST_FRAME_SIG_SIZE (ce_commit_sig e)))"

fun check_entries :: "nenv \<Rightarrow> node \<Rightarrow> bytes \<Rightarrow> frost_commit_entry list \<Rightarrow> bool \<Rightarrow> bool option" where
  "check_entries env nd tbs [] saw_self = Some saw_self"
| "check_entries env nd tbs (e # es) saw_self =
     (if \<not> entry_verified env nd tbs e then None
      else if ce_id e = n_my_id nd then
        (if length (ce_commit e) \<noteq> length (n_commit nd) \<or> ce_commit e \<noteq> n_commit nd then None
         else check_entries env nd tbs es True)
      else check_entries env nd tbs es saw_self)"

text \<open>The double loop of check (a).\<close>

fun no_dup_ids :: "frost_commit_entry list \<Rightarrow> bool" where
  "no_dup_ids [] \<longleftrightarrow> True"
| "no_dup_ids (e # es) \<longleftrightarrow> list_all (\<lambda>f. ce_id e \<noteq> ce_id f) es \<and> no_dup_ids es"

definition bundle_verified :: "nenv \<Rightarrow> node \<Rightarrow> frost_commit_bundle \<Rightarrow> bool" where
  "bundle_verified env nd b =
     (if length (cb_entries b) \<noteq> unat (n_t nd) then False
      else if \<not> no_dup_ids (cb_entries b) then False
      else (case check_entries env nd (cb_tbs b) (cb_entries b) False of
              None \<Rightarrow> False
            | Some saw_self \<Rightarrow>
                saw_self \<and> length (cb_tbs b) = length (n_tbs nd) \<and> cb_tbs b = n_tbs nd))"

definition corrupt_share :: "bytes \<Rightarrow> bytes" where
  "corrupt_share s =
     (let k = length s div 2 in
      if length s \<ge> 8 then s[k := s ! k XOR 0xFF, k + 1 := s ! (k + 1) XOR 0xFF] else s)"

definition sign_bundle :: "nenv \<Rightarrow> frost_commit_bundle \<Rightarrow> node \<Rightarrow> node outcome" where
  "sign_bundle env b nd =
     (case frost_assemble_signing_package (ne_exec env) b of None \<Rightarrow> Cont nd
      | Some spkg \<Rightarrow>
          (case frost_sign (ne_exec env) (n_my_id nd) spkg (n_nonces nd) (n_key_pkg nd) of None \<Rightarrow> Cont nd
           | Some share \<Rightarrow>
               nbind (queue_to_coord env FROST_MSG_SIG_SHARE
                        (if n_fault nd = FAULT_BAD_SHARE then corrupt_share share else share) nd)
                 (\<lambda>nd1. Cont (nd1\<lparr>n_nonces := [], n_state := DKG_COMPLETE\<rparr>))))"

definition on_relay_commit :: "nenv \<Rightarrow> bytes \<Rightarrow> node \<Rightarrow> node outcome" where
  "on_relay_commit env payload nd =
     (if n_fault nd = FAULT_SILENT then Cont nd
      else if n_key_pkg nd = [] then Cont nd
      else (case frost_unpack_commit_bundle payload of None \<Rightarrow> Cont nd
        | Some (b, _) \<Rightarrow> if bundle_verified env nd b then sign_bundle env b nd else Cont nd))"

section \<open>Dispatch\<close>

definition on_final_sig :: "nenv \<Rightarrow> bytes \<Rightarrow> node \<Rightarrow> node outcome" where
  "on_final_sig env payload nd =
     Cont (if ne_can_write env ''signature_pkg.hex''
           then nd\<lparr>n_files := n_files nd @ [(''signature_pkg.hex'', bytes_to_hex (take 64 payload) @ [NL])]\<rparr> else nd)"

definition on_error :: "node \<Rightarrow> node outcome" where
  "on_error nd = (if n_id_confirmed nd then Cont nd else Exit 1 nd)"

fun process_coord_frame :: "nenv \<Rightarrow> frost_msg_t \<Rightarrow> bytes \<Rightarrow> bytes \<Rightarrow> node \<Rightarrow> node outcome" where
  "process_coord_frame env FROST_MSG_HELLO_ACK sig payload nd = on_hello_ack env payload nd"
| "process_coord_frame env FROST_MSG_START_DKG sig payload nd = on_start_dkg env payload nd"
| "process_coord_frame env FROST_MSG_RELAY_R1 sig payload nd = on_relay_r1 env sig payload nd"
| "process_coord_frame env FROST_MSG_RELAY_R2 sig payload nd = on_relay_r2 env sig payload nd"
| "process_coord_frame env FROST_MSG_START_REFRESH sig payload nd = on_start_refresh env payload nd"
| "process_coord_frame env FROST_MSG_RELAY_REFRESH_R1 sig payload nd = on_relay_refresh_r1 env sig payload nd"
| "process_coord_frame env FROST_MSG_RELAY_REFRESH_R2 sig payload nd = on_relay_refresh_r2 env sig payload nd"
| "process_coord_frame env FROST_MSG_REFRESH_FINALIZE sig payload nd = on_refresh_finalize env nd"
| "process_coord_frame env FROST_MSG_SIGN_REQ sig payload nd = on_sign_req env payload nd"
| "process_coord_frame env FROST_MSG_RELAY_COMMIT sig payload nd = on_relay_commit env payload nd"
| "process_coord_frame env FROST_MSG_FINAL_SIG sig payload nd = on_final_sig env payload nd"
| "process_coord_frame env FROST_MSG_ERROR sig payload nd = on_error nd"
| "process_coord_frame env _ sig payload nd = Cont nd"

end
