(* ===== verification/Signer_Main.thy ===== *)
theory Signer_Main
  imports Signer_Node
begin

text \<open>
  The signer's \<^verbatim>\<open>main\<close> (\<^verbatim>\<open>frost_signer.c\<close>): arguments, the identity checks before it connects,
  its HELLO, and its event loop with the commitment it prepares ahead of time.
\<close>

section \<open>Start-up\<close>

definition node_boot :: node where
  "node_boot = \<lparr>n_my_id = 0, n_id_confirmed = False, n_n = 0, n_t = 0, n_state = DKG_IDLE,
     n_coord_mode = COORD_MODE_DKG, n_r1_secret = [], n_r2_secret = [], n_key_pkg = [], n_pub_key_pkg = [],
     n_nonces = [], n_commit = [], n_commit_is_precomputed = False, n_tbs = [], n_peer_r1 = [], n_peer_r2 = [],
     n_ref_r1_secret = [], n_ref_r2_secret = [], n_ref_r1_pkg = [], n_ref_peer_r1 = [], n_ref_peer_r2 = [],
     n_rx = rx_init (replicate FROST_FRAME_MAX 0), n_want_write = False, n_outq = [], n_fault = FAULT_NONE,
     n_cache = empty_cache, n_files = []\<rparr>"

definition scan_id :: "string \<Rightarrow> u16 option" where
  "scan_id s = map_option fst (scan_hu s)"

text \<open>\<^verbatim>\<open><id> <n> <t>\<close>, each in its range.\<close>

definition parse_ids :: "string \<Rightarrow> string \<Rightarrow> string \<Rightarrow> (u16 \<times> u16 \<times> u16) option" where
  "parse_ids a b d =
     (case scan_id a of None \<Rightarrow> None
      | Some i \<Rightarrow>
          if unat i < 1 \<or> unat i > FROST_MAX_SIGNERS then None
          else (case scan_id b of None \<Rightarrow> None
            | Some n \<Rightarrow>
                if unat n < 2 \<or> unat n > FROST_MAX_SIGNERS then None
                else (case scan_id d of None \<Rightarrow> None
                  | Some t \<Rightarrow>
                      if unat t < 1 \<or> unat t > unat n then None
                      else if unat i > unat n then None else Some (i, n, t))))"

definition fault_of :: "string \<Rightarrow> fault_mode_t option" where
  "fault_of s = (if s = ''bad-share'' then Some FAULT_BAD_SHARE else if s = ''silent'' then Some FAULT_SILENT
     else if s = ''no-commit'' then Some FAULT_NO_COMMIT else if s = ''dropout'' then Some FAULT_DROPOUT else None)"

fun parse_node_fault :: "string list \<Rightarrow> fault_mode_t \<Rightarrow> fault_mode_t option" where
  "parse_node_fault (a # v # rest) f =
     (if a = ''--fault'' then (case fault_of v of None \<Rightarrow> None | Some g \<Rightarrow> parse_node_fault rest g)
      else parse_node_fault (v # rest) f)"
| "parse_node_fault _ f = Some f"

definition key_path :: "u16 \<Rightarrow> string" where
  "key_path sid = ''certs/signer'' @ fmt_u (unat sid) @ ''key.pem''"

definition key_path_oaep :: "u16 \<Rightarrow> string" where
  "key_path_oaep sid = ''certs/signer'' @ fmt_u (unat sid) @ ''key_oaep.pem''"

text \<open>
  What start-up asks of the outside: whether a file exists, the certificate library, whether
  GnuTLS takes the key pair, the status of the OAEP configuration, and whether the connection
  and its handshake succeed.
\<close>

record start_env =
  se_exists :: "string \<Rightarrow> bool"
  se_x509 :: x509_lib
  se_cred_ok :: bool
  se_oaep_priv_rc :: int
  se_oaep_pub_rc :: "pubkey option \<Rightarrow> int"
  se_connected :: bool

definition identity_files :: "u16 \<Rightarrow> string list" where
  "identity_files i = [cert_path i, key_path i, cert_path_oaep i, key_path_oaep i]"

definition hello_payload :: "node \<Rightarrow> bytes" where
  "hello_payload nd = str_bytes (snprintf 32 (''SIGNER '' @ fmt_u (unat (n_my_id nd)) @ '' '' @ fmt_u (unat (n_n nd))
     @ '' '' @ fmt_u (unat (n_t nd)) @ [NL]))"

text \<open>The checks between the arguments and the connection; the cache that passed them.\<close>

definition check_identity :: "start_env \<Rightarrow> u16 \<Rightarrow> keycache option" where
  "check_identity se i =
     (case init_signer_pubkey_cache (se_x509 se) empty_cache of
        (_, False) \<Rightarrow> None
      | (kc, True) \<Rightarrow>
          if \<not> verify_own_identity (se_x509 se) (cert_path i) (get_signer_pubkey kc i) then None
          else if \<not> verify_own_identity (se_x509 se) (cert_path_oaep i) (get_signer_pubkey_oaep kc i) then None
          else if \<not> se_cred_ok se then None
          else if fst (config_gnutls_keys_for_RSA_OAEP (se_oaep_priv_rc se) (se_oaep_pub_rc se) kc) \<noteq> 0 then None
          else Some kc)"

definition node_start :: "nenv \<Rightarrow> start_env \<Rightarrow> string list \<Rightarrow> node outcome" where
  "node_start env se args =
     (case args of
        a # b # d # opts \<Rightarrow>
          (case parse_ids a b d of None \<Rightarrow> Exit 1 node_boot
           | Some (i, n, t) \<Rightarrow>
               (let nd = node_boot\<lparr>n_my_id := i, n_n := n, n_t := t\<rparr> in
                if \<not> list_all (se_exists se) (identity_files i) then Exit 1 nd
                else (case parse_node_fault opts FAULT_NONE of None \<Rightarrow> Exit 1 nd
                  | Some f \<Rightarrow>
                      (let nd1 = nd\<lparr>n_fault := f\<rparr> in
                       case check_identity se i of None \<Rightarrow> Exit 1 nd1
                       | Some kc \<Rightarrow>
                           (let nd2 = nd1\<lparr>n_cache := kc\<rparr> in
                            if \<not> se_connected se then Exit 1 nd2
                            else queue_to_coord env FROST_MSG_HELLO (hello_payload nd2) nd2)))))
      | _ \<Rightarrow> Exit 1 node_boot)"

section \<open>The event loop\<close>

text \<open>Prepare a commitment while idle, so that the next request can be answered at once.\<close>

definition precompute :: "nenv \<Rightarrow> node \<Rightarrow> node" where
  "precompute env nd =
     (if n_coord_mode nd = COORD_MODE_SIGN \<and> (n_state nd = DKG_IDLE \<or> n_state nd = DKG_COMPLETE) \<and>
         \<not> n_commit_is_precomputed nd
      then (case fresh_commit env nd of
              (True, nd1) \<Rightarrow> nd1\<lparr>n_commit_is_precomputed := True\<rparr>
            | (False, nd1) \<Rightarrow> nd1)
      else nd)"

text \<open>One frame: dispatched, then the next commitment prepared unless the handler ended the program.\<close>

definition node_frame :: "nenv \<Rightarrow> frost_msg_t \<Rightarrow> bytes \<Rightarrow> bytes \<Rightarrow> node \<Rightarrow> node outcome" where
  "node_frame env ty sig payload nd =
     nbind (process_coord_frame env ty sig payload nd) (\<lambda>nd1. Cont (precompute env nd1))"

datatype node_recv = NAgain bool | NClosed | NErr | NRecv bytes

definition node_read :: "nenv \<Rightarrow> node_recv \<Rightarrow> node \<Rightarrow> node outcome" where
  "node_read env res nd =
     (case res of
        NAgain w \<Rightarrow> Cont (nd\<lparr>n_want_write := w\<rparr>)
      | NClosed \<Rightarrow> if n_id_confirmed nd then Exit 0 nd else Exit 1 nd
      | NErr \<Rightarrow> Exit 0 nd
      | NRecv chunk \<Rightarrow>
          (let got = take (rx_room (n_rx nd)) chunk; rx = rx_recv (n_rx nd) got;
               nd1 = nd\<lparr>n_want_write := False, n_rx := rx\<rparr> in
           if got = [] then Exit 0 nd
           else (case signer_frame_ready rx of None \<Rightarrow> Cont nd1
           | Some (ty, slen, plen) \<Rightarrow>
               node_frame env ty (take (unat slen) (frame_sig_area rx)) (frame_payload (unat slen) plen rx)
                 (nd1\<lparr>n_rx := rx\<lparr>rx_off := 0\<rparr>\<rparr>))))"

datatype node_io = NSelFail | NSelNone | NSend send_result | NRead node_recv

definition wants_write :: "node \<Rightarrow> bool" where
  "wants_write nd \<longleftrightarrow> n_want_write nd \<or> n_outq nd \<noteq> []"

definition node_iter :: "nenv \<Rightarrow> node_io \<Rightarrow> node \<Rightarrow> node outcome" where
  "node_iter env ev nd =
     (case ev of
        NSelFail \<Rightarrow> Exit 0 nd
      | NSelNone \<Rightarrow> Cont nd
      | NSend r \<Rightarrow> if wants_write nd then drain_outq r nd else Cont nd
      | NRead r \<Rightarrow> if wants_write nd then Cont nd else node_read env r nd)"

end
