(* ===== verification/Signer_Inv.thy ===== *)
theory Signer_Inv
  imports Signer_Main
begin

text \<open>
  What the signer's handlers keep. The relation \<open>keeps\<close> holds between the node before and
  after every handler but the one that signs: identity, keys and receive buffer stay, the
  outbound queue only grows and by no signature share, and the live nonces are the old ones,
  gone, or fresh from the core together with their commitment. The data invariant bounds every
  buffer; the step relation is one iteration of the event loop.
\<close>

section \<open>What a handler leaves alone\<close>

lemma msg_codes [simp]:
  "msg_code FROST_MSG_HELLO = 1" "msg_code FROST_MSG_ROUND1_PKG = 2" "msg_code FROST_MSG_ROUND2_PKG = 3"
  "msg_code FROST_MSG_COMMIT = 4" "msg_code FROST_MSG_SIG_SHARE = 5" "msg_code FROST_MSG_R2_COMPLETE = 6"
  "msg_code FROST_MSG_PUB_KEY_PKG = 7" "msg_code FROST_MSG_SHARE_LOAD_FAIL = 8"
  "msg_code FROST_MSG_REFRESH_R1 = 0x38" "msg_code FROST_MSG_REFRESH_R2 = 0x39"
  "msg_code FROST_MSG_REFRESH_R2_COMPLETE = 0x3A" "msg_code FROST_MSG_REFRESH_COMPLETE = 0x3B"
  by (simp_all add: msg_table_def)

declare msg_code.simps [simp del]

text \<open>The tag byte of \<^verbatim>\<open>FROST_MSG_SIG_SHARE\<close> is 5.\<close>

definition is_share :: "outmsg \<Rightarrow> bool" where
  "is_share m \<longleftrightarrow> (case om_data m of Some (b # _) \<Rightarrow> b = 5 | _ \<Rightarrow> False)"

definition nonces_from :: "nenv \<Rightarrow> node \<Rightarrow> node \<Rightarrow> bool" where
  "nonces_from env nd nd' \<longleftrightarrow>
     (n_nonces nd' = n_nonces nd \<and> n_commit nd' = n_commit nd) \<or> n_nonces nd' = [] \<or>
     (\<exists>key. frost_commit (ne_exec env) (n_my_id nd) key = Some (n_nonces nd', n_commit nd'))"

definition keeps :: "nenv \<Rightarrow> node \<Rightarrow> node \<Rightarrow> bool" where
  "keeps env nd nd' \<longleftrightarrow> n_my_id nd' = n_my_id nd \<and> n_cache nd' = n_cache nd \<and> n_fault nd' = n_fault nd \<and>
     n_rx nd' = n_rx nd \<and> (\<exists>ms. n_outq nd' = n_outq nd @ ms \<and> list_all (\<lambda>m. \<not> is_share m) ms) \<and>
     nonces_from env nd nd'"

lemma keeps_refl [simp]: "keeps env nd nd"
  by (simp add: keeps_def nonces_from_def)

lemma keeps_trans: "keeps env a b \<Longrightarrow> keeps env b c \<Longrightarrow> keeps env a c"
  by (auto simp: keeps_def nonces_from_def)

lemma keeps_fields [simp, node_keeps]:
  "keeps env a (nd\<lparr>n_id_confirmed := b\<rparr>) = keeps env a nd" "keeps env a (nd\<lparr>n_n := x\<rparr>) = keeps env a nd"
  "keeps env a (nd\<lparr>n_t := x\<rparr>) = keeps env a nd" "keeps env a (nd\<lparr>n_state := st\<rparr>) = keeps env a nd"
  "keeps env a (nd\<lparr>n_coord_mode := m\<rparr>) = keeps env a nd" "keeps env a (nd\<lparr>n_r1_secret := bs\<rparr>) = keeps env a nd"
  "keeps env a (nd\<lparr>n_r2_secret := bs\<rparr>) = keeps env a nd" "keeps env a (nd\<lparr>n_key_pkg := bs\<rparr>) = keeps env a nd"
  "keeps env a (nd\<lparr>n_pub_key_pkg := bs\<rparr>) = keeps env a nd" "keeps env a (nd\<lparr>n_commit_is_precomputed := b\<rparr>) = keeps env a nd"
  "keeps env a (nd\<lparr>n_tbs := bs\<rparr>) = keeps env a nd" "keeps env a (nd\<lparr>n_peer_r1 := ps\<rparr>) = keeps env a nd"
  "keeps env a (nd\<lparr>n_peer_r2 := ps\<rparr>) = keeps env a nd" "keeps env a (nd\<lparr>n_ref_r1_secret := bs\<rparr>) = keeps env a nd"
  "keeps env a (nd\<lparr>n_ref_r2_secret := bs\<rparr>) = keeps env a nd" "keeps env a (nd\<lparr>n_ref_r1_pkg := bs\<rparr>) = keeps env a nd"
  "keeps env a (nd\<lparr>n_ref_peer_r1 := ps\<rparr>) = keeps env a nd" "keeps env a (nd\<lparr>n_ref_peer_r2 := ps\<rparr>) = keeps env a nd"
  "keeps env a (nd\<lparr>n_files := fs\<rparr>) = keeps env a nd" "keeps env a (nd\<lparr>n_want_write := b\<rparr>) = keeps env a nd"
  by (simp_all add: keeps_def nonces_from_def)

lemma keeps_queue_signed:
  assumes "queue_to_coord_signed env ty buf payload nd = Cont nd'" "msg_code ty \<noteq> 5"
    and "keeps env a nd"
  shows "keeps env a nd'"
proof -
  have "keeps env nd nd'"
    using assms(1,2)
    by (auto simp: queue_to_coord_signed_def Let_def keeps_def nonces_from_def is_share_def frost_encode_frame_def
        split: option.split_asm if_split_asm)
  with assms(3) show ?thesis by (rule keeps_trans)
qed

lemma keeps_queue:
  "queue_to_coord env ty payload nd = Cont nd' \<Longrightarrow> msg_code ty \<noteq> 5 \<Longrightarrow> keeps env a nd \<Longrightarrow>
   keeps env a nd'"
  unfolding queue_to_coord_def by (rule keeps_queue_signed)

lemma nbind_Cont: "nbind m k = Cont nd' \<longleftrightarrow> (\<exists>nd1. m = Cont nd1 \<and> k nd1 = Cont nd')"
  by (cases m) auto

lemma keeps_load: "load_key_material env nd = (ok, nd') \<Longrightarrow> keeps env a nd \<Longrightarrow> keeps env a nd'"
  by (auto simp: load_key_material_def load_pub_pkg_def split: option.split_asm if_split_asm)

lemma keeps_save: "save_key_material env nd = (ok, nd') \<Longrightarrow> keeps env a nd \<Longrightarrow> keeps env a nd'"
  by (auto simp: save_key_material_def Let_def split: if_split_asm)

lemma keeps_send_r2:
  "send_r2 env ty k ps nd = Cont nd' \<Longrightarrow> msg_code ty \<noteq> 5 \<Longrightarrow> keeps env a nd \<Longrightarrow> keeps env a nd'"
proof (induction ps arbitrary: k nd)
  case (Cons p rest)
  obtain tid pkg where p: "p = (tid, pkg)" by (cases p)
  note go = Cons.IH [OF _ Cons.prems(2), of "k + 1"]
  show ?case
    using Cons.prems go unfolding p send_r2.simps
    by (auto simp: nbind_Cont print_bytes_as_hex_def dest: keeps_queue split: option.split_asm if_split_asm)
qed simp

lemma clobber_Nil [simp]: "clobber [] w = []"
  by (simp add: clobber_def)

lemma length_clobber [simp]: "length (clobber old w) = length old"
  by (simp add: clobber_def overwrite_def)

lemma keeps_fresh_commit: "fresh_commit env nd = (ok, nd') \<Longrightarrow> keeps env nd nd'"
  by (auto simp: fresh_commit_def keeps_def nonces_from_def Let_def two_left_def
      split: option.split_asm prod.split_asm list.split_asm)

lemma fresh_commit_fields:
  "fresh_commit env nd = (ok, nd') \<Longrightarrow> \<exists>x y. nd' = nd\<lparr>n_nonces := x, n_commit := y\<rparr>"
  by (auto simp: fresh_commit_def Let_def split: option.split_asm prod.split_asm)

lemma keeps_precompute: "keeps env nd (precompute env nd)"
  by (auto simp: precompute_def dest: keeps_fresh_commit split: prod.split bool.split)

text \<open>Every case but the one that signs.\<close>

lemma keeps_send_commit: "send_commit env nd = Cont nd' \<Longrightarrow> keeps env a nd \<Longrightarrow> keeps env a nd'"
  by (auto simp: send_commit_def nbind_Cont elim!: keeps_queue_signed split: option.split_asm)

lemma keeps_sign_req_accepted:
  assumes "sign_req_accepted env payload nd = Cont nd'" "keeps env a nd"
  shows "keeps env a nd'"
proof -
  let ?nd = "nd\<lparr>n_tbs := payload, n_state := DKG_SIGNING\<rparr>"
  obtain ok nd1 where f: "fresh_commit env ?nd = (ok, nd1)" by (metis surj_pair)
  have "keeps env a ?nd" using assms(2) by simp
  moreover from this have "keeps env a nd1" using keeps_fresh_commit [OF f] keeps_trans by blast
  ultimately show ?thesis
    using assms f by (auto simp: sign_req_accepted_def Let_def elim!: keeps_send_commit split: if_split_asm bool.split_asm)
qed

lemma keeps_frame:
  assumes "process_coord_frame env ty sig payload nd = Cont nd'" "ty \<noteq> FROST_MSG_RELAY_COMMIT"
  shows "keeps env nd nd'"
proof (cases ty)
  case FROST_MSG_HELLO_ACK
  then show ?thesis
    using assms by (auto simp: on_hello_ack_def Let_def elim!: keeps_load keeps_queue
        split: option.split_asm if_split_asm prod.split_asm bool.split_asm)
next
  case FROST_MSG_SIGN_REQ
  then show ?thesis
    using assms by (auto simp: on_sign_req_def elim!: keeps_load keeps_queue keeps_sign_req_accepted
        split: if_split_asm prod.split_asm bool.split_asm)
next
  case FROST_MSG_RELAY_R2
  then show ?thesis
    using assms
    by (auto simp: on_relay_r2_def finish_dkg_def Let_def nbind_Cont
        elim!: keeps_queue intro!: keeps_save [OF surjective_pairing]
        split: if_split_asm prod.split_asm outcome.split_asm option.split_asm)
next
  case FROST_MSG_REFRESH_FINALIZE
  then show ?thesis
    using assms by (auto simp: on_refresh_finalize_def elim!: keeps_save keeps_queue
        split: if_split_asm prod.split_asm bool.split_asm option.split_asm)
next
  case FROST_MSG_RELAY_REFRESH_R1
  then show ?thesis
    using assms
    by (auto simp: on_relay_refresh_r1_def Let_def nbind_Cont elim!: keeps_queue keeps_send_r2
        split: if_split_asm prod.split_asm option.split_asm)
qed (use assms in \<open>auto simp: on_start_dkg_def on_relay_r1_def on_start_refresh_def on_relay_refresh_r2_def
      on_final_sig_def on_error_def Let_def elim!: keeps_queue keeps_send_r2
      split: if_split_asm prod.split_asm option.split_asm outcome.split_asm\<close>)

section \<open>The data invariant\<close>

abbreviation fits :: "bytes \<Rightarrow> bool" where
  "fits bs \<equiv> length bs \<le> FROST_MAX_PAYLOAD"

definition peers_ok :: "(u16 \<times> bytes) list \<Rightarrow> bool" where
  "peers_ok ps \<longleftrightarrow> length ps \<le> FROST_MAX_SIGNERS \<and> list_all (\<lambda>p. fits (snd p)) ps"

definition msg_live :: "outmsg \<Rightarrow> bool" where
  "msg_live m \<longleftrightarrow> node_ok m \<and> om_sent m < om_len m"

definition node_inv :: "node \<Rightarrow> bool" where
  "node_inv nd \<longleftrightarrow> rx_ok (n_rx nd) \<and> fits (n_r1_secret nd) \<and> fits (n_r2_secret nd) \<and> fits (n_key_pkg nd) \<and>
     fits (n_pub_key_pkg nd) \<and> fits (n_nonces nd) \<and> fits (n_commit nd) \<and> fits (n_tbs nd) \<and>
     fits (n_ref_r1_secret nd) \<and> fits (n_ref_r2_secret nd) \<and> fits (n_ref_r1_pkg nd) \<and>
     peers_ok (n_peer_r1 nd) \<and> peers_ok (n_peer_r2 nd) \<and> peers_ok (n_ref_peer_r1 nd) \<and> peers_ok (n_ref_peer_r2 nd) \<and>
     list_all msg_live (n_outq nd)"

text \<open>An update keeps it if what is stored fits.\<close>

lemma node_inv_flags [simp]:
  "node_inv (nd\<lparr>n_my_id := i\<rparr>) = node_inv nd" "node_inv (nd\<lparr>n_id_confirmed := b\<rparr>) = node_inv nd"
  "node_inv (nd\<lparr>n_n := x\<rparr>) = node_inv nd" "node_inv (nd\<lparr>n_t := x\<rparr>) = node_inv nd"
  "node_inv (nd\<lparr>n_state := st\<rparr>) = node_inv nd" "node_inv (nd\<lparr>n_coord_mode := m\<rparr>) = node_inv nd"
  "node_inv (nd\<lparr>n_commit_is_precomputed := b\<rparr>) = node_inv nd" "node_inv (nd\<lparr>n_files := fs\<rparr>) = node_inv nd"
  "node_inv (nd\<lparr>n_want_write := b\<rparr>) = node_inv nd" "node_inv (nd\<lparr>n_fault := f\<rparr>) = node_inv nd"
  "node_inv (nd\<lparr>n_cache := kc\<rparr>) = node_inv nd"
  by (simp_all add: node_inv_def)

lemma node_inv_store [intro]:
  "node_inv nd \<Longrightarrow> fits bs \<Longrightarrow> node_inv (nd\<lparr>n_r1_secret := bs\<rparr>)"
  "node_inv nd \<Longrightarrow> fits bs \<Longrightarrow> node_inv (nd\<lparr>n_r2_secret := bs\<rparr>)"
  "node_inv nd \<Longrightarrow> fits bs \<Longrightarrow> node_inv (nd\<lparr>n_key_pkg := bs\<rparr>)"
  "node_inv nd \<Longrightarrow> fits bs \<Longrightarrow> node_inv (nd\<lparr>n_pub_key_pkg := bs\<rparr>)"
  "node_inv nd \<Longrightarrow> fits bs \<Longrightarrow> node_inv (nd\<lparr>n_nonces := bs\<rparr>)"
  "node_inv nd \<Longrightarrow> fits bs \<Longrightarrow> node_inv (nd\<lparr>n_commit := bs\<rparr>)"
  "node_inv nd \<Longrightarrow> fits bs \<Longrightarrow> node_inv (nd\<lparr>n_tbs := bs\<rparr>)"
  "node_inv nd \<Longrightarrow> fits bs \<Longrightarrow> node_inv (nd\<lparr>n_ref_r1_secret := bs\<rparr>)"
  "node_inv nd \<Longrightarrow> fits bs \<Longrightarrow> node_inv (nd\<lparr>n_ref_r2_secret := bs\<rparr>)"
  "node_inv nd \<Longrightarrow> fits bs \<Longrightarrow> node_inv (nd\<lparr>n_ref_r1_pkg := bs\<rparr>)"
  "node_inv nd \<Longrightarrow> peers_ok ps \<Longrightarrow> node_inv (nd\<lparr>n_peer_r1 := ps\<rparr>)"
  "node_inv nd \<Longrightarrow> peers_ok ps \<Longrightarrow> node_inv (nd\<lparr>n_peer_r2 := ps\<rparr>)"
  "node_inv nd \<Longrightarrow> peers_ok ps \<Longrightarrow> node_inv (nd\<lparr>n_ref_peer_r1 := ps\<rparr>)"
  "node_inv nd \<Longrightarrow> peers_ok ps \<Longrightarrow> node_inv (nd\<lparr>n_ref_peer_r2 := ps\<rparr>)"
  "node_inv nd \<Longrightarrow> rx_ok rx \<Longrightarrow> node_inv (nd\<lparr>n_rx := rx\<rparr>)"
  "node_inv nd \<Longrightarrow> list_all msg_live q \<Longrightarrow> node_inv (nd\<lparr>n_outq := q\<rparr>)"
  by (simp_all add: node_inv_def)

lemma node_invD:
  assumes "node_inv nd"
  shows "rx_ok (n_rx nd)" "fits (n_r1_secret nd)" "fits (n_r2_secret nd)" "fits (n_key_pkg nd)" "fits (n_pub_key_pkg nd)"
    "fits (n_nonces nd)" "fits (n_commit nd)" "fits (n_tbs nd)" "fits (n_ref_r1_secret nd)" "fits (n_ref_r2_secret nd)"
    "fits (n_ref_r1_pkg nd)" "peers_ok (n_peer_r1 nd)" "peers_ok (n_peer_r2 nd)" "peers_ok (n_ref_peer_r1 nd)"
    "peers_ok (n_ref_peer_r2 nd)" "list_all msg_live (n_outq nd)"
  using assms by (simp_all add: node_inv_def)

lemma peers_ok_add:
  "peers_ok ps \<Longrightarrow> \<not> FROST_MAX_SIGNERS \<le> length ps \<Longrightarrow> fits p \<Longrightarrow> peers_ok (ps @ [(sid, p)])"
  by (simp add: peers_ok_def)

lemma queue_inv:
  assumes "node_inv nd" "signs_256 env" "fits payload"
  shows "\<exists>nd'. queue_to_coord_signed env ty buf payload nd = Cont nd' \<and> node_inv nd'"
proof -
  obtain fr s where q: "queue_to_coord_signed env ty buf payload nd =
       Cont (nd\<lparr>n_outq := n_outq nd @ [\<lparr>om_len = FROST_FRAME_HDR + FROST_FRAME_SIG_SIZE + length payload, om_sent = 0,
         om_data = Some fr\<rparr>]\<rparr>)" and s: "length s = FROST_FRAME_SIG_SIZE"
    and fr: "frost_encode_frame ty s (of_nat FROST_FRAME_SIG_SIZE) payload (of_nat (length payload)) = Some fr"
    using queue_signed_256 [OF assms(2,3)] by blast
  have "length payload < 65536" using assms(3) by (simp add: frost_consts)
  then have "length fr = FROST_FRAME_HDR + FROST_FRAME_SIG_SIZE + length payload"
    using frost_encode_frame_length [OF fr] s by (simp add: frame_sig_size_256)
  then show ?thesis
    using q node_invD(16) [OF assms(1)] assms(1) by (auto simp: msg_live_def node_ok_def frame_hdr_5)
qed

lemma queue_signed_inv:
  "queue_to_coord_signed env ty buf payload nd = Cont nd' \<Longrightarrow> node_inv nd \<Longrightarrow> signs_256 env \<Longrightarrow> fits payload \<Longrightarrow> node_inv nd'"
  using queue_inv by (metis outcome.inject(1))

lemma queue_to_coord_inv:
  "queue_to_coord env ty payload nd = Cont nd' \<Longrightarrow> node_inv nd \<Longrightarrow> signs_256 env \<Longrightarrow> fits payload \<Longrightarrow> node_inv nd'"
  unfolding queue_to_coord_def by (rule queue_signed_inv)

lemma load_inv: "load_key_material env nd = (ok, nd') \<Longrightarrow> node_inv nd \<Longrightarrow> node_inv nd'"
  by (auto simp: load_key_material_def load_pub_pkg_def node_invD dest!: hex_to_bytes_bound
      split: option.split_asm if_split_asm)

lemma save_inv: "save_key_material env nd = (ok, nd') \<Longrightarrow> node_inv nd' = node_inv nd"
  by (auto simp: save_key_material_def Let_def split: if_split_asm)

lemma fits_notice [simp]: "Suc (Suc 0) \<le> FROST_MAX_PAYLOAD"
  by (simp add: frost_consts)

text \<open>What the core returns fits, and what it leaves behind after a failure is no longer than before.\<close>

lemma two_left_fits: "fits x \<Longrightarrow> fits y \<Longrightarrow> fits (fst (two_left r (x, y))) \<and> fits (snd (two_left r (x, y)))"
  by (auto simp: two_left_def split: option.split list.split)

lemma secret_left_fits: "fits old \<Longrightarrow> fits (secret_left r old)"
  by (auto simp: secret_left_def dest: hex_to_bytes_bound split: option.split list.split)

lemma core_fits:
  "frost_dkg_part1 ex i n t = Some (a, b) \<Longrightarrow> fits a \<and> fits b"
  "frost_refresh_part1 ex i n t = Some (a, b) \<Longrightarrow> fits a \<and> fits b"
  "frost_refresh_shares ex n s p1 p2 k p = Some (a, b) \<Longrightarrow> fits a \<and> fits b"
  by (auto simp: frost_dkg_part1_def frost_refresh_part1_def frost_refresh_shares_def dest: two_blobs_Some)

lemma part3_fits: "frost_dkg_part3 ex i s p1 p2 = Some (k, Some p, l) \<Longrightarrow> fits k \<and> fits p"
  by (auto simp: frost_dkg_part3_def dest!: hex_to_bytes_bound split: option.split_asm list.split_asm)

lemma send_r2_inv:
  "send_r2 env ty k ps nd = Cont nd' \<Longrightarrow> node_inv nd \<Longrightarrow> signs_256 env \<Longrightarrow> node_inv nd'"
proof (induction ps arbitrary: k nd)
  case (Cons p rest)
  obtain tid pkg where p: "p = (tid, pkg)" by (cases p)
  have small: "length ct \<le> 256 \<Longrightarrow> fits (be16_bytes x @ be16_bytes y @ ct)" for x y ct
    by (simp add: frost_consts)
  note go = Cons.IH [OF _ _ Cons.prems(3), of "k + 1"]
  show ?case
    using Cons.prems go unfolding p send_r2.simps
    by (auto simp: nbind_Cont print_bytes_as_hex_def not_less simp del: append.simps
        dest!: queue_to_coord_inv [OF _ _ _ small] split: option.split_asm if_split_asm)
qed simp

lemma fresh_commit_inv: "fresh_commit env nd = (ok, nd') \<Longrightarrow> node_inv nd \<Longrightarrow> node_inv nd'"
  using two_left_fits [of "[]" "n_commit nd" "commit_run (ne_exec env) (n_my_id nd) (n_key_pkg nd)"]
  by (auto simp: fresh_commit_def Let_def node_invD dest!: frost_commit_bound
      intro!: node_inv_store split: option.split_asm prod.split_asm)

lemma precompute_inv: "node_inv nd \<Longrightarrow> node_inv (precompute env nd)"
  by (auto simp: precompute_def dest: fresh_commit_inv split: prod.split bool.split)

lemma send_commit_inv: "send_commit env nd = Cont nd' \<Longrightarrow> node_inv nd \<Longrightarrow> signs_256 env \<Longrightarrow> node_inv nd'"
  by (auto simp: send_commit_def nbind_Cont node_invD elim!: queue_signed_inv split: option.split_asm)

lemma sign_req_accepted_inv:
  "sign_req_accepted env payload nd = Cont nd' \<Longrightarrow> node_inv nd \<Longrightarrow> signs_256 env \<Longrightarrow> node_inv nd'"
  by (auto simp: sign_req_accepted_def Let_def not_less elim!: send_commit_inv fresh_commit_inv
      split: if_split_asm prod.split_asm bool.split_asm)

lemma length_corrupt_share [simp]: "length (corrupt_share s) = length s"
  by (simp add: corrupt_share_def Let_def)

lemma sign_bundle_inv: "sign_bundle env b nd = Cont nd' \<Longrightarrow> node_inv nd \<Longrightarrow> signs_256 env \<Longrightarrow> node_inv nd'"
  by (auto simp: sign_bundle_def nbind_Cont dest!: frost_sign_bound intro!: node_inv_store elim!: queue_to_coord_inv
      split: option.split_asm if_split_asm)

lemma finish_dkg_inv: "finish_dkg env nd = Cont nd' \<Longrightarrow> node_inv nd \<Longrightarrow> signs_256 env \<Longrightarrow> node_inv nd'"
proof (cases "frost_dkg_part3 (ne_exec env) (n_my_id nd) (n_r2_secret nd) (n_peer_r1 nd) (n_peer_r2 nd)")
  case None
  assume "finish_dkg env nd = Cont nd'" "node_inv nd"
  with None show ?thesis
    using two_left_fits [of "n_key_pkg nd" "[]"] by (auto simp: finish_dkg_def node_invD)
next
  case (Some r)
  obtain key p l where r: "r = (key, p, l)" by (cases r) auto
  assume d: "finish_dkg env nd = Cont nd'" and "node_inv nd" "signs_256 env"
  then obtain pub where p: "p = Some pub" using Some r by (cases p) (auto simp: finish_dkg_def)
  have "fits key" "fits pub" using part3_fits Some r p by auto
  with d \<open>node_inv nd\<close> \<open>signs_256 env\<close> show ?thesis
    using Some r p save_inv [OF surjective_pairing]
    by (auto simp: finish_dkg_def nbind_Cont intro!: node_inv_store elim!: queue_to_coord_inv)
qed

lemma take_r2_fits: "take_r2 env payload = Cont (Some (sid, pt)) \<Longrightarrow> fits pt"
  by (auto simp: take_r2_def print_bytes_as_hex_def split: option.split_asm if_split_asm)

lemma on_relay_r2_inv: "on_relay_r2 env sig payload nd = Cont nd' \<Longrightarrow> node_inv nd \<Longrightarrow> signs_256 env \<Longrightarrow> node_inv nd'"
  by (auto simp: on_relay_r2_def Let_def node_invD intro!: node_inv_store peers_ok_add elim!: finish_dkg_inv
      dest: take_r2_fits split: if_split_asm outcome.split_asm option.split_asm)

lemma on_relay_r1_inv: "on_relay_r1 env sig payload nd = Cont nd' \<Longrightarrow> node_inv nd \<Longrightarrow> signs_256 env \<Longrightarrow> node_inv nd'"
  by (auto simp: on_relay_r1_def Let_def node_invD not_less intro!: node_inv_store peers_ok_add secret_left_fits
      elim!: send_r2_inv split: if_split_asm prod.split_asm option.split_asm)

lemma on_relay_refresh_r1_inv:
  "on_relay_refresh_r1 env sig payload nd = Cont nd' \<Longrightarrow> node_inv nd \<Longrightarrow> signs_256 env \<Longrightarrow> node_inv nd'"
  by (auto simp: on_relay_refresh_r1_def Let_def node_invD not_less nbind_Cont
      intro!: node_inv_store peers_ok_add secret_left_fits
      elim!: queue_to_coord_inv send_r2_inv split: if_split_asm prod.split_asm option.split_asm)

lemma on_start_refresh_inv:
  assumes "on_start_refresh env payload nd = Cont nd'" "node_inv nd" "signs_256 env"
  shows "node_inv nd'"
proof -
  have left: "fits a" "fits b" if "two_left r (n_ref_r1_secret nd, n_ref_r1_pkg nd) = (a, b)" for r a b
    using two_left_fits [OF node_invD(9,11) [OF assms(2)], of r] that by simp_all
  show ?thesis
    using assms
    by (auto simp: on_start_refresh_def Let_def dest: left core_fits(2) intro!: node_inv_store elim!: queue_to_coord_inv
        split: prod.split_asm option.split_asm)
qed

lemma on_start_dkg_inv: "on_start_dkg env payload nd = Cont nd' \<Longrightarrow> node_inv nd \<Longrightarrow> signs_256 env \<Longrightarrow> node_inv nd'"
  using two_left_fits [of "n_r1_secret nd" "[]"]
  by (auto simp: on_start_dkg_def Let_def node_invD dest: core_fits(1) intro!: node_inv_store elim!: queue_to_coord_inv
      split: prod.split_asm option.split_asm)

lemma on_refresh_finalize_inv:
  "on_refresh_finalize env nd = Cont nd' \<Longrightarrow> node_inv nd \<Longrightarrow> signs_256 env \<Longrightarrow> node_inv nd'"
  by (auto simp: on_refresh_finalize_def dest: core_fits(3) dest!: save_inv elim!: queue_to_coord_inv intro!: node_inv_store
      split: if_split_asm prod.split_asm bool.split_asm option.split_asm)

lemma process_coord_frame_inv:
  assumes "process_coord_frame env ty sig payload nd = Cont nd'" "node_inv nd" "signs_256 env"
  shows "node_inv nd'"
proof (cases ty)
  case FROST_MSG_HELLO_ACK
  then show ?thesis
    using assms by (auto simp: on_hello_ack_def Let_def elim!: load_inv queue_to_coord_inv
        split: option.split_asm if_split_asm prod.split_asm bool.split_asm)
next
  case FROST_MSG_SIGN_REQ
  then show ?thesis
    using assms by (auto simp: on_sign_req_def elim!: load_inv queue_to_coord_inv sign_req_accepted_inv
        split: if_split_asm prod.split_asm bool.split_asm)
next
  case FROST_MSG_RELAY_REFRESH_R2
  then show ?thesis
    using assms by (auto simp: on_relay_refresh_r2_def node_invD intro!: node_inv_store peers_ok_add
        dest: take_r2_fits split: if_split_asm outcome.split_asm option.split_asm)
next
  case FROST_MSG_RELAY_COMMIT
  then show ?thesis
    using assms by (auto simp: on_relay_commit_def elim!: sign_bundle_inv split: if_split_asm option.split_asm prod.split_asm)
qed (use assms in \<open>auto simp: on_final_sig_def on_error_def
      dest: on_start_dkg_inv on_relay_r1_inv on_relay_r2_inv on_start_refresh_inv on_relay_refresh_r1_inv
        on_refresh_finalize_inv split: if_split_asm\<close>)

lemma node_frame_inv:
  "node_frame env ty sig payload nd = Cont nd' \<Longrightarrow> node_inv nd \<Longrightarrow> signs_256 env \<Longrightarrow> node_inv nd'"
  by (auto simp: node_frame_def nbind_Cont intro: precompute_inv process_coord_frame_inv)

lemma advance_queue_live: "list_all msg_live q \<Longrightarrow> list_all msg_live (advance_queue r q)"
  by (cases q) (auto simp: msg_live_def node_ok_def)

lemma node_iter_inv:
  assumes "node_iter env ev nd = Cont nd'" "node_inv nd" "signs_256 env"
  shows "node_inv nd'"
proof (cases ev)
  case (NSend r)
  then show ?thesis
    using assms
    by (auto simp: node_iter_def drain_outq_def node_invD intro!: node_inv_store advance_queue_live
        split: if_split_asm send_result.split_asm)
next
  case (NRead r)
  have rx: "rx_ok (rx_recv (n_rx nd) (take (rx_room (n_rx nd)) chunk))" for chunk
    using node_invD(1) [OF assms(2)] by (intro rx_recv_ok) auto
  moreover have "rx_ok (x\<lparr>rx_off := 0\<rparr>)" if "rx_ok x" for x using that by (simp add: rx_ok_def)
  ultimately show ?thesis
    using assms NRead
    by (auto simp: node_iter_def node_read_def Let_def intro!: node_inv_store elim!: node_frame_inv
        split: if_split_asm node_recv.split_asm option.split_asm)
qed (use assms in \<open>auto simp: node_iter_def\<close>)

section \<open>Runs\<close>

text \<open>
  One iteration of the event loop. All that is asked of the outside is that the 2048-bit RSA
  key signs, into 256 bytes.
\<close>

inductive node_step :: "node \<Rightarrow> node \<Rightarrow> bool" where
  node_turn: "signs_256 env \<Longrightarrow> node_iter env ev nd = Cont nd' \<Longrightarrow> node_step nd nd'"

inductive_cases node_stepE: "node_step nd nd'"

definition node_init :: "node \<Rightarrow> bool" where
  "node_init nd \<longleftrightarrow> (\<exists>env se args. signs_256 env \<and> node_start env se args = Cont nd)"

lemma node_boot_inv: "node_inv node_boot"
  by (simp add: node_inv_def node_boot_def rx_ok_def rx_init_def peers_ok_def)

lemma node_init_inv:
  assumes "node_init nd"
  shows "node_inv nd"
proof -
  obtain env se args where e: "signs_256 env" "node_start env se args = Cont nd"
    using assms by (auto simp: node_init_def)
  have "fits (hello_payload x)" for x
    by (rule le_trans [of _ 31]) (simp_all add: hello_payload_def snprintf_def frost_consts)
  then show ?thesis
    using e node_boot_inv
    by (auto simp: node_start_def Let_def elim!: queue_to_coord_inv split: list.split_asm option.split_asm if_split_asm)
qed

interpretation nodesys: invariant_system node_init node_step node_inv
  by unfold_locales (auto intro: node_init_inv elim!: node_stepE node_iter_inv)

end
