(* ===== verification/Signer_Props.thy ===== *)
theory Signer_Props
  imports Signer_Inv
begin

text \<open>
  What makes a signer correct: the data invariant of its runs, the exact meaning of its bundle
  check, that a signature share leaves it only for a bundle that passes, that nonces sign once,
  that a commitment is bound to its message, and that no frame makes it leave its arrays.
\<close>

section \<open>The bundle check\<close>

text \<open>
  What a bundle must satisfy before a signer signs, written as a contract: the threshold
  number of different signers, each commitment signed by its owner together with this message,
  my own commitment among them, and the message I was asked about.
\<close>

definition owner_signed :: "nenv \<Rightarrow> node \<Rightarrow> bytes \<Rightarrow> frost_commit_entry \<Rightarrow> bool" where
  "owner_signed env nd tbs e \<longleftrightarrow>
     (\<exists>pk. get_signer_pubkey (n_cache nd) (ce_id e) = Some pk \<and>
        ne_verify env pk (be16_bytes (of_nat (length tbs)) @ tbs @ ce_commit e) (take FROST_FRAME_SIG_SIZE (ce_commit_sig e)))"

definition bundle_contract :: "nenv \<Rightarrow> node \<Rightarrow> frost_commit_bundle \<Rightarrow> bool" where
  "bundle_contract env nd b \<longleftrightarrow>
     length (cb_entries b) = unat (n_t nd) \<and> distinct (map ce_id (cb_entries b)) \<and>
     (\<forall>e \<in> set (cb_entries b). owner_signed env nd (cb_tbs b) e) \<and>
     (\<exists>e \<in> set (cb_entries b). ce_id e = n_my_id nd \<and> ce_commit e = n_commit nd) \<and>
     cb_tbs b = n_tbs nd"

lemma no_dup_ids_distinct: "no_dup_ids es \<longleftrightarrow> distinct (map ce_id es)"
  by (induction es) (auto simp: list_all_iff)

lemma check_entries_Some:
  "check_entries env nd tbs es saw = Some r \<longleftrightarrow>
     (\<forall>e \<in> set es. entry_verified env nd tbs e \<and> (ce_id e = n_my_id nd \<longrightarrow> ce_commit e = n_commit nd)) \<and>
     r = (saw \<or> (\<exists>e \<in> set es. ce_id e = n_my_id nd))"
  by (induction es arbitrary: saw) auto

lemma entry_verified_owner:
  "entry_ok e \<Longrightarrow> length tbs \<le> FROST_MAX_PAYLOAD \<Longrightarrow> entry_verified env nd tbs e = owner_signed env nd tbs e"
  using build_commit_sign_buf_fits [of tbs "ce_commit e"]
  by (simp add: entry_verified_def owner_signed_def verify_by_def entry_ok_def FROST_COMMIT_ENTRY_MAX_def frost_consts
      split: option.split)

lemma own_entry_unique:
  assumes "distinct (map ce_id es)"
  shows "(\<exists>e \<in> set es. ce_id e = i \<and> ce_commit e = c) \<longleftrightarrow>
    (\<exists>e \<in> set es. ce_id e = i) \<and> (\<forall>e \<in> set es. ce_id e = i \<longrightarrow> ce_commit e = c)"
  using assms by (auto simp: distinct_map dest: inj_onD)

lemma bundle_verified_iff:
  "bundle_verified env nd b \<longleftrightarrow> length (cb_entries b) = unat (n_t nd) \<and> no_dup_ids (cb_entries b) \<and>
     check_entries env nd (cb_tbs b) (cb_entries b) False = Some True \<and> cb_tbs b = n_tbs nd"
  by (auto simp: bundle_verified_def split: option.split)

lemma bundle_verified_contract:
  assumes "bundle_ok b"
  shows "bundle_verified env nd b = bundle_contract env nd b"
proof -
  have "(\<forall>e \<in> set (cb_entries b). entry_verified env nd (cb_tbs b) e) \<longleftrightarrow>
      (\<forall>e \<in> set (cb_entries b). owner_signed env nd (cb_tbs b) e)"
    using assms by (intro ball_cong refl entry_verified_owner) (auto simp: bundle_ok_def list_all_iff)
  then show ?thesis
    using own_entry_unique [of "cb_entries b" "n_my_id nd" "n_commit nd"]
    unfolding bundle_verified_iff bundle_contract_def no_dup_ids_distinct check_entries_Some by blast
qed

section \<open>Signing\<close>

text \<open>A turn adds a signature share to the outbound queue.\<close>

definition queues_share :: "node \<Rightarrow> node \<Rightarrow> bool" where
  "queues_share nd nd' \<longleftrightarrow> list_ex is_share (drop (length (n_outq nd)) (n_outq nd'))"

lemma keeps_no_share: "keeps env nd nd' \<Longrightarrow> \<not> queues_share nd nd'"
  by (auto simp: keeps_def queues_share_def list_all_iff list_ex_iff)

text \<open>What the handler does when it signs; otherwise it leaves the node as it was.\<close>

definition signed :: "nenv \<Rightarrow> bytes \<Rightarrow> node \<Rightarrow> node \<Rightarrow> bool" where
  "signed env payload nd nd' \<longleftrightarrow>
     (\<exists>b n spkg share m. frost_unpack_commit_bundle payload = Some (b, n) \<and> n_key_pkg nd \<noteq> [] \<and> bundle_contract env nd b \<and>
        frost_assemble_signing_package (ne_exec env) b = Some spkg \<and>
        frost_sign (ne_exec env) (n_my_id nd) spkg (n_nonces nd) (n_key_pkg nd) = Some share \<and>
        nd' = nd\<lparr>n_outq := n_outq nd @ [m], n_nonces := [], n_state := DKG_COMPLETE\<rparr>)"

lemma on_relay_commit_cases:
  assumes "on_relay_commit env payload nd = Cont nd'"
  shows "nd' = nd \<or> signed env payload nd nd'"
proof (cases "frost_unpack_commit_bundle payload")
  case None
  then show ?thesis using assms by (auto simp: on_relay_commit_def split: if_split_asm)
next
  case (Some r)
  obtain b n where r: "r = (b, n)" by (cases r)
  have "bundle_ok b" using unpack_bundle_sound(1) Some r by blast
  then have c: "bundle_verified env nd b = bundle_contract env nd b" by (rule bundle_verified_contract)
  show ?thesis
    using assms Some r c
    by (auto simp: on_relay_commit_def sign_bundle_def signed_def queue_to_coord_def nbind_Cont
        dest!: queue_signed_keeps split: if_split_asm option.split_asm)
qed

lemma share_frame: "frost_encode_frame FROST_MSG_SIG_SHARE s sl p pl = Some fr \<Longrightarrow> is_share \<lparr>om_len = k, om_sent = 0, om_data = Some fr\<rparr>"
  by (auto simp: frost_encode_frame_def is_share_def split: if_split_asm)

text \<open>A bundle that passes is answered with a share.\<close>

lemma verified_bundle_signs:
  assumes "frost_unpack_commit_bundle payload = Some (b, n)" "bundle_contract env nd b" "n_fault nd \<noteq> FAULT_SILENT" "n_key_pkg nd \<noteq> []"
    and "signs_256 env" "frost_assemble_signing_package (ne_exec env) b = Some spkg"
    and sh: "frost_sign (ne_exec env) (n_my_id nd) spkg (n_nonces nd) (n_key_pkg nd) = Some share"
  shows "\<exists>nd'. on_relay_commit env payload nd = Cont nd' \<and> queues_share nd nd' \<and> n_coord_mode nd' = n_coord_mode nd \<and> n_nonces nd' = []"
proof -
  let ?p = "if n_fault nd = FAULT_BAD_SHARE then corrupt_share share else share"
  have "bundle_verified env nd b"
    using bundle_verified_contract [OF unpack_bundle_sound(1) [OF assms(1)]] assms(2) by blast
  moreover have "fits ?p" using frost_sign_bound [OF sh] by simp
  then obtain s fr where "queue_to_coord_signed env FROST_MSG_SIG_SHARE ?p ?p nd =
       Cont (nd\<lparr>n_outq := n_outq nd @ [\<lparr>om_len = FROST_FRAME_HDR + FROST_FRAME_SIG_SIZE + length ?p, om_sent = 0,
         om_data = Some fr\<rparr>]\<rparr>)"
    and "frost_encode_frame FROST_MSG_SIG_SHARE s (of_nat FROST_FRAME_SIG_SIZE) ?p (of_nat (length ?p)) = Some fr"
    using queue_signed_256 [OF assms(5)] by blast
  ultimately show ?thesis
    using assms(1,3,4,6,7) share_frame
    by (simp add: on_relay_commit_def sign_bundle_def queue_to_coord_def queues_share_def del: length_corrupt_share)
qed

lemma frame_share_cases:
  assumes "process_coord_frame env ty sig payload nd = Cont nd'"
    and "queues_share nd nd' \<or> ty = FROST_MSG_RELAY_COMMIT \<and> n_outq nd' \<noteq> n_outq nd"
  shows "ty = FROST_MSG_RELAY_COMMIT \<and> signed env payload nd nd'"
proof (cases "ty = FROST_MSG_RELAY_COMMIT")
  case True
  have "\<not> queues_share nd nd" by (simp add: queues_share_def)
  then show ?thesis using assms on_relay_commit_cases [of env payload nd nd'] True by auto
next
  case False
  then show ?thesis using assms keeps_no_share [OF keeps_frame [OF assms(1)]] by simp
qed

lemma frame_nonces:
  assumes "process_coord_frame env ty sig payload nd = Cont nd'"
  shows "n_my_id nd' = n_my_id nd \<and> nonces_from env nd nd' \<and> (queues_share nd nd' \<longrightarrow> n_nonces nd' = [])"
proof (cases "ty = FROST_MSG_RELAY_COMMIT")
  case True
  then show ?thesis
    using assms on_relay_commit_cases [of env payload nd nd']
    by (auto simp: signed_def nonces_from_def queues_share_def)
next
  case False
  then show ?thesis using keeps_frame [OF assms] keeps_no_share by (auto simp: keeps_def)
qed

section \<open>Nonces over a run\<close>

definition draws :: "nenv \<Rightarrow> bytes \<Rightarrow> bool" where
  "draws env x \<longleftrightarrow> (\<exists>i key y. frost_commit (ne_exec env) i key = Some (x, y))"

lemma node_frame_nonces:
  assumes "node_frame env ty sig payload nd = Cont nd'"
  shows "(n_nonces nd' = n_nonces nd \<and> \<not> queues_share nd nd') \<or> n_nonces nd' = [] \<or> draws env (n_nonces nd')"
proof -
  obtain nd1 where p: "process_coord_frame env ty sig payload nd = Cont nd1" and nd': "nd' = precompute env nd1"
    using assms by (auto simp: node_frame_def nbind_Cont)
  have k: "keeps env nd1 nd'" using nd' keeps_precompute by simp
  have share: "queues_share nd nd' \<Longrightarrow> queues_share nd nd1"
  proof -
    obtain ms where ms: "n_outq nd' = n_outq nd1 @ ms" "list_all (\<lambda>m. \<not> is_share m) ms"
      using k by (auto simp: keeps_def)
    then have "\<not> list_ex is_share (drop j ms)" for j
      by (auto simp: list_all_iff list_ex_iff dest: in_set_dropD)
    then show "queues_share nd nd' \<Longrightarrow> queues_share nd nd1" by (simp add: queues_share_def ms(1))
  qed
  note f = frame_nonces [OF p]
  show ?thesis
    using k f share by (auto simp: keeps_def nonces_from_def draws_def)
qed

lemma node_iter_nonces:
  assumes "node_iter env ev nd = Cont nd'"
  shows "(n_nonces nd' = n_nonces nd \<and> \<not> queues_share nd nd') \<or> n_nonces nd' = [] \<or> draws env (n_nonces nd')"
proof (cases ev)
  case (NSend r)
  then show ?thesis
    using assms
    by (cases "n_outq nd") (auto simp: node_iter_def drain_outq_def queues_share_def split: if_split_asm send_result.split_asm)
next
  case (NRead r)
  have rx: "queues_share (nd\<lparr>n_want_write := w, n_rx := x\<rparr>) nd' = queues_share nd nd'" for w x by (simp add: queues_share_def)
  show ?thesis
    using assms NRead node_frame_nonces [of env _ _ _ "nd\<lparr>n_want_write := False, n_rx := x\<rparr>" nd' for x]
    by (auto simp: node_iter_def node_read_def Let_def rx queues_share_def
        split: if_split_asm node_recv.split_asm option.split_asm prod.split_asm)
qed (use assms in \<open>auto simp: node_iter_def queues_share_def\<close>)

fun node_run :: "(nenv \<times> node_io) list \<Rightarrow> node \<Rightarrow> node outcome" where
  "node_run [] nd = Cont nd"
| "node_run ((env, ev) # es) nd = nbind (node_iter env ev nd) (node_run es)"

lemma node_run_nonces:
  "node_run es nd = Cont nd' \<Longrightarrow> n_nonces nd' = n_nonces nd \<or> n_nonces nd' = [] \<or> (\<exists>e \<in> set (map fst es). draws e (n_nonces nd'))"
proof (induction es arbitrary: nd)
  case (Cons p es)
  obtain env ev where p: "p = (env, ev)" by (cases p)
  then obtain nd1 where "node_iter env ev nd = Cont nd1" "node_run es nd1 = Cont nd'"
    using Cons.prems by (auto simp: nbind_Cont)
  then show ?case using Cons.IH [of nd1] node_iter_nonces [of env ev nd nd1] p by auto
qed simp

section \<open>Memory safety\<close>

text \<open>
  What 2048-bit RSA gives: signatures of 256 bytes, no other accepted, and no plaintext longer
  than the modulus. And what the core's documented output gives: packages that decode and that
  stay below the size the debug printer can hold.
\<close>

definition rsa_2048 :: "nenv \<Rightarrow> bool" where
  "rsa_2048 env \<longleftrightarrow> signs_256 env \<and> (\<forall>pk d s. ne_verify env pk d s \<longrightarrow> length s = FROST_FRAME_SIG_SIZE) \<and>
     (\<forall>ct pt. ne_decrypt env ct = Some pt \<longrightarrow> length pt \<le> FROST_FRAME_SIG_SIZE)"

definition core_decodes :: "nenv \<Rightarrow> bool" where
  "core_decodes env \<longleftrightarrow>
     (\<forall>i s p1 p2 key l. frost_dkg_part3 (ne_exec env) i s p1 p2 \<noteq> Some (key, None, l)) \<and>
     (\<forall>i s ps r2 out. frost_dkg_part2 (ne_exec env) i s ps = Some (r2, out) \<longrightarrow> (\<forall>p \<in> set out. length (snd p) < 12000)) \<and>
     (\<forall>i s ps r2 out. frost_refresh_part2 (ne_exec env) i s ps = Some (r2, out) \<longrightarrow> (\<forall>p \<in> set out. length (snd p) < 12000))"

lemma core_decodesD:
  "core_decodes env \<Longrightarrow> frost_dkg_part2 (ne_exec env) i s ps = Some (r2, out) \<Longrightarrow> (j, b) \<in> set out \<Longrightarrow> length b < 12000"
  "core_decodes env \<Longrightarrow> frost_refresh_part2 (ne_exec env) i s ps = Some (r2, out) \<Longrightarrow> (j, b) \<in> set out \<Longrightarrow> length b < 12000"
  unfolding core_decodes_def by (metis snd_conv)+

lemma save_invI: "save_key_material env nd = (ok, nd') \<Longrightarrow> node_inv nd \<Longrightarrow> node_inv nd'"
  using save_inv by blast

lemma nbind_Undef: "nbind m k = Undef \<longleftrightarrow> m = Undef \<or> (\<exists>nd1. m = Cont nd1 \<and> k nd1 = Undef)"
  by (cases m) auto

lemma queue_safe:
  assumes "queue_to_coord env ty payload nd = Undef" "node_inv nd" "signs_256 env" "fits payload"
  shows P
  using queue_inv [OF assms(2-4), of ty payload] assms(1) by (simp add: queue_to_coord_def)

lemma queue_signed_safe:
  assumes "queue_to_coord_signed env ty buf payload nd = Undef" "node_inv nd" "signs_256 env" "fits payload"
  shows P
  using queue_inv [OF assms(2-4), of ty buf] assms(1) by simp

lemma send_r2_safe:
  "send_r2 env ty k ps nd = Undef \<Longrightarrow> node_inv nd \<Longrightarrow> signs_256 env \<Longrightarrow> \<forall>p \<in> set ps. length (snd p) < 12000 \<Longrightarrow> P"
proof (induction ps arbitrary: k nd)
  case (Cons p rest)
  obtain tid pkg where p: "p = (tid, pkg)" by (cases p)
  have small: "length ct \<le> 256 \<Longrightarrow> fits (be16_bytes x @ be16_bytes y @ ct)" for x y ct
    by (simp add: frost_consts)
  have pr: "\<exists>s. print_bytes_as_hex pkg = Cont s" using Cons.prems(4) p by (simp add: print_bytes_as_hex_def frost_consts)
  have go: "send_r2 env ty j rest x = Undef \<Longrightarrow> node_inv x \<Longrightarrow> P" for j x
    using Cons.IH [of j x] Cons.prems(3,4) by simp
  show ?case
    using Cons.prems(1-3) pr unfolding p send_r2.simps
    by (auto simp: nbind_Undef not_less simp del: append.simps
        elim!: go queue_safe [OF _ _ _ small] queue_to_coord_inv [OF _ _ _ small]
        split: option.split_asm if_split_asm)
qed simp

lemma finish_dkg_safe:
  assumes "finish_dkg env nd = Undef" "node_inv nd" "signs_256 env" "core_decodes env"
  shows P
proof (cases "frost_dkg_part3 (ne_exec env) (n_my_id nd) (n_r2_secret nd) (n_peer_r1 nd) (n_peer_r2 nd)")
  case (Some r)
  obtain key p l where r: "r = (key, p, l)" by (cases r) auto
  obtain pub where p: "p = Some pub" using assms(4) Some r by (cases p) (auto simp: core_decodes_def)
  have "fits key" "fits pub" using part3_fits Some r p by auto
  then show ?thesis
    using assms Some r p save_inv [OF surjective_pairing]
    by (auto simp: finish_dkg_def nbind_Undef intro!: node_inv_store elim!: queue_safe queue_to_coord_inv)
qed (use assms in \<open>simp add: finish_dkg_def\<close>)

lemma sign_req_accepted_safe:
  assumes "sign_req_accepted env payload nd = Undef" "node_inv nd" "signs_256 env"
  shows P
proof -
  have sc: "send_commit env x = Undef \<Longrightarrow> node_inv x \<Longrightarrow> P" for x
    using assms(3) by (auto simp: send_commit_def nbind_Undef node_invD elim!: queue_signed_safe split: option.split_asm)
  have fc: "node_inv y" if "fresh_commit env (nd\<lparr>n_tbs := payload, n_state := DKG_SIGNING\<rparr>) = (ok, y)" "fits payload" for ok y
    using that assms(2) by (intro fresh_commit_inv [OF that(1)]) auto
  show ?thesis
    using assms by (auto simp: sign_req_accepted_def Let_def not_less elim!: sc intro: fc
        split: if_split_asm prod.split_asm bool.split_asm)
qed

lemma process_coord_frame_safe:
  assumes "process_coord_frame env ty sig payload nd = Undef" "node_inv nd" "rsa_2048 env" "core_decodes env"
    and len: "FROST_FRAME_HDR + length sig + length payload \<le> FROST_FRAME_MAX"
  shows P
proof -
  have s: "signs_256 env" using assms(3) by (simp add: rsa_2048_def)
  have short: "fits (drop 2 payload)" if "verify_by env nd i d sig" for i d
    using that assms(3) len
    by (auto simp: verify_by_def rsa_2048_def FROST_FRAME_MAX_def frost_consts split: option.split_asm)
  have tr: "take_r2 env payload = Cont None \<or> (\<exists>e. take_r2 env payload = Cont (Some e))"
  proof (cases "ne_decrypt env (drop 4 payload)")
    case (Some pt)
    then have "length pt \<le> 256" using assms(3) by (simp add: rsa_2048_def frame_sig_size_256)
    with Some show ?thesis by (simp add: take_r2_def print_bytes_as_hex_def frost_consts)
  qed (simp add: take_r2_def)
  show ?thesis
  proof (cases ty)
    case FROST_MSG_HELLO_ACK
    then show ?thesis
      using assms(1,2) s by (auto simp: on_hello_ack_def Let_def elim!: load_inv queue_safe
          split: option.split_asm if_split_asm prod.split_asm bool.split_asm)
  next
    case FROST_MSG_SIGN_REQ
    then show ?thesis
      using assms(1,2) s by (auto simp: on_sign_req_def elim!: load_inv queue_safe sign_req_accepted_safe
          split: if_split_asm prod.split_asm bool.split_asm)
  next
    case FROST_MSG_RELAY_R1
    then show ?thesis
      using assms(1,2,4) s short
      by (auto simp: on_relay_r1_def Let_def node_invD not_less intro!: node_inv_store peers_ok_add secret_left_fits
          dest: core_decodesD(1) elim!: send_r2_safe split: if_split_asm option.split_asm prod.split_asm)
  next
    case FROST_MSG_RELAY_REFRESH_R1
    then show ?thesis
      using assms(1,2,4) s short
      by (auto simp: on_relay_refresh_r1_def Let_def node_invD not_less nbind_Undef
          intro!: node_inv_store peers_ok_add secret_left_fits
          dest: core_decodesD(2) elim!: send_r2_safe queue_safe send_r2_inv split: if_split_asm option.split_asm prod.split_asm)
  next
    case FROST_MSG_RELAY_R2
    then show ?thesis
      using assms(1,2,4) s tr
      by (auto simp: on_relay_r2_def Let_def node_invD intro!: node_inv_store peers_ok_add elim!: finish_dkg_safe
          dest: take_r2_fits split: if_split_asm)
  next
    case FROST_MSG_RELAY_COMMIT
    then show ?thesis
      using assms(1,2) s
      by (auto simp: on_relay_commit_def sign_bundle_def nbind_Undef dest!: frost_sign_bound elim!: queue_safe
          split: if_split_asm option.split_asm prod.split_asm)
  next
    case FROST_MSG_REFRESH_FINALIZE
    then show ?thesis
      using assms(1,2) s
      by (auto simp: on_refresh_finalize_def dest: core_fits(3) elim!: queue_safe save_invI intro!: node_inv_store
          split: if_split_asm option.split_asm prod.split_asm bool.split_asm)
  qed (use assms(1,2) s tr in \<open>auto simp: on_start_dkg_def on_start_refresh_def on_relay_refresh_r2_def on_final_sig_def
        on_error_def Let_def dest: core_fits(1,2) intro!: node_inv_store elim!: queue_safe
        split: if_split_asm option.split_asm prod.split_asm outcome.split_asm\<close>)
qed

lemma node_iter_safe:
  assumes "node_inv nd" "rsa_2048 env" "core_decodes env"
  shows "node_iter env ev nd \<noteq> Undef"
proof -
  have fr: "node_frame env ty sig payload x \<noteq> Undef"
    if "node_inv x" "FROST_FRAME_HDR + length sig + length payload \<le> FROST_FRAME_MAX" for ty sig payload x
    using process_coord_frame_safe [OF _ that(1) assms(2,3) that(2)] by (auto simp: node_frame_def nbind_Undef)
  have rd: "node_read env r nd \<noteq> Undef" for r
  proof (cases r)
    case (NRecv chunk)
    let ?rx = "rx_recv (n_rx nd) (take (rx_room (n_rx nd)) chunk)"
    have rx: "rx_ok ?rx" using node_invD(1) [OF assms(1)] by (intro rx_recv_ok) auto
    then have inv: "node_inv (nd\<lparr>n_want_write := False, n_rx := ?rx\<lparr>rx_off := 0\<rparr>\<rparr>)"
      using assms(1) by (intro node_inv_store) (simp_all add: rx_ok_def)
    have "FROST_FRAME_HDR + length (take (unat slen) (frame_sig_area ?rx)) + length (frame_payload (unat slen) plen ?rx)
        \<le> FROST_FRAME_MAX" if "signer_frame_ready ?rx = Some (ty, slen, plen)" for ty slen plen
      using signer_frame_ready_bound [OF rx that] by (auto simp: frame_payload_def)
    with NRecv fr [OF inv] show ?thesis by (auto simp: node_read_def Let_def split: option.split)
  qed (auto simp: node_read_def)
  have "drain_outq s nd \<noteq> Undef" for s by (auto simp: drain_outq_def split: send_result.split)
  with rd show ?thesis by (auto simp: node_iter_def split: node_io.split)
qed

section \<open>A frame that arrives whole\<close>

lemma node_read_frame:
  assumes enc: "msg_ok ty" "frost_encode_frame ty sig slen payload plen = Some fr"
    and len: "unat slen = length sig" "unat plen = length payload" "length fr \<le> FROST_FRAME_MAX"
    and rx: "rx_ok (n_rx nd)" "rx_off (n_rx nd) = 0"
  shows "node_read env (NRecv fr) nd =
    node_frame env ty sig payload (nd\<lparr>n_want_write := False, n_rx := (rx_recv (n_rx nd) fr)\<lparr>rx_off := 0\<rparr>\<rparr>)"
proof -
  have "fr \<noteq> []" using enc(2) by (auto simp: frost_encode_frame_def split: if_splits)
  moreover have "take (rx_room (n_rx nd)) fr = fr" using len(3) rx(2) by (simp add: rx_room_def)
  ultimately show ?thesis
    using signer_frame_fed [OF enc len rx, of "[fr]" "[fr]" "[]"] by (simp add: node_read_def Let_def)
qed

section \<open>A small world for the witnesses\<close>

text \<open>A core that prints two given lines whatever it is asked, and keys that accept any 256 bytes.\<close>

definition demo_core :: "bytes \<Rightarrow> bytes \<Rightarrow> exec" where
  "demo_core a b = (\<lambda>cmd input. Some (print_lines [bytes_to_hex a, bytes_to_hex b], 0))"

definition demo_nenv :: "bytes \<Rightarrow> bytes \<Rightarrow> nenv" where
  "demo_nenv a b = \<lparr>ne_exec = demo_core a b, ne_sign = (\<lambda>_. Some (replicate 256 0)), ne_verify = (\<lambda>_ _ s. length s = 256),
     ne_encrypt = (\<lambda>_ _ _. None), ne_decrypt = (\<lambda>_. None), ne_read = (\<lambda>_. None), ne_can_write = (\<lambda>_. True)\<rparr>"

definition demo_cache :: keycache where
  "demo_cache = empty_cache\<lparr>g_pubkey_cache := replicate (FROST_MAX_SIGNERS + 1) (Some [1])\<rparr>"

definition demo_node :: node where
  "demo_node = node_boot\<lparr>n_my_id := 1, n_n := 2, n_t := 1, n_key_pkg := [7], n_nonces := [3], n_commit := [4], n_tbs := [5],
     n_cache := demo_cache\<rparr>"

definition demo_bundle :: frost_commit_bundle where
  "demo_bundle = \<lparr>cb_entries = [\<lparr>ce_id = 1, ce_commit = [4], ce_commit_sig = replicate 256 0\<rparr>], cb_tbs = [5]\<rparr>"

lemma demo_core_commit:
  "fits a \<Longrightarrow> fits b \<Longrightarrow> fits key \<Longrightarrow> frost_commit (demo_core a b) i key = Some (a, b)"
  by (rule frost_commit_returns [where rest = "[]"]) (simp_all add: demo_core_def)

lemma demo_commit_fst:
  assumes "frost_commit (demo_core a b) i key = Some (x, y)" "fits a" "fits b"
  shows "x = a"
proof -
  have "read_lines [HEX_LINE_MAX, HEX_LINE_MAX] (print_lines [bytes_to_hex a, bytes_to_hex b] @ [])
      = Some [bytes_to_hex a, bytes_to_hex b]"
    using assms(2,3) by (intro read_lines_print) (simp add: plain_hex_line)
  then show ?thesis
    using assms
    by (auto simp: frost_commit_def commit_run_def popen_multi_def demo_core_def two_blobs_hex two_blobs_def [of None]
        simp del: read_lines.simps build_stdin.simps split: option.split_asm)
qed

lemma demo_core_sign:
  "fits a \<Longrightarrow> fits n \<Longrightarrow> fits key \<Longrightarrow> fits spkg \<Longrightarrow> frost_sign (demo_core a b) i spkg n key = Some a"
  by (rule frost_sign_returns [where rest = "print_lines [bytes_to_hex b]"]) (simp_all add: demo_core_def)

lemma demo_core_assemble:
  assumes "fits a" "a \<noteq> []"
  shows "frost_assemble_signing_package (demo_core a b) bu = Some a"
proof -
  have "fgets (FROST_MAX_PAYLOAD * 2 + 4) (bytes_to_hex a @ NL # print_lines [bytes_to_hex b])
      = Some (bytes_to_hex a @ [NL], print_lines [bytes_to_hex b])"
    using assms(1) by (intro fgets_line) (simp_all add: NL_notin_hex NUL_notin_hex)
  then show ?thesis
    using assms by (simp add: frost_assemble_signing_package_def demo_core_def hex_to_bytes_NL)
qed

lemma demo_nenv_signs: "signs_256 (demo_nenv a b)"
  by (simp add: signs_256_def demo_nenv_def frame_sig_size_256)

lemma demo_bundle_ok: "bundle_ok demo_bundle"
  by (simp add: demo_bundle_def bundle_ok_def entry_ok_def FROST_COMMIT_ENTRY_MAX_def frost_consts)

lemma demo_contract: "bundle_contract (demo_nenv a b) (demo_node\<lparr>n_rx := rx\<rparr>) demo_bundle"
  by (simp add: bundle_contract_def owner_signed_def demo_bundle_def demo_node_def demo_nenv_def demo_cache_def
      get_signer_pubkey_def frost_consts)

lemma demo_node_inv: "node_inv demo_node"
  unfolding demo_node_def by (intro node_inv_store node_inv_flags [THEN iffD2] node_boot_inv) (simp_all add: frost_consts)

lemma demo_signs:
  "\<exists>nd'. process_coord_frame (demo_nenv [9] [8]) FROST_MSG_RELAY_COMMIT [] (bundle_wire demo_bundle) (demo_node\<lparr>n_rx := rx\<rparr>) = Cont nd' \<and>
     queues_share demo_node nd' \<and> n_coord_mode nd' = COORD_MODE_DKG \<and> n_nonces nd' = []"
proof -
  let ?env = "demo_nenv [9] [8]" and ?nd = "demo_node\<lparr>n_rx := rx\<rparr>"
  have un: "frost_unpack_commit_bundle (bundle_wire demo_bundle) = Some (demo_bundle, length (bundle_wire demo_bundle))"
    using unpack_bundle_wire [OF demo_bundle_ok, of "[]"] by simp
  have core: "frost_assemble_signing_package (ne_exec ?env) demo_bundle = Some [9]"
    "frost_sign (ne_exec ?env) (n_my_id ?nd) [9] (n_nonces ?nd) (n_key_pkg ?nd) = Some [9]"
    by (simp_all add: demo_nenv_def demo_core_assemble demo_core_sign demo_node_def frost_consts)
  have "n_fault ?nd \<noteq> FAULT_SILENT" "n_key_pkg ?nd \<noteq> []" "n_coord_mode ?nd = COORD_MODE_DKG" "queues_share ?nd = queues_share demo_node"
    by (simp_all add: demo_node_def node_boot_def queues_share_def fun_eq_iff)
  then show ?thesis
    using verified_bundle_signs [OF un demo_contract _ _ demo_nenv_signs core] by simp
qed

section \<open>Properties\<close>

text \<open>C2: The loops that check a commit bundle decide exactly the contract a signer needs before it signs: the threshold
  number of entries, no id twice, every commitment signed by its owner over this very message and commitment, my own
  commitment unaltered among them, and the message the one the signing request announced.\<close>

theorem bundle_check_exact:
  assumes "frost_unpack_commit_bundle payload = Some (b, n)"
  shows "bundle_verified env nd b \<longleftrightarrow>
     length (cb_entries b) = unat (n_t nd) \<and> distinct (map ce_id (cb_entries b)) \<and>
     (\<forall>e \<in> set (cb_entries b). \<exists>pk. get_signer_pubkey (n_cache nd) (ce_id e) = Some pk \<and>
        ne_verify env pk (be16_bytes (of_nat (length (cb_tbs b))) @ cb_tbs b @ ce_commit e)
          (take FROST_FRAME_SIG_SIZE (ce_commit_sig e))) \<and>
     (\<exists>e \<in> set (cb_entries b). ce_id e = n_my_id nd \<and> ce_commit e = n_commit nd) \<and>
     cb_tbs b = n_tbs nd"
  using bundle_verified_contract [OF unpack_bundle_sound(1) [OF assms]]
  unfolding bundle_contract_def owner_signed_def by blast

theorem bundle_check_exact_witness:
  "bundle_verified (demo_nenv [9] [8]) demo_node demo_bundle \<and> \<not> bundle_verified (demo_nenv [9] [8]) (demo_node\<lparr>n_t := 2\<rparr>) demo_bundle"
proof -
  have un: "frost_unpack_commit_bundle (bundle_wire demo_bundle) = Some (demo_bundle, length (bundle_wire demo_bundle))"
    using unpack_bundle_wire [OF demo_bundle_ok, of "[]"] by simp
  have "bundle_contract (demo_nenv [9] [8]) demo_node demo_bundle"
    using demo_contract [of _ _ "n_rx demo_node"] by simp
  then have "bundle_verified (demo_nenv [9] [8]) demo_node demo_bundle"
    using bundle_check_exact [OF un, of "demo_nenv [9] [8]" demo_node]
    unfolding bundle_contract_def owner_signed_def by blast
  moreover have "\<not> bundle_verified (demo_nenv [9] [8]) (demo_node\<lparr>n_t := 2\<rparr>) demo_bundle"
    using bundle_check_exact [OF un, of "demo_nenv [9] [8]" "demo_node\<lparr>n_t := 2\<rparr>"] by (simp add: demo_bundle_def)
  ultimately show ?thesis ..
qed



text \<open>C3: Nonces sign once. After the turn in which a signer queues a share, however the run goes on, the nonces that made that
  share are never the live ones again, provided the core does not hand out the same nonces twice.\<close>

theorem nonces_sign_once:
  assumes "node_iter env ev nd = Cont nd1" "queues_share nd nd1" "node_run later nd1 = Cont nd2" "n_nonces nd \<noteq> []"
    and "\<forall>e \<in> insert env (set (map fst later)). \<forall>i key y. frost_commit (ne_exec e) i key \<noteq> Some (n_nonces nd, y)"
  shows "n_nonces nd2 \<noteq> n_nonces nd"
proof -
  have no: "\<not> draws e (n_nonces nd)" if "e \<in> insert env (set (map fst later))" for e
    using assms(5) that by (auto simp: draws_def)
  have "n_nonces nd1 = [] \<or> draws env (n_nonces nd1)" using node_iter_nonces [OF assms(1)] assms(2) by blast
  then show ?thesis using node_run_nonces [OF assms(3)] assms(4) no by (metis insertCI)
qed

theorem nonces_sign_once_witness:
  "\<exists>fr nd1 nd2. node_iter (demo_nenv [9] [8]) (NRead (NRecv fr)) demo_node = Cont nd1 \<and> queues_share demo_node nd1 \<and>
     node_run [(demo_nenv [9] [8], NSend (Sent 300))] nd1 = Cont nd2 \<and> n_nonces nd2 \<noteq> n_nonces demo_node"
proof -
  let ?env = "demo_nenv [9] [8]" and ?w = "bundle_wire demo_bundle"
  have w: "length ?w = 266"
    by (simp add: bundle_wire_def demo_bundle_def entry_wire_def frame_sig_size_256)
  obtain fr where fr: "frost_encode_frame FROST_MSG_RELAY_COMMIT [] 0 ?w 266 = Some fr" "length fr \<le> FROST_FRAME_MAX"
    using w by (simp add: frost_encode_frame_def frost_consts)
  have rx: "rx_ok (n_rx demo_node)" "rx_off (n_rx demo_node) = 0"
    using node_invD(1) [OF demo_node_inv] by (simp_all add: demo_node_def node_boot_def rx_init_def)
  let ?rx = "(rx_recv (n_rx demo_node) fr)\<lparr>rx_off := 0\<rparr>"
  have nd: "demo_node\<lparr>n_want_write := False, n_rx := x\<rparr> = demo_node\<lparr>n_rx := x\<rparr>" "\<not> wants_write demo_node"
    "n_nonces demo_node = [3]" for x
    by (simp_all add: demo_node_def node_boot_def wants_write_def)
  obtain nd1 where p: "process_coord_frame ?env FROST_MSG_RELAY_COMMIT [] ?w (demo_node\<lparr>n_rx := ?rx\<rparr>) = Cont nd1"
    and q: "queues_share demo_node nd1" "n_coord_mode nd1 = COORD_MODE_DKG"
    using demo_signs by blast
  have "node_read ?env (NRecv fr) demo_node = node_frame ?env FROST_MSG_RELAY_COMMIT [] ?w (demo_node\<lparr>n_rx := ?rx\<rparr>)"
    using node_read_frame [OF _ fr(1) _ _ fr(2) rx] w nd(1) by simp
  then have it: "node_iter ?env (NRead (NRecv fr)) demo_node = Cont nd1"
    using p q(2) nd(2) by (simp add: node_iter_def node_frame_def precompute_def)
  obtain nd2 where run: "node_run [(?env, NSend (Sent 300))] nd1 = Cont nd2"
    by (cases "wants_write nd1"; cases "n_outq nd1") (simp_all add: node_iter_def drain_outq_def)
  have "\<forall>e \<in> insert ?env (set (map fst [(?env, NSend (Sent 300))])). \<forall>i key y. frost_commit (ne_exec e) i key \<noteq> Some (n_nonces demo_node, y)"
  proof -
    have "frost_commit (demo_core [9] [8]) i key \<noteq> Some ([3], y)" for i key y
      using demo_commit_fst [of "[9]" "[8]" i key "[3]" y] by (auto simp: frost_consts)
    then show ?thesis by (simp add: demo_nenv_def nd(3))
  qed
  from nonces_sign_once [OF it q(1) run _ this] it q(1) run nd(3) show ?thesis by auto
qed

text \<open>C15: A commitment is bound to its message. No other signer accepts the signature that came with a commitment in a bundle
  for a different message, nor beside a different commitment, if that signature verifies for no data but what was
  signed. A coordinator cannot move a genuine commitment to another certificate.\<close>

theorem commitment_bound_to_message:
  assumes "signs_256 env" "node_inv nd" "send_commit env nd = Cont nd'"
    and "n_outq nd' = n_outq nd @ [m]" "om_data m = Some fr" "s = take FROST_FRAME_SIG_SIZE (drop FROST_FRAME_HDR fr)"
    and "\<forall>pk d d'. ne_sign env d = Some s \<and> ne_verify env' pk d' s \<longrightarrow> d' = d"
    and "bundle_ok b" "bundle_verified env' peer b" "e \<in> set (cb_entries b)" "ce_commit_sig e = s"
  shows "cb_tbs b = n_tbs nd \<and> ce_commit e = n_commit nd"
proof -
  let ?buf = "\<lambda>tbs c. be16_bytes (of_nat (length tbs)) @ tbs @ c"
  have buf: "build_commit_sign_buf SIGN_BUF_MAX (n_tbs nd) (n_commit nd) = Some (?buf (n_tbs nd) (n_commit nd))"
    using build_commit_sign_buf_fits node_invD(7,8) [OF assms(2)] by blast
  obtain s0 fr0 where s0: "ne_sign env (?buf (n_tbs nd) (n_commit nd)) = Some s0" "length s0 = FROST_FRAME_SIG_SIZE"
    and enc: "frost_encode_frame FROST_MSG_COMMIT s0 (of_nat FROST_FRAME_SIG_SIZE) (n_commit nd) (of_nat (length (n_commit nd))) = Some fr0"
    and q: "queue_to_coord_signed env FROST_MSG_COMMIT (?buf (n_tbs nd) (n_commit nd)) (n_commit nd) nd =
       Cont (nd\<lparr>n_outq := n_outq nd @ [\<lparr>om_len = FROST_FRAME_HDR + FROST_FRAME_SIG_SIZE + length (n_commit nd), om_sent = 0,
         om_data = Some fr0\<rparr>]\<rparr>)"
    using queue_signed_256 [OF assms(1) node_invD(7) [OF assms(2)]] by blast
  have "fr = fr0" using assms(3-5) buf q by (auto simp: send_commit_def)
  then have "s = s0"
    using enc s0(2) assms(6) by (auto simp: frost_encode_frame_def frame_hdr_5 frame_sig_size_256 split: if_split_asm)
  moreover have "owner_signed env' peer (cb_tbs b) e"
    using bundle_verified_contract [OF assms(8)] assms(9,10) unfolding bundle_contract_def by blast
  moreover have "take FROST_FRAME_SIG_SIZE s0 = s0" using s0(2) by simp
  ultimately have "?buf (cb_tbs b) (ce_commit e) = ?buf (n_tbs nd) (n_commit nd)"
    using assms(7,11) s0(1) by (metis owner_signed_def)
  then show ?thesis
    using signbuf.enc_inject [of "(cb_tbs b, ce_commit e)" "(n_tbs nd, n_commit nd)"] assms(8) node_invD(8) [OF assms(2)]
    by (simp add: bundle_ok_def)
qed

theorem commitment_bound_to_message_witness:
  "\<exists>env env' nd' m fr b e. send_commit env demo_node = Cont nd' \<and> om_data m = Some fr \<and> n_outq nd' = n_outq demo_node @ [m] \<and>
     bundle_verified env' demo_node b \<and> e \<in> set (cb_entries b) \<and>
     ce_commit_sig e = take FROST_FRAME_SIG_SIZE (drop FROST_FRAME_HDR fr) \<and>
     cb_tbs b = n_tbs demo_node \<and> ce_commit e = n_commit demo_node"
proof -
  let ?d = "[hi8 1, lo8 1, 5, 4] :: bytes"
  define env where "env = (demo_nenv [9] [8])\<lparr>ne_sign := \<lambda>d. Some (replicate 256 (if d = ?d then 1 else 0)),
    ne_verify := \<lambda>_ d s. d = ?d \<and> s = replicate 256 1\<rparr>"
  let ?b = "demo_bundle\<lparr>cb_entries := [\<lparr>ce_id = 1, ce_commit = [4], ce_commit_sig = replicate 256 1\<rparr>]\<rparr>"
  have s: "signs_256 env" by (simp add: env_def signs_256_def frame_sig_size_256)
  have nd: "n_tbs demo_node = [5]" "n_commit demo_node = [4]" "n_t demo_node = 1" "n_my_id demo_node = 1"
    "n_outq demo_node = []" "get_signer_pubkey (n_cache demo_node) 1 = Some [1]"
    by (simp_all add: demo_node_def demo_cache_def node_boot_def get_signer_pubkey_def frost_consts)
  have ok: "bundle_ok ?b" by (simp add: demo_bundle_def bundle_ok_def entry_ok_def FROST_COMMIT_ENTRY_MAX_def frost_consts)
  then have ver: "bundle_verified env demo_node ?b"
    by (simp add: bundle_verified_contract bundle_contract_def owner_signed_def nd demo_bundle_def)
       (simp add: env_def demo_nenv_def frame_sig_size_256)
  have f4: "fits [4]" "fits [5]" by (simp_all add: frost_consts)
  obtain s0 fr where s0: "ne_sign env ?d = Some s0" "length s0 = FROST_FRAME_SIG_SIZE"
    and enc: "frost_encode_frame FROST_MSG_COMMIT s0 (of_nat FROST_FRAME_SIG_SIZE) [4] (of_nat (length ([4] :: bytes))) = Some fr"
    and q: "queue_to_coord_signed env FROST_MSG_COMMIT ?d [4] demo_node =
       Cont (demo_node\<lparr>n_outq := n_outq demo_node @ [\<lparr>om_len = FROST_FRAME_HDR + FROST_FRAME_SIG_SIZE + length ([4] :: bytes), om_sent = 0,
         om_data = Some fr\<rparr>]\<rparr>)"
    using queue_signed_256 [OF s f4(1)] by blast
  then obtain nd' m where c: "send_commit env demo_node = Cont nd'" "n_outq nd' = n_outq demo_node @ [m]" "om_data m = Some fr"
    using build_commit_sign_buf_fits [OF f4(2,1)] by (simp add: send_commit_def nd)
  have sig: "take FROST_FRAME_SIG_SIZE (drop FROST_FRAME_HDR fr) = replicate 256 1"
    using enc s0 by (auto simp: frost_encode_frame_def frame_hdr_5 frame_sig_size_256 env_def split: if_split_asm)
  have bind: "\<forall>pk d d'. ne_sign env d = Some (replicate 256 1) \<and> ne_verify env pk d' (replicate 256 1) \<longrightarrow> d' = d"
    by (auto simp: env_def dest: arg_cong [of _ _ hd] split: if_split_asm)
  have "cb_tbs ?b = n_tbs demo_node \<and> ce_commit (cb_entries ?b ! 0) = n_commit demo_node"
    by (rule commitment_bound_to_message [OF s demo_node_inv c sig [symmetric] bind ok ver]) simp_all
  with c ver sig show ?thesis
    by (intro exI [of _ env] exI [of _ nd'] exI [of _ m] exI [of _ fr] exI [of _ ?b] exI [of _ "cb_entries ?b ! 0"]) simp
qed

section \<open>A signer that starts\<close>

lemma init_cache_demo:
  assumes "cache_ok c" "list_all (\<lambda>i. unat i \<le> FROST_MAX_SIGNERS) ids"
  shows "\<exists>c'. init_cache_loop demo_x509 ids c = (c', True) \<and> cache_ok c' \<and>
    (\<forall>i. unat i \<le> FROST_MAX_SIGNERS \<longrightarrow>
       get_signer_pubkey c' i = (if i \<in> set ids then Some (str_bytes (cert_path i)) else get_signer_pubkey c i) \<and>
       get_signer_pubkey_oaep c' i = (if i \<in> set ids then Some (str_bytes (cert_path_oaep i)) else get_signer_pubkey_oaep c i))"
  using assms
proof (induction ids arbitrary: c)
  case (Cons j ids)
  let ?c = "\<lparr>g_pubkey_cache = (g_pubkey_cache c)[unat j := Some (str_bytes (cert_path j))],
    g_pubkey_cache_oaep = (g_pubkey_cache_oaep c)[unat j := Some (str_bytes (cert_path_oaep j))]\<rparr>"
  have l: "load_signer_pubkey demo_x509 j c = Some ?c"
    by (simp add: load_signer_pubkey_def load_cert_def demo_x509_def)
  have g: "get_signer_pubkey ?c i = (if i = j then Some (str_bytes (cert_path j)) else get_signer_pubkey c i)"
    "get_signer_pubkey_oaep ?c i = (if i = j then Some (str_bytes (cert_path_oaep j)) else get_signer_pubkey_oaep c i)"
    if "unat i \<le> FROST_MAX_SIGNERS" for i
    using that Cons.prems by (auto simp: get_signer_pubkey_def get_signer_pubkey_oaep_def cache_ok_def nth_list_update
        dest: unsigned_word_eqI)
  have "cache_ok ?c" using Cons.prems by (simp add: cache_ok_def)
  from Cons.IH [OF this] Cons.prems(2) show ?case
    by (auto simp: l g)
qed simp

definition demo_start :: start_env where
  "demo_start = \<lparr>se_exists = (\<lambda>_. True), se_x509 = demo_x509, se_cred_ok = True, se_oaep_priv_rc = 0,
     se_oaep_pub_rc = (\<lambda>_. 0), se_connected = True\<rparr>"

lemma config_oaep_demo: "fst (config_oaep_loop (\<lambda>_. 0) c ids) = 0"
  by (induction ids) (simp_all add: split_def)

lemma demo_identity: "\<exists>kc. check_identity demo_start 1 = Some kc"
proof -
  have ids: "list_all (\<lambda>i. unat i \<le> FROST_MAX_SIGNERS) signer_ids" "1 \<in> set signer_ids"
    by (auto simp: signer_ids_def list_all_iff frost_consts intro!: image_eqI [of _ _ 1])
  have ok: "cache_ok empty_cache" by (simp add: cache_ok_def empty_cache_def)
  have one: "unat (1 :: u16) \<le> FROST_MAX_SIGNERS" by (simp add: frost_consts)
  from init_cache_demo [OF ok ids(1)] ids(2) one obtain kc where
    kc: "init_signer_pubkey_cache demo_x509 empty_cache = (kc, True)"
      "get_signer_pubkey kc 1 = Some (str_bytes (cert_path 1))" "get_signer_pubkey_oaep kc 1 = Some (str_bytes (cert_path_oaep 1))"
    unfolding init_signer_pubkey_cache_def by (metis (full_types))
  have "verify_own_identity demo_x509 p (Some (str_bytes p))" for p
    by (simp add: verify_own_identity_def load_cert_def demo_x509_def same_der_def)
  then show ?thesis
    by (simp add: check_identity_def demo_start_def kc config_gnutls_keys_for_RSA_OAEP_def config_oaep_demo)
qed

lemma demo_starts: "\<exists>nd. node_init nd \<and> n_my_id nd = 1 \<and> length (n_outq nd) = 1"
proof -
  let ?env = "demo_nenv [9] [8]"
  have ids: "parse_ids ''1'' ''2'' ''1'' = Some (1, 2, 1)"
    by (simp add: parse_ids_def scan_id_def scan_hu_def scan_int_def isspace_def starts_digit_def digit_val_def frost_consts)
  obtain kc where kc: "check_identity demo_start 1 = Some kc" using demo_identity by blast
  let ?nd = "node_boot\<lparr>n_my_id := 1, n_n := 2, n_t := 1, n_fault := FAULT_NONE, n_cache := kc\<rparr>"
  have "length (hello_payload ?nd) \<le> 31" by (simp add: hello_payload_def snprintf_def)
  then have f: "fits (hello_payload ?nd)" by (simp add: frost_consts)
  obtain s fr where q: "queue_to_coord ?env FROST_MSG_HELLO (hello_payload ?nd) ?nd = Cont (?nd\<lparr>n_outq := n_outq ?nd @
      [\<lparr>om_len = FROST_FRAME_HDR + FROST_FRAME_SIG_SIZE + length (hello_payload ?nd), om_sent = 0, om_data = Some fr\<rparr>]\<rparr>)"
    using queue_signed_256 [OF demo_nenv_signs f] unfolding queue_to_coord_def by blast
  have "node_start ?env demo_start [''1'', ''2'', ''1''] = queue_to_coord ?env FROST_MSG_HELLO (hello_payload ?nd) ?nd"
    by (simp add: node_start_def ids kc Let_def) (simp add: demo_start_def list_all_iff)
  then show ?thesis
    using q demo_nenv_signs unfolding node_init_def by (intro exI conjI) (auto simp: node_boot_def)
qed

section \<open>Properties of runs and of the key file\<close>

text \<open>C9: In every state a signer reaches, whatever the coordinator sends, all it holds fits the array it is kept in: secrets,
  packages, nonces, commitment and message, the tables of peer packages with at most \<open>FROST_MAX_SIGNERS\<close> entries, the
  receive buffer; and every frame still to be sent has been written to its last byte.\<close>

theorem signer_state_sound:
  assumes "reach node_init node_step nd"
  shows "rx_off (n_rx nd) \<le> FROST_FRAME_MAX
    \<and> (\<forall>bs \<in> {n_r1_secret nd, n_r2_secret nd, n_key_pkg nd, n_pub_key_pkg nd, n_nonces nd, n_commit nd, n_tbs nd,
         n_ref_r1_secret nd, n_ref_r2_secret nd, n_ref_r1_pkg nd}. length bs \<le> FROST_MAX_PAYLOAD)
    \<and> (\<forall>ps \<in> {n_peer_r1 nd, n_peer_r2 nd, n_ref_peer_r1 nd, n_ref_peer_r2 nd}.
         length ps \<le> FROST_MAX_SIGNERS \<and> (\<forall>p \<in> set ps. length (snd p) \<le> FROST_MAX_PAYLOAD))
    \<and> (\<forall>m \<in> set (n_outq nd). \<exists>d. om_data m = Some d \<and> length d = om_len m \<and> om_sent m < om_len m)"
  using nodesys.reach_inv [OF assms]
  by (auto simp: node_inv_def rx_ok_def peers_ok_def msg_live_def node_ok_def list_all_iff)

theorem signer_state_sound_witness:
  "\<exists>nd. reach node_init node_step nd \<and> length (n_outq nd) = 1 \<and>
     (\<forall>m \<in> set (n_outq nd). \<exists>d. om_data m = Some d \<and> length d = om_len m)"
proof -
  obtain nd where nd: "node_init nd" "length (n_outq nd) = 1" using demo_starts by blast
  then have r: "reach node_init node_step nd" by (blast intro: reach_init)
  from signer_state_sound [OF r] nd(2) r show ?thesis by blast
qed



text \<open>C31: A key share survives a restart: what key generation or a refresh saved, a signer with the same id loads again, share and
  group key alike, when it finds the files as they were last written.\<close>

theorem key_share_roundtrip:
  assumes "save_key_material env nd = (True, nd1)" "ne_can_write env FROST_PUB_PKG_HEX"
    and "\<forall>p. ne_read env' p = map_of (rev (n_files nd1)) p" "n_my_id new = n_my_id nd"
    and "n_key_pkg nd \<noteq> []" "n_pub_key_pkg nd \<noteq> []"
    and "length (n_key_pkg nd) \<le> FROST_MAX_PAYLOAD" "length (n_pub_key_pkg nd) \<le> FROST_MAX_PAYLOAD"
  shows "load_key_material env' new = (True, new\<lparr>n_key_pkg := n_key_pkg nd, n_pub_key_pkg := n_pub_key_pkg nd\<rparr>)"
proof -
  let ?kp = "keypkg_path (n_my_id nd)"
  have "hd ?kp = CHR ''s''" by (simp add: keypkg_path_def snprintf_def)
  then have ne: "?kp \<noteq> FROST_PUB_PKG_HEX" by auto
  have f: "n_files nd1 = n_files nd @ [(?kp, bytes_to_hex (n_key_pkg nd) @ [NL]), (FROST_PUB_PKG_HEX, bytes_to_hex (n_pub_key_pkg nd) @ [NL])]"
    using assms(1,2) by (auto simp: save_key_material_def Let_def split: if_split_asm)
  have line: "first_line (Some (bytes_to_hex bs @ [NL])) = Some (bytes_to_hex bs @ [NL])" if "fits bs" for bs
    using that fgets_line [of "bytes_to_hex bs" "FROST_MAX_PAYLOAD * 2 + 4" "[]"]
    by (simp add: first_line_def NL_notin_hex NUL_notin_hex)
  show ?thesis
    using assms(3-) ne
    by (simp add: load_key_material_def load_pub_pkg_def f line hex_to_bytes_NL)
qed

theorem key_share_roundtrip_witness:
  "\<exists>nd1. save_key_material (demo_nenv [9] [8]) (demo_node\<lparr>n_pub_key_pkg := [6]\<rparr>) = (True, nd1) \<and>
     load_key_material ((demo_nenv [9] [8])\<lparr>ne_read := map_of (rev (n_files nd1))\<rparr>) (node_boot\<lparr>n_my_id := 1\<rparr>)
       = (True, node_boot\<lparr>n_my_id := 1, n_key_pkg := [7], n_pub_key_pkg := [6]\<rparr>)"
proof -
  let ?env = "demo_nenv [9] [8]" and ?nd = "demo_node\<lparr>n_pub_key_pkg := [6]\<rparr>"
  obtain nd1 where s: "save_key_material ?env ?nd = (True, nd1)"
    by (simp add: save_key_material_def demo_nenv_def Let_def)
  have "load_key_material (?env\<lparr>ne_read := map_of (rev (n_files nd1))\<rparr>) (node_boot\<lparr>n_my_id := 1\<rparr>)
      = (True, (node_boot\<lparr>n_my_id := 1\<rparr>)\<lparr>n_key_pkg := n_key_pkg ?nd, n_pub_key_pkg := n_pub_key_pkg ?nd\<rparr>)"
    by (rule key_share_roundtrip [OF s]) (simp_all add: demo_nenv_def demo_node_def frost_consts)
  with s show ?thesis by (simp add: demo_node_def)
qed

end
