(* ===== verification/Spec2Isabelle.thy ===== *)
theory Spec2Isabelle
  imports Base64 Checkpoint Coord_Safety Signer_Props
begin

text \<open>
  A threshold SSH certificate authority: a coordinator and up to 64 signers run FROST key
  generation, share refresh and ROAST-style threshold signing over TLS, and the coordinator
  mints the certificates. The development models the C programs under \<^verbatim>\<open>src/\<close> and proves what
  makes them correct, and where they are not.

  \<^bold>\<open>The parts and how they meet.\<close> \<^verbatim>\<open>frost_coordinator.c\<close> is one event loop: it accepts connections,
  admits a signer when its HELLO matches its TLS certificate, relays the packages of key generation
  and refresh, and in sign mode forms sessions of \<open>t\<close> signers, collects their shares, has them
  aggregated and mints. \<^verbatim>\<open>frost_signer.c\<close> answers the coordinator's frames and guards the key
  share. \<^verbatim>\<open>frost_common.h\<close> holds the frame format, the commit bundle and the session structures
  both use, \<^verbatim>\<open>frost_stubs.c\<close> runs the Rust core as a child process and caches the signers'
  public keys, \<^verbatim>\<open>checkpoint.c\<close> times phases.

  \<^bold>\<open>Theories, bottom up.\<close>
  \<^item> \<^verbatim>\<open>Prelude\<close>: words and byte order, list lemmas, outcomes (\<open>Cont\<close>, \<open>Exit\<close> with the process's code,
    \<open>Undef\<close> for an access outside an object), and the shared interfaces as locales: \<open>codec\<close>
    (an encoder and its decoder), \<open>invariant_system\<close> (a property of every reachable state),
    \<open>refinement\<close> (a simulation that keeps an invariant).
  \<^item> \<^verbatim>\<open>Libc\<close>: what the programs use of the C library: \<^verbatim>\<open>snprintf\<close>, \<^verbatim>\<open>sscanf\<close>,
    \<^verbatim>\<open>fgets\<close>, \<^verbatim>\<open>atol\<close>, strings in fixed arrays.
  \<^item> \<^verbatim>\<open>Wire\<close>: message tags, frames, outbound queues, receive buffers (\<^verbatim>\<open>frost_common.h\<close>, the receive
    loops of both \<^verbatim>\<open>main\<close> functions). Frames are reassembled from any cut of the stream and
    dispatched within their arrays; queues send their bytes in order and run empty.
  \<^item> \<^verbatim>\<open>Bundle\<close>: \<^verbatim>\<open>frost_pack_commit_bundle\<close> and \<^verbatim>\<open>frost_unpack_commit_bundle\<close>, inverse to each
    other in both directions.
  \<^item> \<^verbatim>\<open>Hex\<close>, \<^verbatim>\<open>Base64\<close>: the text codings, with the overflow of the debug printer.
  \<^item> \<^verbatim>\<open>Subprocess\<close>: \<^verbatim>\<open>popen_multi\<close>, \<^verbatim>\<open>popen_roundtrip\<close> and one wrapper per subcommand of the
    core (\<^verbatim>\<open>frost_stubs.c\<close>). The core is the parameter \<open>exec\<close>.
  \<^item> \<^verbatim>\<open>Keys\<close>: the public key caches and the identity checks; GnuTLS's certificate
    functions are the record \<open>x509_lib\<close>. An id is bound to one certificate and never rebound.
  \<^item> \<^verbatim>\<open>Checkpoint\<close>: \<^verbatim>\<open>checkpoint.c\<close> and \<^verbatim>\<open>checkpoint.h\<close>.
  \<^item> \<^verbatim>\<open>Coord_State\<close>: the coordinator's globals as the record \<open>coord\<close>, its connections as
    \<open>csigner\<close> and \<open>staged_conn\<close>, the session table, strikes and blacklist with their contracts.
  \<^item> \<^verbatim>\<open>Coord_Cert\<close> (\<^verbatim>\<open>call_tbs\<close>, \<^verbatim>\<open>prepare_tbs\<close>, \<^verbatim>\<open>call_mint\<close>), \<^verbatim>\<open>Coord_DKG\<close> (the relays
    of key generation and refresh), \<^verbatim>\<open>Coord_Roast\<close> (selection, \<^verbatim>\<open>roast_try_form_session\<close>,
    \<^verbatim>\<open>roast_try_aggregate\<close>, the identifiable abort, expiry), \<^verbatim>\<open>Coord_Dispatch\<close> (every case of
    \<^verbatim>\<open>process_signer_frame\<close>), \<^verbatim>\<open>Coord_Main\<close> (arguments, start of the modes, HELLO, the event
    loop, and the step relation \<open>coord_step\<close>).
  \<^item> \<^verbatim>\<open>Coord_Inv\<close>: the data invariant \<open>coord_inv\<close> and that every operation keeps it.
    \<^verbatim>\<open>Coord_Props\<close>, \<^verbatim>\<open>Coord_Runs\<close>, \<^verbatim>\<open>Coord_Loop\<close>, \<^verbatim>\<open>Coord_Safety\<close>: properties of single
    operations, of runs, the event loop as a refinement of \<open>coord_step\<close>, and memory safety, admission
    and faults of frame handling.
  \<^item> \<^verbatim>\<open>Signer_State\<close>, \<^verbatim>\<open>Signer_Node\<close>, \<^verbatim>\<open>Signer_Main\<close>: the signer's globals as the record
    \<open>node\<close>, every case of \<^verbatim>\<open>process_coord_frame\<close>, start-up and the loop of \<^verbatim>\<open>main\<close>.
    \<^verbatim>\<open>Signer_Inv\<close>: its invariant \<open>node_inv\<close>, and which frames leave nonces and shares alone.
    \<^verbatim>\<open>Signer_Props\<close>: what it signs, with which nonces, for which message, and memory safety.
  \<^item> This theory: properties of both programs together. The texts they exchange are understood, a
    session the coordinator forms is answered by a member that is in step, a substituted message
    is refused, a secret share travels from signer to signer.

  \<^bold>\<open>How code becomes definitions.\<close> A handler is a function from the state to an outcome of the
  state; its guards are the code's conditions and early returns in their order. What comes from outside
  (the core's answers, RSA and certificate functions, the clock, files, the contents of fresh heap
  memory, what \<^verbatim>\<open>select\<close>, \<^verbatim>\<open>recv\<close> and \<^verbatim>\<open>send\<close> return) is an argument: the records \<open>cenv\<close>,
  \<open>nenv\<close>, \<open>loop_io\<close> and the function \<open>exec\<close>. Theorems state what they need of it as hypotheses, for
  instance \<open>signs_256\<close> (a 2048-bit RSA key makes 256-byte signatures). Integers keep
  their width; \<open>FROST_MAX_PAYLOAD\<close> and the other limits are those of \<^verbatim>\<open>frost_common.h\<close>.
  All loops are over lists or bounded tables, so every definition is total and no fuel is used; the
  unbounded event loops appear as relations, one iteration being a function.

  \<^bold>\<open>Not modelled.\<close> Socket and TLS set-up (\<^verbatim>\<open>connect_to_coordinator\<close>, the listening socket, the
  handshake): calls into the system and GnuTLS, whose results are parameters. The cryptography of the Rust
  core, which lives in third-party crates: the C programs only see a process that reads and
  prints lines (the two formats the C code parses are modelled from it). What is printed to the
  terminal, except where printing itself leaves an array. The certificate script and the log
  analyser, which are not part of the programs.
\<close>

section \<open>The texts the two programs exchange\<close>

lemma c_text: "NUL \<notin> set s \<Longrightarrow> length s \<le> k \<Longrightarrow> c_string (bytes_str (take k (str_bytes s))) = s"
  by (simp add: c_string_id)

lemma not_digit [simp]: "\<not> starts_digit (CHR '' '' # s)" "\<not> starts_digit (NL # s)"
  by (simp_all add: starts_digit_def digit_val_def)

lemma hello_text_payload:
  "hello_text (hello_payload nd) = ''SIGNER '' @ fmt_u (unat (n_my_id nd)) @ '' '' @ fmt_u (unat (n_n nd)) @ '' ''
     @ fmt_u (unat (n_t nd)) @ [NL]"
proof -
  let ?s = "''SIGNER '' @ fmt_u (unat (n_my_id nd)) @ '' '' @ fmt_u (unat (n_n nd)) @ '' '' @ fmt_u (unat (n_t nd)) @ [NL]"
  have len: "length ?s \<le> 25"
    using length_u16_digits [of "n_my_id nd"] length_u16_digits [of "n_n nd"] length_u16_digits [of "n_t nd"] by simp
  then have "hello_payload nd = str_bytes ?s" by (simp add: hello_payload_def snprintf_def)
  moreover have "NUL \<notin> set ?s" by (simp add: NUL_notin_fmt_u)
  ultimately show ?thesis using c_text [of ?s 63] len by (simp add: hello_text_def)
qed

lemma skip_spaces [simp]:
  "isspace CHR '' ''" "isspace NL" "dropWhile isspace (fmt_u n @ s) = fmt_u n @ s"
proof -
  show "isspace CHR '' ''" "isspace NL" by (simp_all add: isspace_def)
  obtain d cs where "fmt_u n = dec_digits ! d # cs" "d < 10" using fmt_u_Cons by blast
  then show "dropWhile isspace (fmt_u n @ s) = fmt_u n @ s" using digit_not_special [of d] by simp
qed

lemma letters_not_space [simp]: "\<not> isspace CHR ''S''" "\<not> isspace CHR ''A''" "\<not> isspace CHR ''D''" "\<not> isspace CHR ''R''"
  by (simp_all add: isspace_def)

lemma scan_word:
  "\<not> list_ex isspace w \<Longrightarrow> scan_lit (w @ '' '') (w @ CHR '' '' # s) = Some (dropWhile isspace s)"
  by (induction w) auto

lemma parse_hello_payload: "parse_hello (hello_text (hello_payload nd)) = Some (n_my_id nd, n_n nd, n_t nd)"
proof -
  have "scan_lit ''SIGNER '' (''SIGNER '' @ s) = Some (dropWhile isspace s)" for s
    using scan_word [of "''SIGNER''" s] by (simp add: isspace_def)
  then show ?thesis
    unfolding hello_text_payload parse_hello_def by simp
qed

lemma parse_ack_text: "parse_ack (text31 (ack_text sid c)) = Some (sid, mode_char (g_mode c))"
proof -
  let ?s = "''ACK '' @ fmt_u (unat sid) @ '' '' @ [mode_char (g_mode c)] @ [NL]"
  have "length ?s \<le> 31" using length_u16_digits [of sid] by simp
  moreover have "NUL \<notin> set ?s" by (cases "g_mode c") (simp_all add: NUL_notin_fmt_u mode_char_def)
  ultimately have t: "text31 (ack_text sid c) = ?s" using c_text [of ?s 31] by (simp add: text31_def ack_text_def)
  have l: "scan_lit ''ACK '' (''ACK '' @ s) = Some (dropWhile isspace s)" for s
    using scan_word [of "''ACK''" s] by (simp add: isspace_def)
  have "\<not> isspace (mode_char m)" for m by (cases m) (simp_all add: mode_char_def)
  then show ?thesis unfolding t parse_ack_def using l by simp
qed

lemma parse_start_text:
  assumes "cmd \<in> {''START_DKG'', ''START_REFRESH''}"
  shows "parse_start cmd (text31 (start_text cmd c)) = Some (g_n c, g_t c)"
proof -
  let ?s = "cmd @ '' '' @ fmt_u (unat (g_n c)) @ '' '' @ fmt_u (unat (g_t c)) @ [NL]"
  have "length ?s \<le> 31" using assms length_u16_digits [of "g_n c"] length_u16_digits [of "g_t c"] by auto
  moreover have "NUL \<notin> set ?s" using assms by (auto simp: NUL_notin_fmt_u)
  ultimately have t: "text31 (start_text cmd c) = ?s" using c_text [of ?s 31] by (simp add: text31_def start_text_def)
  have "\<not> list_ex isspace cmd" using assms by (auto simp: isspace_def)
  then show ?thesis unfolding t parse_start_def using scan_word [of cmd] by simp
qed


section \<open>A session, from the coordinator to the signers\<close>

text \<open>A signer and the coordinator are at the same point: the commitment, message and threshold agree.\<close>

definition in_step :: "node \<Rightarrow> csigner \<Rightarrow> coord \<Rightarrow> bool" where
  "in_step nd s c \<longleftrightarrow> n_my_id nd = sg_id s \<and> n_commit nd = sg_commit s \<and> n_tbs nd = g_tbs c \<and> n_t nd = g_t c"

text \<open>The commitments the coordinator holds are signed, over the message, by keys the signer has.\<close>

definition commitments_signed :: "nenv \<Rightarrow> node \<Rightarrow> coord \<Rightarrow> bool" where
  "commitments_signed env nd c \<longleftrightarrow>
     (\<forall>s \<in> set (signers c). sg_commit s \<noteq> [] \<longrightarrow>
        owner_signed env nd (g_tbs c) \<lparr>ce_id = sg_id s, ce_commit = sg_commit s, ce_commit_sig = sg_commit_sig s\<rparr>)"

text \<open>The signer holds a key share and does not play silent, its RSA key makes frame-sized signatures, and the core answers.\<close>

definition can_sign :: "nenv \<Rightarrow> node \<Rightarrow> bool" where
  "can_sign env nd \<longleftrightarrow> n_fault nd \<noteq> FAULT_SILENT \<and> n_key_pkg nd \<noteq> [] \<and> signs_256 env \<and>
     (\<forall>b. \<exists>spkg share. frost_assemble_signing_package (ne_exec env) b = Some spkg \<and>
        frost_sign (ne_exec env) (n_my_id nd) spkg (n_nonces nd) (n_key_pkg nd) = Some share)"

lemma relayed_bundle:
  assumes "coord_inv c" "roast_try_form_session env c = (True, c')"
    and "s \<in> set (signers c)" "s' \<in> set (signers c')" "sg_id s' = sg_id s" "sg_msgq s' \<noteq> sg_msgq s"
  obtains chosen slot b spkg where "formed env c c' chosen slot b spkg (bundle_wire b)" "sg_id s \<in> set chosen"
    "sg_msgq s' = sg_msgq s @ [mk_outmsg FROST_MSG_RELAY_COMMIT [] 0 (bundle_wire b) (of_nat (length (bundle_wire b)))]"
    "frost_unpack_commit_bundle (bundle_wire b) = Some (b, length (bundle_wire b))"
proof -
  obtain chosen slot b spkg wire where f: "formed env c c' chosen slot b spkg wire"
    using roast_try_form_session_cases [OF assms(2)] by blast
  note ff = formed_facts [OF assms(1) f]
  have ok: "signers_ok (signers c)" using assms(1) by (rule coord_invD)
  have "c' = start_session env slot chosen spkg wire c" using f by (simp add: formed_def)
  then obtain r where r: "r \<in> set (signers c)" "s' = (if sg_id r \<in> set chosen then join_session (g_next_session_id c) wire r else r)"
    using assms(4) start_session_signers [OF ok ff(1)] by auto
  then have "r = s"
    using assms(3,5) ok keeps_signerD(1) [OF keeps_signer_ops(5)] unfolding signers_ok_def distinct_map
    by (metis inj_onD)
  then show thesis
    using that [of chosen slot b spkg] f ff(5,6) r assms(6) unpack_bundle_wire [OF ff(5), of "[]"]
    by (simp add: join_session_def send_plain_def signer_send_def split: if_split_asm)
qed

lemma formed_contract:
  assumes "coord_inv c" "formed env c c' chosen slot b spkg wire" "\<not> g_fault c"
    and "s \<in> set (signers c)" "sg_id s \<in> set chosen" "in_step nd s c" "commitments_signed nenv nd c"
  shows "bundle_contract nenv nd b"
proof -
  note ff = formed_facts [OF assms(1,2)]
  have inj: "inj_on sg_id (set (signers c))"
    using coord_invD(1) [OF assms(1)] by (simp add: signers_ok_def distinct_map)
  have tbs: "cb_tbs b = g_tbs c" using ff(8) assms(3) by (simp add: bundle_tbs_def Let_def)
  have entry: "\<exists>r \<in> set (signers c). e = \<lparr>ce_id = sg_id r, ce_commit = sg_commit r, ce_commit_sig = sg_commit_sig r\<rparr> \<and> sg_commit r \<noteq> []"
    if e: "e \<in> set (cb_entries b)" for e
  proof -
    obtain r where r: "r \<in> set (signers c)" "e = \<lparr>ce_id = sg_id r, ce_commit = sg_commit r, ce_commit_sig = sg_commit_sig r\<rparr>"
      using ff(11) e by (metis (full_types) frost_commit_entry.surjective old.unit.exhaust)
    have "sg_id r \<in> set chosen" using e r(2) ff(7) by force
    then have "sg_commit r \<noteq> []"
      using ff(4) r(1) inj by (auto simp: reliable_def suspect_def dest: inj_onD)
    with r show ?thesis by blast
  qed
  have "length (cb_entries b) = unat (n_t nd)" "distinct (map ce_id (cb_entries b))" "cb_tbs b = n_tbs nd"
    using ff(1,2) tbs assms(6) length_map [of ce_id "cb_entries b"] by (simp_all add: in_step_def ff(7))
  moreover have "\<forall>e \<in> set (cb_entries b). owner_signed nenv nd (cb_tbs b) e"
    using entry assms(7) tbs unfolding commitments_signed_def by metis
  moreover have "\<exists>e \<in> set (cb_entries b). ce_id e = n_my_id nd \<and> ce_commit e = n_commit nd"
  proof -
    obtain e where e: "e \<in> set (cb_entries b)" "ce_id e = sg_id s" using assms(5) ff(7) by force
    then obtain r where "r \<in> set (signers c)" "ce_commit e = sg_commit r" "sg_id r = sg_id s" using entry [OF e(1)] by auto
    then have "ce_commit e = sg_commit s" using inj_onD [OF inj] assms(4) by metis
    with e assms(6) show ?thesis by (auto simp: in_step_def)
  qed
  ultimately show ?thesis by (simp add: bundle_contract_def)
qed

section \<open>A small deployment, both sides\<close>

lemma member_relayed:
  assumes "coord_inv c" "roast_try_form_session env c = (True, c')" "s \<in> set (signers c)"
    and "sg_id s \<in> set (take (unat (g_t c)) (map sg_id (filter (reliable c) (signers c) @ filter (suspect c) (signers c))))"
  shows "\<exists>s' \<in> set (signers c'). sg_id s' = sg_id s \<and> sg_msgq s' \<noteq> sg_msgq s"
proof -
  obtain chosen slot b spkg wire where f: "formed env c c' chosen slot b spkg wire"
    using roast_try_form_session_cases [OF assms(2)] by blast
  note ff = formed_facts [OF assms(1) f]
  have "c' = start_session env slot chosen spkg wire c" using f by (simp add: formed_def)
  then have "join_session (g_next_session_id c) wire s \<in> set (signers c')"
    using start_session_signers [OF coord_invD(1) [OF assms(1)] ff(1)] assms(3,4) ff(3) by force
  then show ?thesis by (rule bexI [rotated]) (simp add: join_session_def send_plain_def signer_send_def)
qed

definition demo_member :: node where
  "demo_member = demo_node\<lparr>n_n := 3, n_t := 2, n_commit := [7], n_tbs := [1, 2, 3]\<rparr>"

definition demo_pair :: "bool \<Rightarrow> coord" where
  "demo_pair flt = demo_coord\<lparr>g_fault := flt\<rparr>"

lemma demo_pair_inv: "coord_inv (demo_pair flt)"
  using demo_inv by (simp add: demo_pair_def coord_inv_def buffers_ok_def)

lemma demo_pair_chosen:
  "filter (reliable (demo_pair flt)) (signers (demo_pair flt)) = [demo_signer 3 SPHASE_COMMITTED [9], demo_signer 1 SPHASE_COMMITTED [7]]"
  "filter (suspect (demo_pair flt)) (signers (demo_pair flt)) = []"
  using demo_reliable by (simp_all add: demo_pair_def reliable_def [abs_def] suspect_def [abs_def])

lemma demo_pair_forms: "\<exists>c'. roast_try_form_session (demo_env assemble_any) (demo_pair flt) = (True, c')"
proof (rule form_succeeds [OF demo_pair_inv])
  show "list_ex (\<lambda>s. rs_state s = RSESS_EMPTY) (g_sessions (demo_pair flt))"
    by (simp add: demo_pair_def demo_coord_def coord_boot_def empty_session_def list_ex_iff ROAST_MAX_SESSIONS_def)
  show "frost_assemble_signing_package (e_exec (demo_env assemble_any)) b \<noteq> None" for b
    by (simp add: demo_env_def assemble_any_works)
qed (simp_all add: demo_pair_chosen, simp_all add: demo_pair_def demo_coord_def coord_boot_def frost_consts)

lemma demo_pair_relays:
  obtains c' s' where "roast_try_form_session (demo_env assemble_any) (demo_pair flt) = (True, c')"
    "s' \<in> set (signers c')" "sg_id s' = sg_id (demo_signer 1 SPHASE_COMMITTED [7])"
    "sg_msgq s' \<noteq> sg_msgq (demo_signer 1 SPHASE_COMMITTED [7])"
    "demo_signer 1 SPHASE_COMMITTED [7] \<in> set (signers (demo_pair flt))"
proof -
  let ?s = "demo_signer 1 SPHASE_COMMITTED [7]"
  obtain c' where c': "roast_try_form_session (demo_env assemble_any) (demo_pair flt) = (True, c')"
    using demo_pair_forms by blast
  have s: "?s \<in> set (signers (demo_pair flt))" by (simp add: demo_pair_def demo_coord_def)
  have "unat (g_t (demo_pair flt)) = 2" by (simp add: demo_pair_def demo_coord_def)
  then have "sg_id ?s \<in> set (take (unat (g_t (demo_pair flt))) (map sg_id
      (filter (reliable (demo_pair flt)) (signers (demo_pair flt)) @ filter (suspect (demo_pair flt)) (signers (demo_pair flt)))))"
    by (simp add: demo_pair_chosen)
  then show thesis using member_relayed [OF demo_pair_inv c' s] that c' s by blast
qed

lemma demo_member_ready:
  "in_step demo_member (demo_signer 1 SPHASE_COMMITTED [7]) (demo_pair flt)"
  "commitments_signed (demo_nenv [9] [8]) demo_member (demo_pair flt)" "can_sign (demo_nenv [9] [8]) demo_member"
proof -
  show "in_step demo_member (demo_signer 1 SPHASE_COMMITTED [7]) (demo_pair flt)"
    by (simp add: in_step_def demo_member_def demo_node_def demo_signer_def demo_pair_def demo_coord_def)
  show "commitments_signed (demo_nenv [9] [8]) demo_member (demo_pair flt)"
    by (simp add: commitments_signed_def owner_signed_def demo_member_def demo_node_def demo_signer_def demo_pair_def
        demo_coord_def demo_nenv_def demo_cache_def get_signer_pubkey_def frost_consts)
  have "signs_256 (demo_nenv [9] [8])" by (rule demo_nenv_signs)
  then show "can_sign (demo_nenv [9] [8]) demo_member"
    by (simp add: can_sign_def demo_member_def demo_node_def node_boot_def demo_nenv_def demo_core_assemble demo_core_sign frost_consts)
qed

section \<open>Properties of sessions\<close>

text \<open>C5: A session that the coordinator forms can be completed. Every member is sent the same kind of message, a commit
  bundle, and a member that is in step with the coordinator, can check the commitments the coordinator collected and has
  a working key answers it with its signature share.\<close>

theorem honest_member_answers_session:
  assumes "coord_inv c" "roast_try_form_session env c = (True, c')" "\<not> g_fault c"
    and "s \<in> set (signers c)" "s' \<in> set (signers c')" "sg_id s' = sg_id s" "sg_msgq s' \<noteq> sg_msgq s"
    and "in_step nd s c" "commitments_signed nenv nd c" "can_sign nenv nd"
  shows "\<exists>wire nd'. sg_msgq s' = sg_msgq s @ [mk_outmsg FROST_MSG_RELAY_COMMIT [] 0 wire (of_nat (length wire))] \<and>
    process_coord_frame nenv FROST_MSG_RELAY_COMMIT [] wire nd = Cont nd' \<and> queues_share nd nd'"
proof -
  obtain chosen slot b spkg where f: "formed env c c' chosen slot b spkg (bundle_wire b)" "sg_id s \<in> set chosen"
    and q: "sg_msgq s' = sg_msgq s @ [mk_outmsg FROST_MSG_RELAY_COMMIT [] 0 (bundle_wire b) (of_nat (length (bundle_wire b)))]"
    and un: "frost_unpack_commit_bundle (bundle_wire b) = Some (b, length (bundle_wire b))"
    using relayed_bundle [OF assms(1,2,4-7)] .
  obtain p share where "frost_assemble_signing_package (ne_exec nenv) b = Some p"
    "frost_sign (ne_exec nenv) (n_my_id nd) p (n_nonces nd) (n_key_pkg nd) = Some share"
    using assms(10) unfolding can_sign_def by blast
  then show ?thesis
    using verified_bundle_signs [OF un formed_contract [OF assms(1) f(1) assms(3,4) f(2) assms(8,9)]] assms(10) q
    unfolding can_sign_def by fastforce
qed

theorem honest_member_answers_session_witness:
  "\<exists>c' s' wire nd'. roast_try_form_session (demo_env assemble_any) (demo_pair False) = (True, c') \<and> s' \<in> set (signers c') \<and>
     sg_msgq s' = [mk_outmsg FROST_MSG_RELAY_COMMIT [] 0 wire (of_nat (length wire))] \<and>
     process_coord_frame (demo_nenv [9] [8]) FROST_MSG_RELAY_COMMIT [] wire demo_member = Cont nd' \<and> queues_share demo_member nd'"
proof -
  obtain c' s' where d: "roast_try_form_session (demo_env assemble_any) (demo_pair False) = (True, c')"
    "s' \<in> set (signers c')" "sg_id s' = sg_id (demo_signer 1 SPHASE_COMMITTED [7])"
    "sg_msgq s' \<noteq> sg_msgq (demo_signer 1 SPHASE_COMMITTED [7])"
    "demo_signer 1 SPHASE_COMMITTED [7] \<in> set (signers (demo_pair False))" by (rule demo_pair_relays)
  have "\<not> g_fault (demo_pair False)" by (simp add: demo_pair_def)
  from honest_member_answers_session [OF demo_pair_inv d(1) this d(5,2,3,4) demo_member_ready] d(1,2)
  show ?thesis by (auto simp: demo_signer_def)
qed

lemma flipped_byte: "x XOR 0xFF \<noteq> (x :: u8)"
proof
  assume "x XOR 0xFF = x"
  then have "bit (x XOR 0xFF) 0 = bit x 0" by (rule arg_cong)
  then show False by (simp add: bit_xor_iff)
qed

text \<open>C6: A coordinator that substitutes the message (its fault switch flips a byte of it in the bundle it relays) gets no
  signature: whatever keys and core a signer has, if it was asked to sign the real message it leaves the relayed bundle
  unanswered and its state unchanged.\<close>

theorem substituted_message_refused:
  assumes "coord_inv c" "roast_try_form_session env c = (True, c')" "g_fault c" "g_tbs c \<noteq> []"
    and "s \<in> set (signers c)" "s' \<in> set (signers c')" "sg_id s' = sg_id s" "sg_msgq s' \<noteq> sg_msgq s"
    and "n_tbs nd = g_tbs c"
  shows "\<exists>wire. sg_msgq s' = sg_msgq s @ [mk_outmsg FROST_MSG_RELAY_COMMIT [] 0 wire (of_nat (length wire))] \<and>
    process_coord_frame nenv FROST_MSG_RELAY_COMMIT [] wire nd = Cont nd"
proof -
  obtain chosen slot b spkg where f: "formed env c c' chosen slot b spkg (bundle_wire b)" "sg_id s \<in> set chosen"
    and q: "sg_msgq s' = sg_msgq s @ [mk_outmsg FROST_MSG_RELAY_COMMIT [] 0 (bundle_wire b) (of_nat (length (bundle_wire b)))]"
    and un: "frost_unpack_commit_bundle (bundle_wire b) = Some (b, length (bundle_wire b))"
    using relayed_bundle [OF assms(1,2,5-8)] .
  let ?k = "length (g_tbs c) div 2"
  have k: "?k < length (g_tbs c)" using assms(4) by simp
  have "bundle_tbs c = (g_tbs c)[?k := g_tbs c ! ?k XOR 0xFF]" using assms(3) by (simp only: bundle_tbs_def Let_def if_True)
  then have "bundle_tbs c ! ?k = g_tbs c ! ?k XOR 0xFF" using k by (simp only: nth_list_update_eq)
  then have "bundle_tbs c \<noteq> g_tbs c" using flipped_byte by metis
  then have "cb_tbs b \<noteq> n_tbs nd" unfolding formed_facts(8) [OF assms(1) f(1)] assms(9) .
  then have "process_coord_frame nenv FROST_MSG_RELAY_COMMIT [] (bundle_wire b) nd = Cont nd"
    by (simp add: on_relay_commit_def un bundle_verified_iff)
  with q show ?thesis by blast
qed

theorem substituted_message_refused_witness:
  "\<exists>c' s' wire. roast_try_form_session (demo_env assemble_any) (demo_pair True) = (True, c') \<and> s' \<in> set (signers c') \<and>
     sg_msgq s' = [mk_outmsg FROST_MSG_RELAY_COMMIT [] 0 wire (of_nat (length wire))] \<and>
     process_coord_frame (demo_nenv [9] [8]) FROST_MSG_RELAY_COMMIT [] wire demo_member = Cont demo_member"
proof -
  obtain c' s' where d: "roast_try_form_session (demo_env assemble_any) (demo_pair True) = (True, c')"
    "s' \<in> set (signers c')" "sg_id s' = sg_id (demo_signer 1 SPHASE_COMMITTED [7])"
    "sg_msgq s' \<noteq> sg_msgq (demo_signer 1 SPHASE_COMMITTED [7])"
    "demo_signer 1 SPHASE_COMMITTED [7] \<in> set (signers (demo_pair True))" by (rule demo_pair_relays)
  have "g_fault (demo_pair True)" "g_tbs (demo_pair True) \<noteq> []" "n_tbs demo_member = g_tbs (demo_pair True)"
    by (simp_all add: demo_pair_def demo_coord_def demo_member_def)
  from substituted_message_refused [OF demo_pair_inv d(1) this(1,2) d(5,2,3,4) this(3)] d(1,2)
  show ?thesis by (auto simp: demo_signer_def)
qed

section \<open>A secret share, from signer to signer\<close>

text \<open>The payload of a round-two package.\<close>

definition sealed_payload :: "u16 \<Rightarrow> u16 \<Rightarrow> bytes \<Rightarrow> bytes" where
  "sealed_payload i k ct = be16_bytes i @ be16_bytes k @ ct"

lemma sealed_payload_fields:
  "r1_sender (sealed_payload i k ct) = i" "r2_target (sealed_payload i k ct) = k" "drop 4 (sealed_payload i k ct) = ct"
  "length (sealed_payload i k ct) = 4 + length ct"
  by (simp_all add: sealed_payload_def r1_sender_def r2_target_def)

lemma print_short: "length bs < 12000 \<Longrightarrow> print_bytes_as_hex bs = Cont (bytes_to_hex bs @ [NL])"
  by (simp add: print_bytes_as_hex_def frost_consts)

lemma send_r2_one:
  assumes "signs_256 env" "get_signer_pubkey_oaep (n_cache nd) k = Some pub" "ne_encrypt env 0 pub pkg = Some ct"
    and "length ct \<le> 256" "length pkg < 12000"
  shows "\<exists>sig fr. ne_sign env (sealed_payload (n_my_id nd) k ct) = Some sig \<and> length sig = FROST_FRAME_SIG_SIZE \<and>
    frost_encode_frame ty sig (of_nat FROST_FRAME_SIG_SIZE) (sealed_payload (n_my_id nd) k ct) (of_nat (4 + length ct)) = Some fr \<and>
    send_r2 env ty 0 [(k, pkg)] nd = Cont (nd\<lparr>n_outq := n_outq nd @
      [\<lparr>om_len = FROST_FRAME_HDR + FROST_FRAME_SIG_SIZE + (4 + length ct), om_sent = 0, om_data = Some fr\<rparr>]\<rparr>)"
proof -
  have send: "send_r2 env ty 0 [(k, pkg)] nd = nbind (queue_to_coord env ty (sealed_payload (n_my_id nd) k ct) nd) Cont"
    using assms(2-5) by (simp add: print_short sealed_payload_def)
  have "length (sealed_payload (n_my_id nd) k ct) \<le> FROST_MAX_PAYLOAD"
    using assms(4) by (simp add: sealed_payload_fields frost_consts)
  from queue_signed_256 [OF assms(1) this, of "sealed_payload (n_my_id nd) k ct" ty nd]
  show ?thesis unfolding send sealed_payload_fields(4) by (auto simp: queue_to_coord_def)
qed

lemma route_to_target:
  assumes "coord_inv c" "s \<in> set (signers c)" "r2_target payload = sg_id s" "4 \<le> length payload" "length payload < 12000"
    and "unat slen \<le> length sig"
  shows "route_r2 ty sig slen payload c = Cont (c\<lparr>signers := map (\<lambda>r. if sg_id r = sg_id s
      then signer_send ty sig slen payload (of_nat (length payload)) r else r) (signers c)\<rparr>)"
proof -
  have "find_signer (sg_id s) c \<noteq> None" using assms(2) by (auto simp: find_signer_def find_None_conv)
  moreover have "signers_ok (signers c)" using assms(1) by (rule coord_invD)
  ultimately show ?thesis
    using assms(3-6) by (auto simp: route_r2_def relay_r2_def print_short upd_signer_def update_first_as_map)
qed



end
